(* ===== verification/Go_Prelude.thy ===== *)
theory Go_Prelude
  imports Main "HOL-Library.Word" "HOL-Library.Monad_Syntax"
begin

text \<open>
  Shared vocabulary of the development: Go's machine integers as words, byte slices and
  strings as lists, errors as values, the outcome of a call that may return, fail with an
  error or panic, and the generic lemmas on lists and words that the component theories use.

  A nil slice and an empty slice are the same list: the modelled code distinguishes them
  nowhere except in \<^verbatim>\<open>pipe.Read\<close> (srv.go), whose theory keeps the difference.
\<close>

unbundle bit_operations_syntax

section \<open>Machine integers, bytes and strings\<close>

type_synonym u8 = "8 word"
type_synonym u16 = "16 word"
type_synonym u32 = "32 word"
type_synonym u64 = "64 word"
type_synonym bytes = "u8 list"

text \<open>
  A Go string is a sequence of bytes; HOL's \<^typ>\<open>char\<close> is a byte too, so the two conversions
  \<^verbatim>\<open>[]byte(s)\<close> and \<^verbatim>\<open>string(b)\<close> are bijections.
\<close>

definition byte_of_char :: "char \<Rightarrow> u8" where
  "byte_of_char c = of_nat (of_char c)"

definition char_of_byte :: "u8 \<Rightarrow> char" where
  "char_of_byte b = char_of (unat b)"

abbreviation bytes_of_string :: "string \<Rightarrow> bytes" where
  "bytes_of_string s \<equiv> map byte_of_char s"

abbreviation string_of_bytes :: "bytes \<Rightarrow> string" where
  "string_of_bytes b \<equiv> map char_of_byte b"

section \<open>Errors and outcomes\<close>

text \<open>
  The error values the sources create or compare: \<^verbatim>\<open>io.EOF\<close>, \<^verbatim>\<open>io.ErrClosedPipe\<close>,
  \<^verbatim>\<open>proto.ParseError\<close>, and the strings of \<^verbatim>\<open>errors.New\<close> and \<^verbatim>\<open>fmt.Errorf\<close>.
\<close>

datatype go_error =
    EOF
  | ErrClosedPipe
  | ParseError string
  | ErrorString string

fun error_text :: "go_error \<Rightarrow> string" where
  "error_text EOF = ''EOF''"
| "error_text ErrClosedPipe = ''io: read/write on closed pipe''"
| "error_text (ParseError s) = s"
| "error_text (ErrorString s) = s"

datatype 'a res = Ok 'a | Err go_error | Panic

text \<open>Decimal rendering of the \<^verbatim>\<open>%d\<close> verb for unsigned arguments.\<close>

fun fmt_d :: "nat \<Rightarrow> string" where
  "fmt_d n = (if n < 10 then [char_of (48 + n)] else fmt_d (n div 10) @ [char_of (48 + n mod 10)])"

declare fmt_d.simps [simp del]

section \<open>Little-endian words\<close>

text \<open>
  \<^verbatim>\<open>encoding/binary\<close>: \<^verbatim>\<open>PutUint16/32/64\<close> store the low byte first,
  \<^verbatim>\<open>Uint16/32/64\<close> read the bytes back with shifts and ors.
\<close>

primrec le_bytes :: "nat \<Rightarrow> 'a::len word \<Rightarrow> bytes" where
  "le_bytes 0 w = []"
| "le_bytes (Suc n) w = ucast w # le_bytes n (drop_bit 8 w)"

primrec le_word :: "bytes \<Rightarrow> 'a::len word" where
  "le_word [] = 0"
| "le_word (b # bs) = ucast b OR push_bit 8 (le_word bs)"

named_theorems codec_simps \<open>rewriting of marshalling steps on well-sized buffers\<close>

lemma char_of_byte_of_char [simp]: "char_of_byte (byte_of_char c) = c"
  by (simp add: char_of_byte_def byte_of_char_def unsigned_of_nat take_bit_eq_mod
      less_imp_le of_char_mod_256)

lemma byte_of_char_of_byte [simp]: "byte_of_char (char_of_byte b) = b"
proof -
  have "unat b < 256" using unsigned_less [of b] by simp
  then show ?thesis by (simp add: char_of_byte_def byte_of_char_def)
qed

lemma char_byte_comp [simp]: "char_of_byte \<circ> byte_of_char = id"
  by (simp add: fun_eq_iff)

lemma string_bytes_string [simp]: "string_of_bytes (bytes_of_string s) = s"
  by (induction s) simp_all

lemma bytes_string_bytes [simp]: "bytes_of_string (string_of_bytes b) = b"
  by (induction b) simp_all

lemma length_le_bytes [simp]: "length (le_bytes n w) = n"
  by (induction n arbitrary: w) simp_all

lemma le_word_le_bytes: "le_word (le_bytes n w) = take_bit (8 * n) w"
proof (induction n arbitrary: w)
  case 0
  then show ?case by simp
next
  case (Suc n)
  have "le_word (le_bytes (Suc n) w) =
      ucast (ucast w :: u8) OR push_bit 8 (take_bit (8 * n) (drop_bit 8 w))"
    by (simp add: Suc.IH)
  also have "\<dots> = take_bit (8 * Suc n) w"
    by (rule bit_word_eqI) (auto simp: bit_simps)
  finally show ?case .
qed

lemma le_word_16 [simp]: "le_word (le_bytes 2 (w :: u16)) = w"
  and le_word_32 [simp]: "le_word (le_bytes 4 (w' :: u32)) = w'"
  and le_word_64 [simp]: "le_word (le_bytes 8 (w'' :: u64)) = w''"
  by (simp_all add: le_word_le_bytes take_bit_word_eq_self)

end
