(* ===== verification/Marshall.thy ===== *)
theory Marshall
  imports Go_Prelude
begin

text \<open>
  The marshalling helpers of proto/marshall.go.

  Decoders take the unread slice and return the value and the slice that is left; a slice too
  short for the value yields the zero value and an empty rest, as the source does. Encoders
  write at a cursor into a buffer of fixed size: the pair \<open>(filled, buffer)\<close> is the part of the
  allocated slice \<^verbatim>\<open>buff\<close> before the cursor and the slice \<^verbatim>\<open>buffer\<close> from the cursor
  to the end. Writing past the end is Go's index-out-of-range panic, here \<^const>\<open>None\<close>.

  The locale \<open>field_codec\<close> is the contract between a field's encoder and its decoder; it is
  interpreted on the 16, 32 and 64 bit words and on strings, and gives the facts on sequences
  of fields that the walk messages use. The locale \<open>io_reader\<close> is the contract
  \<^verbatim>\<open>readBytes\<close> needs of an \<^verbatim>\<open>io.Reader\<close>.
\<close>

section \<open>Reading whole buffers\<close>

text \<open>
  \<open>rd r n\<close> is one call \<^verbatim>\<open>r.Read(p)\<close> with \<^verbatim>\<open>len(p) = n\<close>: the bytes read, the error if
  any, and the reader's next state. \<open>got\<close> is \<^verbatim>\<open>buff[:read]\<close>. The loop of the source ends
  only when the reader makes progress or fails; a run that never ends is \<^const>\<open>None\<close>.
\<close>

type_synonym 'r reader = "'r \<Rightarrow> nat \<Rightarrow> bytes \<times> go_error option \<times> 'r"

partial_function (option) readBytes_from ::
  "'r reader \<Rightarrow> 'r \<Rightarrow> nat \<Rightarrow> bytes \<Rightarrow> ((go_error + bytes) \<times> 'r) option" where
  "readBytes_from rd r n got =
     (if length got < n then
        (case rd r (n - length got) of (bs, err, r') \<Rightarrow>
           (case err of
              Some e \<Rightarrow> Some (Inl e, r')
            | None \<Rightarrow> readBytes_from rd r' n (got @ bs)))
      else Some (Inr got, r))"

definition readBytes :: "'r reader \<Rightarrow> 'r \<Rightarrow> nat \<Rightarrow> ((go_error + bytes) \<times> 'r) option" where
  "readBytes rd r n = readBytes_from rd r n []"

section \<open>Decoding\<close>

definition fromLittleE16 :: "bytes \<Rightarrow> u16 \<times> bytes" where
  "fromLittleE16 buff = (if length buff < 2 then (0, []) else (le_word (take 2 buff), drop 2 buff))"

definition fromLittleE32 :: "bytes \<Rightarrow> u32 \<times> bytes" where
  "fromLittleE32 buff = (if length buff < 4 then (0, []) else (le_word (take 4 buff), drop 4 buff))"

definition fromLittleE64 :: "bytes \<Rightarrow> u64 \<times> bytes" where
  "fromLittleE64 buff = (if length buff < 8 then (0, []) else (le_word (take 8 buff), drop 8 buff))"

definition fromString :: "bytes \<Rightarrow> string \<times> bytes" where
  "fromString buff =
     (let (leng, buff) = fromLittleE16 buff
      in if length buff < unat leng then ('''', [])
         else (string_of_bytes (take (unat leng) buff), drop (unat leng) buff))"

section \<open>Encoding\<close>

type_synonym wbuf = "bytes \<times> bytes"

definition make_buff :: "nat \<Rightarrow> wbuf" where
  "make_buff n = ([], replicate n 0)"

definition whole_buff :: "wbuf \<Rightarrow> bytes" where
  "whole_buff b = fst b @ snd b"

text \<open>\<^verbatim>\<open>buffer[0] = x; buffer = buffer[1:]\<close>\<close>

fun put_byte :: "u8 \<Rightarrow> wbuf \<Rightarrow> wbuf option" where
  "put_byte x (filled, buffer) = (if buffer = [] then None else Some (filled @ [x], tl buffer))"

text \<open>\<^verbatim>\<open>copy(buffer, src); buffer = buffer[len(src):]\<close>\<close>

fun put_bytes :: "bytes \<Rightarrow> wbuf \<Rightarrow> wbuf option" where
  "put_bytes src (filled, buffer) =
     (if length src \<le> length buffer then Some (filled @ src, drop (length src) buffer) else None)"

text \<open>\<^verbatim>\<open>copy(buffer, src)\<close>: the shorter of the two lengths is copied, the cursor stays.\<close>

fun copy_into :: "bytes \<Rightarrow> wbuf \<Rightarrow> wbuf" where
  "copy_into src (filled, buffer) =
     (filled, take (length buffer) src @ drop (length src) buffer)"

fun toLittleE16 :: "u16 \<Rightarrow> wbuf \<Rightarrow> wbuf option" where
  "toLittleE16 i (filled, buff) =
     (if length buff < 2 then None else Some (filled @ le_bytes 2 i, drop 2 buff))"

fun toLittleE32 :: "u32 \<Rightarrow> wbuf \<Rightarrow> wbuf option" where
  "toLittleE32 i (filled, buff) =
     (if length buff < 4 then None else Some (filled @ le_bytes 4 i, drop 4 buff))"

fun toLittleE64 :: "u64 \<Rightarrow> wbuf \<Rightarrow> wbuf option" where
  "toLittleE64 i (filled, buff) =
     (if length buff < 8 then None else Some (filled @ le_bytes 8 i, drop 8 buff))"

definition toString :: "string \<Rightarrow> wbuf \<Rightarrow> wbuf option" where
  "toString s buff = do { buff \<leftarrow> toLittleE16 (of_nat (length s)) buff;
                          put_bytes (bytes_of_string s) buff }"

text \<open>Loops over a sequence of fields (\<^verbatim>\<open>for _, x := range xs\<close> and \<^verbatim>\<open>for ; i < n; i++\<close>).\<close>

primrec put_each :: "('a \<Rightarrow> wbuf \<Rightarrow> wbuf option) \<Rightarrow> 'a list \<Rightarrow> wbuf \<Rightarrow> wbuf option" where
  "put_each put [] b = Some b"
| "put_each put (x # xs) b = do { b \<leftarrow> put x b; put_each put xs b }"

primrec get_each :: "(bytes \<Rightarrow> 'a \<times> bytes) \<Rightarrow> nat \<Rightarrow> bytes \<Rightarrow> 'a list \<times> bytes" where
  "get_each get 0 b = ([], b)"
| "get_each get (Suc n) b =
     (let (x, b) = get b; (xs, b) = get_each get n b in (x # xs, b))"

section \<open>The contract of a reader\<close>

text \<open>
  \<open>pending r\<close> are the bytes the reader delivers before it fails. A successful read hands out
  a prefix of them, at most as many as asked, and either makes progress or gets closer to its
  failure (\<open>rank\<close>); a failed read with room in the buffer means nothing was pending.
\<close>

locale io_reader =
  fixes rd :: "'r reader"
    and pending :: "'r \<Rightarrow> bytes"
    and rank :: "'r \<Rightarrow> nat"
  assumes rd_some: "0 < n \<Longrightarrow> rd r n = (bs, None, r') \<Longrightarrow>
      length bs \<le> n \<and> pending r = bs @ pending r' \<and> (bs \<noteq> [] \<or> rank r' < rank r)"
    and rd_fail: "0 < n \<Longrightarrow> rd r n = (bs, Some e, r') \<Longrightarrow> pending r = []"
begin

lemma readBytes_from_enough:
  "length got \<le> n \<Longrightarrow> n - length got \<le> length (pending r) \<Longrightarrow>
   \<exists>r'. readBytes_from rd r n got = Some (Inr (got @ take (n - length got) (pending r)), r')
      \<and> pending r' = drop (n - length got) (pending r)"
proof (induction "(n - length got, rank r)" arbitrary: r got
    rule: wf_induct_rule [OF wf_lex_prod [OF wf_less_than wf_less_than]])
  case 1
  show ?case
  proof (cases "length got < n")
    case False
    with "1.prems" show ?thesis by (simp add: readBytes_from.simps)
  next
    case True
    obtain bs err r' where rd: "rd r (n - length got) = (bs, err, r')"
      by (metis prod_cases3)
    have err: "err = None"
      using rd_fail [of "n - length got" r bs _ r'] rd True "1.prems" by (cases err) auto
    note prog = rd_some [of "n - length got" r bs r'] rd err True
    have "\<exists>r''. readBytes_from rd r' n (got @ bs)
          = Some (Inr ((got @ bs) @ take (n - length (got @ bs)) (pending r')), r'')
        \<and> pending r'' = drop (n - length (got @ bs)) (pending r')"
      by (rule "1.hyps") (use prog "1.prems" in \<open>cases bs; force\<close>)+
    with prog True rd err show ?thesis
      by (subst readBytes_from.simps) auto
  qed
qed

lemma readBytes_from_short:
  "length got \<le> n \<Longrightarrow> length (pending r) < n - length got \<Longrightarrow>
   \<exists>e r'. readBytes_from rd r n got = Some (Inl e, r')"
proof (induction "(n - length got, rank r)" arbitrary: r got
    rule: wf_induct_rule [OF wf_lex_prod [OF wf_less_than wf_less_than]])
  case 1
  then have lt: "length got < n" by simp
  obtain bs err r' where rd: "rd r (n - length got) = (bs, err, r')"
    by (metis prod_cases3)
  show ?case
  proof (cases err)
    case (Some e)
    with rd lt show ?thesis by (simp add: readBytes_from.simps)
  next
    case None
    note prog = rd_some [of "n - length got" r bs r'] rd None lt
    have "\<exists>e r''. readBytes_from rd r' n (got @ bs) = Some (Inl e, r'')"
      by (rule "1.hyps") (use prog "1.prems" in \<open>cases bs; force\<close>)+
    with lt rd None show ?thesis by (simp add: readBytes_from.simps)
  qed
qed

lemma readBytes_enough:
  assumes "n \<le> length (pending r)"
  shows "\<exists>r'. readBytes rd r n = Some (Inr (take n (pending r)), r') \<and> pending r' = drop n (pending r)"
  using readBytes_from_enough [of "[]" n r] assms by (simp add: readBytes_def)

lemma readBytes_short:
  assumes "length (pending r) < n"
  shows "\<exists>e r'. readBytes rd r n = Some (Inl e, r')"
  using readBytes_from_short [of "[]" n r] assms by (simp add: readBytes_def)

end

section \<open>The contract of a field\<close>

text \<open>
  \<open>enc x\<close> is the reference encoding of a value, \<open>ok x\<close> says that the value fits it. Writing
  into a buffer with enough room appends exactly \<open>enc x\<close>, and reading \<open>enc x\<close> followed by
  anything gives \<open>x\<close> and leaves the rest.
\<close>

locale field_codec =
  fixes put :: "'a \<Rightarrow> wbuf \<Rightarrow> wbuf option"
    and get :: "bytes \<Rightarrow> 'a \<times> bytes"
    and enc :: "'a \<Rightarrow> bytes"
    and ok :: "'a \<Rightarrow> bool"
  assumes put_enc: "ok x \<Longrightarrow> length (enc x) \<le> length b \<Longrightarrow>
      put x (f, b) = Some (f @ enc x, drop (length (enc x)) b)"
    and get_enc: "ok x \<Longrightarrow> get (enc x @ rest) = (x, rest)"
begin

lemma put_each_enc:
  "list_all ok xs \<Longrightarrow> length (concat (map enc xs)) \<le> length b \<Longrightarrow>
   put_each put xs (f, b) = Some (f @ concat (map enc xs), drop (length (concat (map enc xs))) b)"
proof (induction xs arbitrary: f b)
  case (Cons x xs)
  then have "put x (f, b) = Some (f @ enc x, drop (length (enc x)) b)"
    by (intro put_enc) simp_all
  with Cons show ?case by (simp add: add.commute)
qed simp

lemma get_each_enc:
  "list_all ok xs \<Longrightarrow> get_each get (length xs) (concat (map enc xs) @ rest) = (xs, rest)"
  by (induction xs) (simp_all add: get_enc)

lemma enc_inj: "ok x \<Longrightarrow> ok y \<Longrightarrow> enc x @ r = enc y @ s \<Longrightarrow> x = y \<and> r = s"
  by (metis get_enc prod.inject)

end

definition enc_string :: "string \<Rightarrow> bytes" where
  "enc_string s = le_bytes 2 (of_nat (length s) :: u16) @ bytes_of_string s"

definition short_string :: "string \<Rightarrow> bool" where
  "short_string s \<longleftrightarrow> length s < 2 ^ 16"

lemma length_enc_string [simp]: "length (enc_string s) = 2 + length s"
  by (simp add: enc_string_def)

lemma unat_short [simp]: "short_string s \<Longrightarrow> unat (of_nat (length s) :: u16) = length s"
  by (simp add: short_string_def unsigned_of_nat take_bit_nat_eq_self)

interpretation le16: field_codec toLittleE16 fromLittleE16 "le_bytes 2" "\<lambda>_. True"
  by unfold_locales (simp_all add: fromLittleE16_def)

interpretation le32: field_codec toLittleE32 fromLittleE32 "le_bytes 4" "\<lambda>_. True"
  by unfold_locales (simp_all add: fromLittleE32_def)

interpretation le64: field_codec toLittleE64 fromLittleE64 "le_bytes 8" "\<lambda>_. True"
  by unfold_locales (simp_all add: fromLittleE64_def)

interpretation str: field_codec toString fromString enc_string short_string
proof
  fix s :: string and f b rest :: bytes
  assume s: "short_string s"
  show "toString s (f, b) = Some (f @ enc_string s, drop (length (enc_string s)) b)"
    if "length (enc_string s) \<le> length b"
    using that by (simp add: toString_def enc_string_def add.commute)
  show "fromString (enc_string s @ rest) = (s, rest)"
    using s by (simp add: fromString_def enc_string_def le16.get_enc)
qed

lemmas put_fields [codec_simps] =
  le16.put_enc le32.put_enc le64.put_enc str.put_enc str.put_each_enc
lemmas get_fields [codec_simps] =
  le16.get_enc le32.get_enc le64.get_enc str.get_enc str.get_each_enc

end
