(* ===== verification/Fcall_Types.thy ===== *)
theory Fcall_Types
  imports Marshall
begin

text \<open>
  The 9P2000 messages of package proto: one record per message struct (proto/*.go), with the
  \<^verbatim>\<open>parse\<close> method that fills it from a byte slice and the \<^verbatim>\<open>Compose\<close> method that
  renders it. A receiver starts as the zero value with its header set, as in
  \<^verbatim>\<open>ParseCall\<close>; \<^verbatim>\<open>parse\<close> returns the updated receiver and the unread slice.

  \<^verbatim>\<open>Compose\<close> allocates a buffer of the length it computes and writes field after field at
  a cursor; \<^const>\<open>None\<close> is the panic of a write beyond the buffer. The width at which a length
  is computed is the source's: \<^verbatim>\<open>int\<close> lengths are natural numbers, \<^verbatim>\<open>uint16\<close> and
  \<^verbatim>\<open>uint32\<close> lengths are words and wrap.

  The \<^verbatim>\<open>String\<close> methods, used for logging only, are not modelled.
\<close>

section \<open>Message types (proto/fcall.go)\<close>

abbreviation (input) "Tversion \<equiv> 100 :: u8"
abbreviation (input) "Rversion \<equiv> 101 :: u8"
abbreviation (input) "Tauth \<equiv> 102 :: u8"
abbreviation (input) "Rauth \<equiv> 103 :: u8"
abbreviation (input) "Tattach \<equiv> 104 :: u8"
abbreviation (input) "Rattach \<equiv> 105 :: u8"
abbreviation (input) "Terror \<equiv> 106 :: u8"
abbreviation (input) "Rerror \<equiv> 107 :: u8"
abbreviation (input) "Tflush \<equiv> 108 :: u8"
abbreviation (input) "Rflush \<equiv> 109 :: u8"
abbreviation (input) "Twalk \<equiv> 110 :: u8"
abbreviation (input) "Rwalk \<equiv> 111 :: u8"
abbreviation (input) "Topen \<equiv> 112 :: u8"
abbreviation (input) "Ropen \<equiv> 113 :: u8"
abbreviation (input) "Tcreate \<equiv> 114 :: u8"
abbreviation (input) "Rcreate \<equiv> 115 :: u8"
abbreviation (input) "Tread \<equiv> 116 :: u8"
abbreviation (input) "Rread \<equiv> 117 :: u8"
abbreviation (input) "Twrite \<equiv> 118 :: u8"
abbreviation (input) "Rwrite \<equiv> 119 :: u8"
abbreviation (input) "Tclunk \<equiv> 120 :: u8"
abbreviation (input) "Rclunk \<equiv> 121 :: u8"
abbreviation (input) "Tremove \<equiv> 122 :: u8"
abbreviation (input) "Rremove \<equiv> 123 :: u8"
abbreviation (input) "Tstat \<equiv> 124 :: u8"
abbreviation (input) "Rstat \<equiv> 125 :: u8"
abbreviation (input) "Twstat \<equiv> 126 :: u8"
abbreviation (input) "Rwstat \<equiv> 127 :: u8"

abbreviation (input) "MaxMsgLen \<equiv> 65535 :: u32"

section \<open>Header and Qid\<close>

record Header =
  h_Type :: u8
  h_Tag :: u16

definition Header_parse :: "bytes \<Rightarrow> (Header \<times> bytes) res" where
  "Header_parse buff =
     (if length buff < 3 then Err (ParseError (''expected 2 bytes. got: '' @ fmt_d (length buff)))
      else let typ = hd buff;
               buff = tl buff;
               (tag, buff) = fromLittleE16 buff
           in Ok (\<lparr>h_Type = typ, h_Tag = tag\<rparr>, buff))"

record Qid =
  q_Qtype :: u8
  q_Vers :: u32
  q_Uid :: u64

definition Qid_zero :: Qid where
  "Qid_zero = \<lparr>q_Qtype = 0, q_Vers = 0, q_Uid = 0\<rparr>"

definition Qid_parse :: "Qid \<Rightarrow> bytes \<Rightarrow> (Qid \<times> bytes) res" where
  "Qid_parse qid buff =
     (case buff of
        [] \<Rightarrow> Err (ParseError ''can't parse. Reached end of buffer.'')
      | b # buff \<Rightarrow>
          let (vers, buff) = fromLittleE32 buff;
              (uid, buff) = fromLittleE64 buff
          in Ok (qid\<lparr>q_Qtype := b, q_Vers := vers, q_Uid := uid\<rparr>, buff))"

definition Qid_Compose :: "Qid \<Rightarrow> bytes option" where
  "Qid_Compose qid = do {
     let buff = make_buff 13;
     buffer \<leftarrow> put_byte (q_Qtype qid) buff;
     buffer \<leftarrow> toLittleE32 (q_Vers qid) buffer;
     buffer \<leftarrow> toLittleE64 (q_Uid qid) buffer;
     Some (whole_buff buffer) }"

section \<open>Version (proto/version.go)\<close>

record TRVersion =
  ver_Header :: Header
  ver_Msize :: u32
  ver_Version :: string

definition TRVersion_zero :: "Header \<Rightarrow> TRVersion" where
  "TRVersion_zero h = \<lparr>ver_Header = h, ver_Msize = 0, ver_Version = ''''\<rparr>"

definition TRVersion_parse :: "TRVersion \<Rightarrow> bytes \<Rightarrow> (TRVersion \<times> bytes) res" where
  "TRVersion_parse version buff =
     (let (msize, buff) = fromLittleE32 buff;
          (vers, buff) = fromString buff
      in Ok (version\<lparr>ver_Msize := msize, ver_Version := vers\<rparr>, buff))"

definition TRVersion_Compose :: "TRVersion \<Rightarrow> bytes option" where
  "TRVersion_Compose version = do {
     let len = 4 + 1 + 2 + 4 + (2 + length (ver_Version version));
     let buff = make_buff len;
     buffer \<leftarrow> toLittleE32 (of_nat len) buff;
     buffer \<leftarrow> put_byte (h_Type (ver_Header version)) buffer;
     buffer \<leftarrow> toLittleE16 (h_Tag (ver_Header version)) buffer;
     buffer \<leftarrow> toLittleE32 (ver_Msize version) buffer;
     buffer \<leftarrow> toString (ver_Version version) buffer;
     Some (whole_buff buffer) }"

section \<open>Auth (proto/auth.go)\<close>

record TAuth =
  tau_Header :: Header
  tau_Afid :: u32
  tau_Uname :: string
  tau_Aname :: string

definition TAuth_zero :: "Header \<Rightarrow> TAuth" where
  "TAuth_zero h = \<lparr>tau_Header = h, tau_Afid = 0, tau_Uname = '''', tau_Aname = ''''\<rparr>"

definition TAuth_parse :: "TAuth \<Rightarrow> bytes \<Rightarrow> (TAuth \<times> bytes) res" where
  "TAuth_parse auth buff =
     (let (afid, buff) = fromLittleE32 buff;
          (uname, buff) = fromString buff;
          (aname, buff) = fromString buff
      in Ok (auth\<lparr>tau_Afid := afid, tau_Uname := uname, tau_Aname := aname\<rparr>, buff))"

definition TAuth_Compose :: "TAuth \<Rightarrow> bytes option" where
  "TAuth_Compose auth = do {
     let len = (of_nat (4 + 1 + 2 + 4 + (2 + length (tau_Uname auth))
                  + (2 + length (tau_Aname auth))) :: u32);
     let buff = make_buff (unat len);
     buffer \<leftarrow> toLittleE32 len buff;
     buffer \<leftarrow> put_byte (h_Type (tau_Header auth)) buffer;
     buffer \<leftarrow> toLittleE16 (h_Tag (tau_Header auth)) buffer;
     buffer \<leftarrow> toLittleE32 (tau_Afid auth) buffer;
     buffer \<leftarrow> toString (tau_Uname auth) buffer;
     buffer \<leftarrow> toString (tau_Aname auth) buffer;
     Some (whole_buff buffer) }"

record RAuth =
  rau_Header :: Header
  rau_Aqid :: Qid

definition RAuth_zero :: "Header \<Rightarrow> RAuth" where
  "RAuth_zero h = \<lparr>rau_Header = h, rau_Aqid = Qid_zero\<rparr>"

definition RAuth_parse :: "RAuth \<Rightarrow> bytes \<Rightarrow> (RAuth \<times> bytes) res" where
  "RAuth_parse auth buff =
     (case Qid_parse (rau_Aqid auth) buff of
        Ok (qid, buff) \<Rightarrow> Ok (auth\<lparr>rau_Aqid := qid\<rparr>, buff)
      | Err e \<Rightarrow> Err e
      | Panic \<Rightarrow> Panic)"

definition RAuth_Compose :: "RAuth \<Rightarrow> bytes option" where
  "RAuth_Compose auth = do {
     let len = 4 + 1 + 2 + 13;
     let buff = make_buff len;
     buffer \<leftarrow> toLittleE32 (of_nat len) buff;
     buffer \<leftarrow> put_byte (h_Type (rau_Header auth)) buffer;
     buffer \<leftarrow> toLittleE16 (h_Tag (rau_Header auth)) buffer;
     qidbuffer \<leftarrow> Qid_Compose (rau_Aqid auth);
     Some (whole_buff (copy_into qidbuffer buffer)) }"

section \<open>Attach (proto/attach.go)\<close>

record TAttach =
  tat_Header :: Header
  tat_Fid :: u32
  tat_Afid :: u32
  tat_Uname :: string
  tat_Aname :: string

definition TAttach_zero :: "Header \<Rightarrow> TAttach" where
  "TAttach_zero h =
     \<lparr>tat_Header = h, tat_Fid = 0, tat_Afid = 0, tat_Uname = '''', tat_Aname = ''''\<rparr>"

definition TAttach_parse :: "TAttach \<Rightarrow> bytes \<Rightarrow> (TAttach \<times> bytes) res" where
  "TAttach_parse attach buff =
     (let (fid, buff) = fromLittleE32 buff;
          (afid, buff) = fromLittleE32 buff;
          (uname, buff) = fromString buff;
          (aname, buff) = fromString buff
      in Ok (attach\<lparr>tat_Fid := fid, tat_Afid := afid, tat_Uname := uname, tat_Aname := aname\<rparr>, buff))"

definition TAttach_Compose :: "TAttach \<Rightarrow> bytes option" where
  "TAttach_Compose attach = do {
     let len = 4 + 1 + 2 + 4 + 4 + (2 + length (tat_Uname attach)) + (2 + length (tat_Aname attach));
     let buff = make_buff len;
     buffer \<leftarrow> toLittleE32 (of_nat len) buff;
     buffer \<leftarrow> put_byte (h_Type (tat_Header attach)) buffer;
     buffer \<leftarrow> toLittleE16 (h_Tag (tat_Header attach)) buffer;
     buffer \<leftarrow> toLittleE32 (tat_Fid attach) buffer;
     buffer \<leftarrow> toLittleE32 (tat_Afid attach) buffer;
     buffer \<leftarrow> toString (tat_Uname attach) buffer;
     buffer \<leftarrow> toString (tat_Aname attach) buffer;
     Some (whole_buff buffer) }"

record RAttach =
  rat_Header :: Header
  rat_Qid :: Qid

definition RAttach_zero :: "Header \<Rightarrow> RAttach" where
  "RAttach_zero h = \<lparr>rat_Header = h, rat_Qid = Qid_zero\<rparr>"

definition RAttach_parse :: "RAttach \<Rightarrow> bytes \<Rightarrow> (RAttach \<times> bytes) res" where
  "RAttach_parse attach buff =
     (case Qid_parse (rat_Qid attach) buff of
        Ok (qid, buff) \<Rightarrow> Ok (attach\<lparr>rat_Qid := qid\<rparr>, buff)
      | Err e \<Rightarrow> Err e
      | Panic \<Rightarrow> Panic)"

definition RAttach_Compose :: "RAttach \<Rightarrow> bytes option" where
  "RAttach_Compose attach = do {
     let len = 4 + 1 + 2 + 13;
     let buff = make_buff len;
     buffer \<leftarrow> toLittleE32 (of_nat len) buff;
     buffer \<leftarrow> put_byte (h_Type (rat_Header attach)) buffer;
     buffer \<leftarrow> toLittleE16 (h_Tag (rat_Header attach)) buffer;
     qidbuff \<leftarrow> Qid_Compose (rat_Qid attach);
     Some (whole_buff (copy_into qidbuff buffer)) }"

section \<open>Error (proto/error.go)\<close>

record RError =
  rer_Header :: Header
  rer_Ename :: string

definition RError_zero :: "Header \<Rightarrow> RError" where
  "RError_zero h = \<lparr>rer_Header = h, rer_Ename = ''''\<rparr>"

definition RError_parse :: "RError \<Rightarrow> bytes \<Rightarrow> (RError \<times> bytes) res" where
  "RError_parse error buff =
     (let (ename, buff) = fromString buff in Ok (error\<lparr>rer_Ename := ename\<rparr>, buff))"

definition RError_Compose :: "RError \<Rightarrow> bytes option" where
  "RError_Compose error = do {
     let len = 4 + 1 + 2 + (2 + length (rer_Ename error));
     let buff = make_buff len;
     buffer \<leftarrow> toLittleE32 (of_nat len) buff;
     buffer \<leftarrow> put_byte (h_Type (rer_Header error)) buffer;
     buffer \<leftarrow> toLittleE16 (h_Tag (rer_Header error)) buffer;
     buffer \<leftarrow> toString (rer_Ename error) buffer;
     Some (whole_buff buffer) }"

section \<open>Flush (proto/flush.go)\<close>

record TFlush =
  tfl_Header :: Header
  tfl_Oldtag :: u16

definition TFlush_zero :: "Header \<Rightarrow> TFlush" where
  "TFlush_zero h = \<lparr>tfl_Header = h, tfl_Oldtag = 0\<rparr>"

definition TFlush_parse :: "TFlush \<Rightarrow> bytes \<Rightarrow> (TFlush \<times> bytes) res" where
  "TFlush_parse flush buff =
     (let (oldtag, buff) = fromLittleE16 buff in Ok (flush\<lparr>tfl_Oldtag := oldtag\<rparr>, buff))"

definition TFlush_Compose :: "TFlush \<Rightarrow> bytes option" where
  "TFlush_Compose flush = do {
     let len = 4 + 1 + 2 + 2;
     let buff = make_buff len;
     buffer \<leftarrow> toLittleE32 (of_nat len) buff;
     buffer \<leftarrow> put_byte (h_Type (tfl_Header flush)) buffer;
     buffer \<leftarrow> toLittleE16 (h_Tag (tfl_Header flush)) buffer;
     buffer \<leftarrow> toLittleE16 (tfl_Oldtag flush) buffer;
     Some (whole_buff buffer) }"

record RFlush =
  rfl_Header :: Header

definition RFlush_parse :: "RFlush \<Rightarrow> bytes \<Rightarrow> (RFlush \<times> bytes) res" where
  "RFlush_parse flush buff = Ok (flush, buff)"

definition RFlush_Compose :: "RFlush \<Rightarrow> bytes option" where
  "RFlush_Compose flush = do {
     let len = 4 + 1 + 2;
     let buff = make_buff len;
     buffer \<leftarrow> toLittleE32 (of_nat len) buff;
     buffer \<leftarrow> put_byte (h_Type (rfl_Header flush)) buffer;
     buffer \<leftarrow> toLittleE16 (h_Tag (rfl_Header flush)) buffer;
     Some (whole_buff buffer) }"

end
