(* ===== verification/Fcall_File_Types.thy ===== *)
theory Fcall_File_Types
  imports Fcall_Types
begin

text \<open>
  The messages that act on files (proto/walk.go, open.go, create.go, read.go, write.go,
  clunk.go, remove.go, stat.go, wstat.go), in the style of \<^verbatim>\<open>Fcall_Types\<close>, and
  \<^verbatim>\<open>ParseStats\<close>, which decodes the contents of a directory.
\<close>

section \<open>Walk (proto/walk.go)\<close>

record TWalk =
  twk_Header :: Header
  twk_Fid :: u32
  twk_Newfid :: u32
  twk_Nwname :: u16
  twk_Wname :: "string list"

definition TWalk_zero :: "Header \<Rightarrow> TWalk" where
  "TWalk_zero h = \<lparr>twk_Header = h, twk_Fid = 0, twk_Newfid = 0, twk_Nwname = 0, twk_Wname = []\<rparr>"

definition TWalk_parse :: "TWalk \<Rightarrow> bytes \<Rightarrow> (TWalk \<times> bytes) res" where
  "TWalk_parse walk buff =
     (let (fid, buff) = fromLittleE32 buff;
          (newfid, buff) = fromLittleE32 buff;
          (nwname, buff) = fromLittleE16 buff;
          (wname, buff) = get_each fromString (unat nwname) buff
      in Ok (walk\<lparr>twk_Fid := fid, twk_Newfid := newfid, twk_Nwname := nwname, twk_Wname := wname\<rparr>,
             buff))"

definition TWalk_Compose :: "TWalk \<Rightarrow> bytes option" where
  "TWalk_Compose walk = do {
     let len = foldl (\<lambda>len name. len + (2 + length name)) (4 + 1 + 2 + 4 + 4 + 2) (twk_Wname walk);
     let buff = make_buff len;
     buffer \<leftarrow> toLittleE32 (of_nat len) buff;
     buffer \<leftarrow> put_byte (h_Type (twk_Header walk)) buffer;
     buffer \<leftarrow> toLittleE16 (h_Tag (twk_Header walk)) buffer;
     buffer \<leftarrow> toLittleE32 (twk_Fid walk) buffer;
     buffer \<leftarrow> toLittleE32 (twk_Newfid walk) buffer;
     buffer \<leftarrow> toLittleE16 (twk_Nwname walk) buffer;
     buffer \<leftarrow> put_each toString (twk_Wname walk) buffer;
     Some (whole_buff buffer) }"

record RWalk =
  rwk_Header :: Header
  rwk_Nwqid :: u16
  rwk_Wqid :: "Qid list"

definition RWalk_zero :: "Header \<Rightarrow> RWalk" where
  "RWalk_zero h = \<lparr>rwk_Header = h, rwk_Nwqid = 0, rwk_Wqid = []\<rparr>"

primrec parse_qids :: "nat \<Rightarrow> bytes \<Rightarrow> (Qid list \<times> bytes) res" where
  "parse_qids 0 buff = Ok ([], buff)"
| "parse_qids (Suc n) buff =
     (case Qid_parse Qid_zero buff of
        Ok (qid, buff) \<Rightarrow>
          (case parse_qids n buff of
             Ok (qids, buff) \<Rightarrow> Ok (qid # qids, buff)
           | Err e \<Rightarrow> Err e
           | Panic \<Rightarrow> Panic)
      | Err e \<Rightarrow> Err e
      | Panic \<Rightarrow> Panic)"

definition RWalk_parse :: "RWalk \<Rightarrow> bytes \<Rightarrow> (RWalk \<times> bytes) res" where
  "RWalk_parse walk buff =
     (let (nwqid, buff) = fromLittleE16 buff
      in case parse_qids (unat nwqid) buff of
           Ok (wqid, buff) \<Rightarrow> Ok (walk\<lparr>rwk_Nwqid := nwqid, rwk_Wqid := wqid\<rparr>, buff)
         | Err e \<Rightarrow> Err e
         | Panic \<Rightarrow> Panic)"

definition put_qid :: "Qid \<Rightarrow> wbuf \<Rightarrow> wbuf option" where
  "put_qid qid buffer = do { qidbuff \<leftarrow> Qid_Compose qid; put_bytes qidbuff buffer }"

definition RWalk_Compose :: "RWalk \<Rightarrow> bytes option" where
  "RWalk_Compose walk = do {
     let len = (4 + 1 + 2 + 2 + (rwk_Nwqid walk * 13) :: u16);
     let buff = make_buff (unat len);
     buffer \<leftarrow> toLittleE32 (ucast len) buff;
     buffer \<leftarrow> put_byte (h_Type (rwk_Header walk)) buffer;
     buffer \<leftarrow> toLittleE16 (h_Tag (rwk_Header walk)) buffer;
     buffer \<leftarrow> toLittleE16 (rwk_Nwqid walk) buffer;
     buffer \<leftarrow> put_each put_qid (rwk_Wqid walk) buffer;
     Some (whole_buff buffer) }"

section \<open>Open (proto/open.go)\<close>

type_synonym Mode = u8

abbreviation (input) "Oread \<equiv> 0 :: Mode"
abbreviation (input) "Owrite \<equiv> 1 :: Mode"
abbreviation (input) "Ordwr \<equiv> 2 :: Mode"
abbreviation (input) "Oexec \<equiv> 3 :: Mode"
abbreviation (input) "ONone \<equiv> 4 :: Mode"
abbreviation (input) "Otrunc \<equiv> 16 :: Mode"
abbreviation (input) "Orclose \<equiv> 64 :: Mode"

abbreviation (input) "IOUnit \<equiv> 16384 :: u32"

record TOpen =
  top_Header :: Header
  top_Fid :: u32
  top_Mode :: Mode

definition TOpen_zero :: "Header \<Rightarrow> TOpen" where
  "TOpen_zero h = \<lparr>top_Header = h, top_Fid = 0, top_Mode = 0\<rparr>"

definition TOpen_parse :: "TOpen \<Rightarrow> bytes \<Rightarrow> (TOpen \<times> bytes) res" where
  "TOpen_parse open buff =
     (let (fid, buff) = fromLittleE32 buff
      in if length buff < 1 then Err (ErrorString ''short fcall'')
         else Ok (open\<lparr>top_Fid := fid, top_Mode := hd buff\<rparr>, tl buff))"

definition TOpen_Compose :: "TOpen \<Rightarrow> bytes option" where
  "TOpen_Compose open = do {
     let len = 4 + 1 + 2 + 4 + 1;
     let buff = make_buff len;
     buffer \<leftarrow> toLittleE32 (of_nat len) buff;
     buffer \<leftarrow> put_byte (h_Type (top_Header open)) buffer;
     buffer \<leftarrow> toLittleE16 (h_Tag (top_Header open)) buffer;
     buffer \<leftarrow> toLittleE32 (top_Fid open) buffer;
     buffer \<leftarrow> put_byte (top_Mode open) buffer;
     Some (whole_buff buffer) }"

record ROpen =
  rop_Header :: Header
  rop_Qid :: Qid
  rop_Iounit :: u32

definition ROpen_zero :: "Header \<Rightarrow> ROpen" where
  "ROpen_zero h = \<lparr>rop_Header = h, rop_Qid = Qid_zero, rop_Iounit = 0\<rparr>"

definition ROpen_parse :: "ROpen \<Rightarrow> bytes \<Rightarrow> (ROpen \<times> bytes) res" where
  "ROpen_parse open buff =
     (case Qid_parse (rop_Qid open) buff of
        Ok (qid, buff) \<Rightarrow>
          (let (iounit, buff) = fromLittleE32 buff
           in Ok (open\<lparr>rop_Qid := qid, rop_Iounit := iounit\<rparr>, buff))
      | Err e \<Rightarrow> Err e
      | Panic \<Rightarrow> Panic)"

definition ROpen_Compose :: "ROpen \<Rightarrow> bytes option" where
  "ROpen_Compose open = do {
     let len = 4 + 1 + 2 + 13 + 4;
     let buff = make_buff len;
     buffer \<leftarrow> toLittleE32 (of_nat len) buff;
     buffer \<leftarrow> put_byte (h_Type (rop_Header open)) buffer;
     buffer \<leftarrow> toLittleE16 (h_Tag (rop_Header open)) buffer;
     qidbuff \<leftarrow> Qid_Compose (rop_Qid open);
     buffer \<leftarrow> put_bytes qidbuff buffer;
     buffer \<leftarrow> toLittleE32 (rop_Iounit open) buffer;
     Some (whole_buff buffer) }"

section \<open>Create (proto/create.go)\<close>

record TCreate =
  tcr_Header :: Header
  tcr_Fid :: u32
  tcr_Name :: string
  tcr_Perm :: u32
  tcr_Mode :: u8

definition TCreate_zero :: "Header \<Rightarrow> TCreate" where
  "TCreate_zero h = \<lparr>tcr_Header = h, tcr_Fid = 0, tcr_Name = '''', tcr_Perm = 0, tcr_Mode = 0\<rparr>"

text \<open>\<^verbatim>\<open>create.Mode = buff[0]\<close> has no length check: an exhausted buffer panics.\<close>

definition TCreate_parse :: "TCreate \<Rightarrow> bytes \<Rightarrow> (TCreate \<times> bytes) res" where
  "TCreate_parse create buff =
     (let (fid, buff) = fromLittleE32 buff;
          (name, buff) = fromString buff;
          (perm, buff) = fromLittleE32 buff
      in case buff of
           [] \<Rightarrow> Panic
         | mode # buff \<Rightarrow>
             Ok (create\<lparr>tcr_Fid := fid, tcr_Name := name, tcr_Perm := perm, tcr_Mode := mode\<rparr>, buff))"

definition TCreate_Compose :: "TCreate \<Rightarrow> bytes option" where
  "TCreate_Compose create = do {
     let len = 4 + 1 + 2 + 4 + (2 + length (tcr_Name create)) + 4 + 1;
     let buff = make_buff len;
     buffer \<leftarrow> toLittleE32 (of_nat len) buff;
     buffer \<leftarrow> put_byte (h_Type (tcr_Header create)) buffer;
     buffer \<leftarrow> toLittleE16 (h_Tag (tcr_Header create)) buffer;
     buffer \<leftarrow> toLittleE32 (tcr_Fid create) buffer;
     buffer \<leftarrow> toString (tcr_Name create) buffer;
     buffer \<leftarrow> toLittleE32 (tcr_Perm create) buffer;
     buffer \<leftarrow> put_byte (tcr_Mode create) buffer;
     Some (whole_buff buffer) }"

record RCreate =
  rcr_Header :: Header
  rcr_Qid :: Qid
  rcr_Iounit :: u32

definition RCreate_zero :: "Header \<Rightarrow> RCreate" where
  "RCreate_zero h = \<lparr>rcr_Header = h, rcr_Qid = Qid_zero, rcr_Iounit = 0\<rparr>"

definition RCreate_parse :: "RCreate \<Rightarrow> bytes \<Rightarrow> (RCreate \<times> bytes) res" where
  "RCreate_parse create buff =
     (case Qid_parse (rcr_Qid create) buff of
        Ok (qid, buff) \<Rightarrow>
          (let (iounit, buff) = fromLittleE32 buff
           in Ok (create\<lparr>rcr_Qid := qid, rcr_Iounit := iounit\<rparr>, buff))
      | Err e \<Rightarrow> Err e
      | Panic \<Rightarrow> Panic)"

definition RCreate_Compose :: "RCreate \<Rightarrow> bytes option" where
  "RCreate_Compose create = do {
     let len = 4 + 1 + 2 + 13 + 4;
     let buff = make_buff len;
     buffer \<leftarrow> toLittleE32 (of_nat len) buff;
     buffer \<leftarrow> put_byte (h_Type (rcr_Header create)) buffer;
     buffer \<leftarrow> toLittleE16 (h_Tag (rcr_Header create)) buffer;
     qidbuff \<leftarrow> Qid_Compose (rcr_Qid create);
     buffer \<leftarrow> put_bytes qidbuff buffer;
     buffer \<leftarrow> toLittleE32 (rcr_Iounit create) buffer;
     Some (whole_buff buffer) }"

section \<open>Read (proto/read.go)\<close>

record TRead =
  trd_Header :: Header
  trd_Fid :: u32
  trd_Offset :: u64
  trd_Count :: u32

definition TRead_zero :: "Header \<Rightarrow> TRead" where
  "TRead_zero h = \<lparr>trd_Header = h, trd_Fid = 0, trd_Offset = 0, trd_Count = 0\<rparr>"

definition TRead_parse :: "TRead \<Rightarrow> bytes \<Rightarrow> (TRead \<times> bytes) res" where
  "TRead_parse read buff =
     (let (fid, buff) = fromLittleE32 buff;
          (offset, buff) = fromLittleE64 buff;
          (count, buff) = fromLittleE32 buff
      in Ok (read\<lparr>trd_Fid := fid, trd_Offset := offset, trd_Count := count\<rparr>, buff))"

definition TRead_Compose :: "TRead \<Rightarrow> bytes option" where
  "TRead_Compose read = do {
     let len = 4 + 1 + 2 + 4 + 8 + 4;
     let buff = make_buff len;
     buffer \<leftarrow> toLittleE32 (of_nat len) buff;
     buffer \<leftarrow> put_byte (h_Type (trd_Header read)) buffer;
     buffer \<leftarrow> toLittleE16 (h_Tag (trd_Header read)) buffer;
     buffer \<leftarrow> toLittleE32 (trd_Fid read) buffer;
     buffer \<leftarrow> toLittleE64 (trd_Offset read) buffer;
     buffer \<leftarrow> toLittleE32 (trd_Count read) buffer;
     Some (whole_buff buffer) }"

record RRead =
  rrd_Header :: Header
  rrd_Count :: u32
  rrd_Data :: bytes

definition RRead_zero :: "Header \<Rightarrow> RRead" where
  "RRead_zero h = \<lparr>rrd_Header = h, rrd_Count = 0, rrd_Data = []\<rparr>"

text \<open>
  \<^verbatim>\<open>buff[:read.Count]\<close> panics when the count exceeds the capacity of the slice; every slice of
  a message reaches to the end of its allocation, so capacity and length agree.
\<close>

definition RRead_parse :: "RRead \<Rightarrow> bytes \<Rightarrow> (RRead \<times> bytes) res" where
  "RRead_parse read buff =
     (let (count, buff) = fromLittleE32 buff
      in if length buff < unat count then Panic
         else Ok (read\<lparr>rrd_Count := count, rrd_Data := take (unat count) buff\<rparr>,
                  drop (unat count) buff))"

definition RRead_Compose :: "RRead \<Rightarrow> bytes option" where
  "RRead_Compose read = do {
     let len = (4 + 1 + 2 + 4 + rrd_Count read :: u32);
     let buff = make_buff (unat len);
     buffer \<leftarrow> toLittleE32 len buff;
     buffer \<leftarrow> put_byte (h_Type (rrd_Header read)) buffer;
     buffer \<leftarrow> toLittleE16 (h_Tag (rrd_Header read)) buffer;
     buffer \<leftarrow> toLittleE32 (rrd_Count read) buffer;
     Some (whole_buff (copy_into (rrd_Data read) buffer)) }"

section \<open>Write (proto/write.go)\<close>

record TWrite =
  twr_Header :: Header
  twr_Fid :: u32
  twr_Offset :: u64
  twr_Count :: u32
  twr_Data :: bytes

definition TWrite_zero :: "Header \<Rightarrow> TWrite" where
  "TWrite_zero h = \<lparr>twr_Header = h, twr_Fid = 0, twr_Offset = 0, twr_Count = 0, twr_Data = []\<rparr>"

definition TWrite_parse :: "TWrite \<Rightarrow> bytes \<Rightarrow> (TWrite \<times> bytes) res" where
  "TWrite_parse write buff =
     (let (fid, buff) = fromLittleE32 buff;
          (offset, buff) = fromLittleE64 buff;
          (count, buff) = fromLittleE32 buff
      in if length buff < unat count then Panic
         else Ok (write\<lparr>twr_Fid := fid, twr_Offset := offset, twr_Count := count,
                        twr_Data := take (unat count) buff\<rparr>,
                  drop (unat count) buff))"

definition TWrite_Compose :: "TWrite \<Rightarrow> bytes option" where
  "TWrite_Compose write = do {
     let len = (4 + 1 + 2 + 4 + 8 + 4 + twr_Count write :: u32);
     let buff = make_buff (unat len);
     buffer \<leftarrow> toLittleE32 len buff;
     buffer \<leftarrow> put_byte (h_Type (twr_Header write)) buffer;
     buffer \<leftarrow> toLittleE16 (h_Tag (twr_Header write)) buffer;
     buffer \<leftarrow> toLittleE32 (twr_Fid write) buffer;
     buffer \<leftarrow> toLittleE64 (twr_Offset write) buffer;
     buffer \<leftarrow> toLittleE32 (twr_Count write) buffer;
     Some (whole_buff (copy_into (twr_Data write) buffer)) }"

record RWrite =
  rwr_Header :: Header
  rwr_Count :: u32

definition RWrite_zero :: "Header \<Rightarrow> RWrite" where
  "RWrite_zero h = \<lparr>rwr_Header = h, rwr_Count = 0\<rparr>"

definition RWrite_parse :: "RWrite \<Rightarrow> bytes \<Rightarrow> (RWrite \<times> bytes) res" where
  "RWrite_parse write buff =
     (let (count, buff) = fromLittleE32 buff in Ok (write\<lparr>rwr_Count := count\<rparr>, buff))"

definition RWrite_Compose :: "RWrite \<Rightarrow> bytes option" where
  "RWrite_Compose write = do {
     let len = 4 + 1 + 2 + 4;
     let buff = make_buff len;
     buffer \<leftarrow> toLittleE32 (of_nat len) buff;
     buffer \<leftarrow> put_byte (h_Type (rwr_Header write)) buffer;
     buffer \<leftarrow> toLittleE16 (h_Tag (rwr_Header write)) buffer;
     buffer \<leftarrow> toLittleE32 (rwr_Count write) buffer;
     Some (whole_buff buffer) }"

section \<open>Clunk (proto/clunk.go)\<close>

record TClunk =
  tcl_Header :: Header
  tcl_Fid :: u32

definition TClunk_zero :: "Header \<Rightarrow> TClunk" where
  "TClunk_zero h = \<lparr>tcl_Header = h, tcl_Fid = 0\<rparr>"

definition TClunk_parse :: "TClunk \<Rightarrow> bytes \<Rightarrow> (TClunk \<times> bytes) res" where
  "TClunk_parse clunk buff =
     (let (fid, buff) = fromLittleE32 buff in Ok (clunk\<lparr>tcl_Fid := fid\<rparr>, buff))"

definition TClunk_Compose :: "TClunk \<Rightarrow> bytes option" where
  "TClunk_Compose clunk = do {
     let len = 4 + 1 + 2 + 4;
     let buff = make_buff len;
     buffer \<leftarrow> toLittleE32 (of_nat len) buff;
     buffer \<leftarrow> put_byte (h_Type (tcl_Header clunk)) buffer;
     buffer \<leftarrow> toLittleE16 (h_Tag (tcl_Header clunk)) buffer;
     buffer \<leftarrow> toLittleE32 (tcl_Fid clunk) buffer;
     Some (whole_buff buffer) }"

record RClunk =
  rcl_Header :: Header

definition RClunk_parse :: "RClunk \<Rightarrow> bytes \<Rightarrow> (RClunk \<times> bytes) res" where
  "RClunk_parse clunk buff = Ok (clunk, buff)"

definition RClunk_Compose :: "RClunk \<Rightarrow> bytes option" where
  "RClunk_Compose clunk = do {
     let len = 4 + 1 + 2;
     let buff = make_buff len;
     buffer \<leftarrow> toLittleE32 (of_nat len) buff;
     buffer \<leftarrow> put_byte (h_Type (rcl_Header clunk)) buffer;
     buffer \<leftarrow> toLittleE16 (h_Tag (rcl_Header clunk)) buffer;
     Some (whole_buff buffer) }"

section \<open>Remove (proto/remove.go)\<close>

record TRemove =
  trm_Header :: Header
  trm_Fid :: u32

definition TRemove_zero :: "Header \<Rightarrow> TRemove" where
  "TRemove_zero h = \<lparr>trm_Header = h, trm_Fid = 0\<rparr>"

definition TRemove_parse :: "TRemove \<Rightarrow> bytes \<Rightarrow> (TRemove \<times> bytes) res" where
  "TRemove_parse remove buff =
     (let (fid, buff) = fromLittleE32 buff in Ok (remove\<lparr>trm_Fid := fid\<rparr>, buff))"

definition TRemove_Compose :: "TRemove \<Rightarrow> bytes option" where
  "TRemove_Compose remove = do {
     let len = 4 + 1 + 2 + 4;
     let buff = make_buff len;
     buffer \<leftarrow> toLittleE32 (of_nat len) buff;
     buffer \<leftarrow> put_byte (h_Type (trm_Header remove)) buffer;
     buffer \<leftarrow> toLittleE16 (h_Tag (trm_Header remove)) buffer;
     buffer \<leftarrow> toLittleE32 (trm_Fid remove) buffer;
     Some (whole_buff buffer) }"

record RRemove =
  rrm_Header :: Header

definition RRemove_parse :: "RRemove \<Rightarrow> bytes \<Rightarrow> (RRemove \<times> bytes) res" where
  "RRemove_parse remove buff = Ok (remove, buff)"

definition RRemove_Compose :: "RRemove \<Rightarrow> bytes option" where
  "RRemove_Compose remove = do {
     let len = 4 + 1 + 2;
     let buff = make_buff len;
     buffer \<leftarrow> toLittleE32 (of_nat len) buff;
     buffer \<leftarrow> put_byte (h_Type (rrm_Header remove)) buffer;
     buffer \<leftarrow> toLittleE16 (h_Tag (rrm_Header remove)) buffer;
     Some (whole_buff buffer) }"

section \<open>Stat (proto/stat.go)\<close>

abbreviation (input) "DMDIR \<equiv> 0x80000000 :: u32"
abbreviation (input) "DMAPPEND \<equiv> 0x40000000 :: u32"
abbreviation (input) "DMEXCL \<equiv> 0x20000000 :: u32"
abbreviation (input) "DMTMP \<equiv> 0x04000000 :: u32"

record TStat =
  tst_Header :: Header
  tst_Fid :: u32

definition TStat_zero :: "Header \<Rightarrow> TStat" where
  "TStat_zero h = \<lparr>tst_Header = h, tst_Fid = 0\<rparr>"

definition TStat_parse :: "TStat \<Rightarrow> bytes \<Rightarrow> (TStat \<times> bytes) res" where
  "TStat_parse stat buff =
     (let (fid, buff) = fromLittleE32 buff in Ok (stat\<lparr>tst_Fid := fid\<rparr>, buff))"

definition TStat_Compose :: "TStat \<Rightarrow> bytes option" where
  "TStat_Compose stat = do {
     let len = 4 + 1 + 2 + 4;
     let buff = make_buff len;
     buffer \<leftarrow> toLittleE32 (of_nat len) buff;
     buffer \<leftarrow> put_byte (h_Type (tst_Header stat)) buffer;
     buffer \<leftarrow> toLittleE16 (h_Tag (tst_Header stat)) buffer;
     buffer \<leftarrow> toLittleE32 (tst_Fid stat) buffer;
     Some (whole_buff buffer) }"

record Stat =
  st_Type :: u16
  st_Dev :: u32
  st_Qid :: Qid
  st_Mode :: u32
  st_Atime :: u32
  st_Mtime :: u32
  st_Length :: u64
  st_Name :: string
  st_Uid :: string
  st_Gid :: string
  st_Muid :: string

definition Stat_zero :: Stat where
  "Stat_zero = \<lparr>st_Type = 0, st_Dev = 0, st_Qid = Qid_zero, st_Mode = 0, st_Atime = 0,
     st_Mtime = 0, st_Length = 0, st_Name = '''', st_Uid = '''', st_Gid = '''', st_Muid = ''''\<rparr>"

definition Stat_parse :: "Stat \<Rightarrow> bytes \<Rightarrow> (Stat \<times> bytes) res" where
  "Stat_parse stat buff =
     (let (_, buff) = fromLittleE16 buff;
          (typ, buff) = fromLittleE16 buff;
          (dev, buff) = fromLittleE32 buff
      in case Qid_parse (st_Qid stat) buff of
           Err e \<Rightarrow> Err e
         | Panic \<Rightarrow> Panic
         | Ok (qid, buff) \<Rightarrow>
             (let (mode, buff) = fromLittleE32 buff;
                  (atime, buff) = fromLittleE32 buff;
                  (mtime, buff) = fromLittleE32 buff;
                  (leng, buff) = fromLittleE64 buff;
                  (name, buff) = fromString buff;
                  (uid, buff) = fromString buff;
                  (gid, buff) = fromString buff;
                  (muid, buff) = fromString buff
              in Ok (\<lparr>st_Type = typ, st_Dev = dev, st_Qid = qid, st_Mode = mode, st_Atime = atime,
                      st_Mtime = mtime, st_Length = leng, st_Name = name, st_Uid = uid,
                      st_Gid = gid, st_Muid = muid\<rparr>, buff)))"

definition Stat_ComposeLength :: "Stat \<Rightarrow> u16" where
  "Stat_ComposeLength stat =
     of_nat (2 + 2 + 4 + 13 + 4 + 4 + 4 + 8 +
       (2 + length (st_Name stat)) +
       (2 + length (st_Uid stat)) +
       (2 + length (st_Gid stat)) +
       (2 + length (st_Muid stat)))"

definition Stat_Compose :: "Stat \<Rightarrow> bytes option" where
  "Stat_Compose stat = do {
     let len = Stat_ComposeLength stat;
     let buff = make_buff (unat len);
     buffer \<leftarrow> toLittleE16 (len - 2) buff;
     buffer \<leftarrow> toLittleE16 (st_Type stat) buffer;
     buffer \<leftarrow> toLittleE32 (st_Dev stat) buffer;
     qidbuff \<leftarrow> Qid_Compose (st_Qid stat);
     buffer \<leftarrow> put_bytes qidbuff buffer;
     buffer \<leftarrow> toLittleE32 (st_Mode stat) buffer;
     buffer \<leftarrow> toLittleE32 (st_Atime stat) buffer;
     buffer \<leftarrow> toLittleE32 (st_Mtime stat) buffer;
     buffer \<leftarrow> toLittleE64 (st_Length stat) buffer;
     buffer \<leftarrow> toString (st_Name stat) buffer;
     buffer \<leftarrow> toString (st_Uid stat) buffer;
     buffer \<leftarrow> toString (st_Gid stat) buffer;
     buffer \<leftarrow> toString (st_Muid stat) buffer;
     Some (whole_buff buffer) }"

record RStat =
  rst_Header :: Header
  rst_Stat :: Stat

definition RStat_zero :: "Header \<Rightarrow> RStat" where
  "RStat_zero h = \<lparr>rst_Header = h, rst_Stat = Stat_zero\<rparr>"

definition RStat_parse :: "RStat \<Rightarrow> bytes \<Rightarrow> (RStat \<times> bytes) res" where
  "RStat_parse stat buff =
     (let (_, buff) = fromLittleE16 buff
      in case Stat_parse (rst_Stat stat) buff of
           Ok (s, buff) \<Rightarrow> Ok (stat\<lparr>rst_Stat := s\<rparr>, buff)
         | Err e \<Rightarrow> Err e
         | Panic \<Rightarrow> Panic)"

definition RStat_Compose :: "RStat \<Rightarrow> bytes option" where
  "RStat_Compose stat = do {
     let statLength = Stat_ComposeLength (rst_Stat stat);
     let len = (4 + 1 + 2 + 2 + statLength :: u16);
     let buff = make_buff (unat len);
     buffer \<leftarrow> toLittleE32 (ucast len) buff;
     buffer \<leftarrow> put_byte (h_Type (rst_Header stat)) buffer;
     buffer \<leftarrow> toLittleE16 (h_Tag (rst_Header stat)) buffer;
     buffer \<leftarrow> toLittleE16 statLength buffer;
     statbuff \<leftarrow> Stat_Compose (rst_Stat stat);
     Some (whole_buff (copy_into statbuff buffer)) }"

section \<open>Wstat (proto/wstat.go)\<close>

record TWstat =
  tws_Header :: Header
  tws_Fid :: u32
  tws_Stat :: Stat

definition TWstat_zero :: "Header \<Rightarrow> TWstat" where
  "TWstat_zero h = \<lparr>tws_Header = h, tws_Fid = 0, tws_Stat = Stat_zero\<rparr>"

definition TWstat_parse :: "TWstat \<Rightarrow> bytes \<Rightarrow> (TWstat \<times> bytes) res" where
  "TWstat_parse wstat buff =
     (let (fid, buff) = fromLittleE32 buff;
          (_, buff) = fromLittleE16 buff
      in case Stat_parse (tws_Stat wstat) buff of
           Ok (s, buff) \<Rightarrow> Ok (wstat\<lparr>tws_Fid := fid, tws_Stat := s\<rparr>, buff)
         | Err e \<Rightarrow> Err e
         | Panic \<Rightarrow> Panic)"

definition TWstat_Compose :: "TWstat \<Rightarrow> bytes option" where
  "TWstat_Compose wstat = do {
     let statLength = Stat_ComposeLength (tws_Stat wstat);
     let len = (4 + 1 + 2 + 4 + 2 + statLength :: u16);
     let buff = make_buff (unat len);
     buffer \<leftarrow> toLittleE32 (ucast len) buff;
     buffer \<leftarrow> put_byte (h_Type (tws_Header wstat)) buffer;
     buffer \<leftarrow> toLittleE16 (h_Tag (tws_Header wstat)) buffer;
     buffer \<leftarrow> toLittleE32 (tws_Fid wstat) buffer;
     buffer \<leftarrow> toLittleE16 statLength buffer;
     statbuff \<leftarrow> Stat_Compose (tws_Stat wstat);
     Some (whole_buff (copy_into statbuff buffer)) }"

record RWstat =
  rws_Header :: Header

definition RWstat_parse :: "RWstat \<Rightarrow> bytes \<Rightarrow> (RWstat \<times> bytes) res" where
  "RWstat_parse wstat buff = Ok (wstat, buff)"

definition RWstat_Compose :: "RWstat \<Rightarrow> bytes option" where
  "RWstat_Compose wstat = do {
     let len = 4 + 1 + 2;
     let buff = make_buff len;
     buffer \<leftarrow> toLittleE32 (of_nat len) buff;
     buffer \<leftarrow> put_byte (h_Type (rws_Header wstat)) buffer;
     buffer \<leftarrow> toLittleE16 (h_Tag (rws_Header wstat)) buffer;
     Some (whole_buff buffer) }"

section \<open>Directory contents: ParseStats (proto/stat.go)\<close>

text \<open>
  Decoders never lengthen the slice, and a stat is only parsed from a slice with at least one
  byte left, so the loop of \<^verbatim>\<open>ParseStats\<close> ends.
\<close>

lemma fromLittleE16_le: "fromLittleE16 b = (x, r) \<Longrightarrow> length r \<le> length b - 1"
  and fromLittleE32_le: "fromLittleE32 b = (x', r) \<Longrightarrow> length r \<le> length b"
  and fromLittleE64_le: "fromLittleE64 b = (x'', r) \<Longrightarrow> length r \<le> length b"
  by (auto simp: fromLittleE16_def fromLittleE32_def fromLittleE64_def split: if_splits)

lemma fromString_le: "fromString b = (s, r) \<Longrightarrow> length r \<le> length b"
  by (auto simp: fromString_def split: prod.splits if_splits dest: fromLittleE16_le)

lemma Qid_parse_le: "Qid_parse q b = Ok (q', r) \<Longrightarrow> length r \<le> length b"
  by (auto simp: Qid_parse_def split: list.splits prod.splits
      dest!: fromLittleE32_le fromLittleE64_le)

lemma Stat_parse_lt: "Stat_parse s b = Ok (s', r) \<Longrightarrow> b \<noteq> [] \<Longrightarrow> length r < length b"
  by (cases b) (auto simp: Stat_parse_def split: prod.splits res.splits dest!:
      fromLittleE16_le fromLittleE32_le fromLittleE64_le fromString_le Qid_parse_le)

function ParseStats :: "bytes \<Rightarrow> Stat list res" where
  "ParseStats buff =
     (if buff = [] then Ok []
      else case Stat_parse Stat_zero buff of
             Err e \<Rightarrow> Err e
           | Panic \<Rightarrow> Panic
           | Ok (s, buff) \<Rightarrow>
               (case ParseStats buff of
                  Ok stats \<Rightarrow> Ok (s # stats)
                | Err e \<Rightarrow> Err e
                | Panic \<Rightarrow> Panic))"
  by pat_completeness auto
termination
  by (relation "measure length") (auto dest: Stat_parse_lt)

declare ParseStats.simps [simp del]

end
