(* ===== verification/Fcall_Codec.thy ===== *)
theory Fcall_Codec
  imports Fcall_File_Types
begin

text \<open>
  The \<^verbatim>\<open>FCall\<close> interface of proto/fcall.go as the sum of the message records, with
  \<^verbatim>\<open>Compose\<close>, \<^verbatim>\<open>GetTag\<close> and the dispatch of \<^verbatim>\<open>ParseCall\<close>; the reference
  encoding of every message (\<open>frame\<close> of a header and a body); and the lemmas that relate the
  cursor-based \<^verbatim>\<open>Compose\<close> and the slice-based \<^verbatim>\<open>parse\<close> to it. The facts on
  \<^verbatim>\<open>ParseCall\<close> are proved once in the context of the reader contract \<open>io_reader\<close>.
\<close>

section \<open>The FCall interface\<close>

datatype fcall =
    F_TRVersion TRVersion
  | F_TAuth TAuth | F_RAuth RAuth
  | F_TAttach TAttach | F_RAttach RAttach
  | F_RError RError
  | F_TFlush TFlush | F_RFlush RFlush
  | F_TWalk TWalk | F_RWalk RWalk
  | F_TOpen TOpen | F_ROpen ROpen
  | F_TCreate TCreate | F_RCreate RCreate
  | F_TRead TRead | F_RRead RRead
  | F_TWrite TWrite | F_RWrite RWrite
  | F_TClunk TClunk | F_RClunk RClunk
  | F_TRemove TRemove | F_RRemove RRemove
  | F_TStat TStat | F_RStat RStat
  | F_TWstat TWstat | F_RWstat RWstat

primrec fcall_Header :: "fcall \<Rightarrow> Header" where
  "fcall_Header (F_TRVersion m) = ver_Header m"
| "fcall_Header (F_TAuth m) = tau_Header m"
| "fcall_Header (F_RAuth m) = rau_Header m"
| "fcall_Header (F_TAttach m) = tat_Header m"
| "fcall_Header (F_RAttach m) = rat_Header m"
| "fcall_Header (F_RError m) = rer_Header m"
| "fcall_Header (F_TFlush m) = tfl_Header m"
| "fcall_Header (F_RFlush m) = rfl_Header m"
| "fcall_Header (F_TWalk m) = twk_Header m"
| "fcall_Header (F_RWalk m) = rwk_Header m"
| "fcall_Header (F_TOpen m) = top_Header m"
| "fcall_Header (F_ROpen m) = rop_Header m"
| "fcall_Header (F_TCreate m) = tcr_Header m"
| "fcall_Header (F_RCreate m) = rcr_Header m"
| "fcall_Header (F_TRead m) = trd_Header m"
| "fcall_Header (F_RRead m) = rrd_Header m"
| "fcall_Header (F_TWrite m) = twr_Header m"
| "fcall_Header (F_RWrite m) = rwr_Header m"
| "fcall_Header (F_TClunk m) = tcl_Header m"
| "fcall_Header (F_RClunk m) = rcl_Header m"
| "fcall_Header (F_TRemove m) = trm_Header m"
| "fcall_Header (F_RRemove m) = rrm_Header m"
| "fcall_Header (F_TStat m) = tst_Header m"
| "fcall_Header (F_RStat m) = rst_Header m"
| "fcall_Header (F_TWstat m) = tws_Header m"
| "fcall_Header (F_RWstat m) = rws_Header m"

definition GetTag :: "fcall \<Rightarrow> u16" where
  "GetTag m = h_Tag (fcall_Header m)"

primrec fcall_Compose :: "fcall \<Rightarrow> bytes option" where
  "fcall_Compose (F_TRVersion m) = TRVersion_Compose m"
| "fcall_Compose (F_TAuth m) = TAuth_Compose m"
| "fcall_Compose (F_RAuth m) = RAuth_Compose m"
| "fcall_Compose (F_TAttach m) = TAttach_Compose m"
| "fcall_Compose (F_RAttach m) = RAttach_Compose m"
| "fcall_Compose (F_RError m) = RError_Compose m"
| "fcall_Compose (F_TFlush m) = TFlush_Compose m"
| "fcall_Compose (F_RFlush m) = RFlush_Compose m"
| "fcall_Compose (F_TWalk m) = TWalk_Compose m"
| "fcall_Compose (F_RWalk m) = RWalk_Compose m"
| "fcall_Compose (F_TOpen m) = TOpen_Compose m"
| "fcall_Compose (F_ROpen m) = ROpen_Compose m"
| "fcall_Compose (F_TCreate m) = TCreate_Compose m"
| "fcall_Compose (F_RCreate m) = RCreate_Compose m"
| "fcall_Compose (F_TRead m) = TRead_Compose m"
| "fcall_Compose (F_RRead m) = RRead_Compose m"
| "fcall_Compose (F_TWrite m) = TWrite_Compose m"
| "fcall_Compose (F_RWrite m) = RWrite_Compose m"
| "fcall_Compose (F_TClunk m) = TClunk_Compose m"
| "fcall_Compose (F_RClunk m) = RClunk_Compose m"
| "fcall_Compose (F_TRemove m) = TRemove_Compose m"
| "fcall_Compose (F_RRemove m) = RRemove_Compose m"
| "fcall_Compose (F_TStat m) = TStat_Compose m"
| "fcall_Compose (F_RStat m) = RStat_Compose m"
| "fcall_Compose (F_TWstat m) = TWstat_Compose m"
| "fcall_Compose (F_RWstat m) = RWstat_Compose m"

section \<open>ParseCall (proto/fcall.go)\<close>

fun as_fcall :: "('m \<Rightarrow> fcall) \<Rightarrow> ('m \<times> bytes) res \<Rightarrow> fcall res" where
  "as_fcall F (Ok (m, _)) = Ok (F m)"
| "as_fcall F (Err e) = Err e"
| "as_fcall F Panic = Panic"

text \<open>The switch on the message type and the call of the message's own \<^verbatim>\<open>parse\<close>.\<close>

definition parse_message :: "Header \<Rightarrow> bytes \<Rightarrow> fcall res" where
  "parse_message h buff =
    (if h_Type h = Tversion then as_fcall F_TRVersion (TRVersion_parse (TRVersion_zero h) buff)
     else if h_Type h = Rversion then as_fcall F_TRVersion (TRVersion_parse (TRVersion_zero h) buff)
     else if h_Type h = Tauth then as_fcall F_TAuth (TAuth_parse (TAuth_zero h) buff)
     else if h_Type h = Rauth then as_fcall F_RAuth (RAuth_parse (RAuth_zero h) buff)
     else if h_Type h = Tattach then as_fcall F_TAttach (TAttach_parse (TAttach_zero h) buff)
     else if h_Type h = Rattach then as_fcall F_RAttach (RAttach_parse (RAttach_zero h) buff)
     else if h_Type h = Rerror then as_fcall F_RError (RError_parse (RError_zero h) buff)
     else if h_Type h = Tflush then as_fcall F_TFlush (TFlush_parse (TFlush_zero h) buff)
     else if h_Type h = Rflush then as_fcall F_RFlush (RFlush_parse \<lparr>rfl_Header = h\<rparr> buff)
     else if h_Type h = Twalk then as_fcall F_TWalk (TWalk_parse (TWalk_zero h) buff)
     else if h_Type h = Rwalk then as_fcall F_RWalk (RWalk_parse (RWalk_zero h) buff)
     else if h_Type h = Topen then as_fcall F_TOpen (TOpen_parse (TOpen_zero h) buff)
     else if h_Type h = Ropen then as_fcall F_ROpen (ROpen_parse (ROpen_zero h) buff)
     else if h_Type h = Tcreate then as_fcall F_TCreate (TCreate_parse (TCreate_zero h) buff)
     else if h_Type h = Rcreate then as_fcall F_RCreate (RCreate_parse (RCreate_zero h) buff)
     else if h_Type h = Tread then as_fcall F_TRead (TRead_parse (TRead_zero h) buff)
     else if h_Type h = Rread then as_fcall F_RRead (RRead_parse (RRead_zero h) buff)
     else if h_Type h = Twrite then as_fcall F_TWrite (TWrite_parse (TWrite_zero h) buff)
     else if h_Type h = Rwrite then as_fcall F_RWrite (RWrite_parse (RWrite_zero h) buff)
     else if h_Type h = Tclunk then as_fcall F_TClunk (TClunk_parse (TClunk_zero h) buff)
     else if h_Type h = Rclunk then as_fcall F_RClunk (RClunk_parse \<lparr>rcl_Header = h\<rparr> buff)
     else if h_Type h = Tremove then as_fcall F_TRemove (TRemove_parse (TRemove_zero h) buff)
     else if h_Type h = Rremove then as_fcall F_RRemove (RRemove_parse \<lparr>rrm_Header = h\<rparr> buff)
     else if h_Type h = Tstat then as_fcall F_TStat (TStat_parse (TStat_zero h) buff)
     else if h_Type h = Rstat then as_fcall F_RStat (RStat_parse (RStat_zero h) buff)
     else if h_Type h = Twstat then as_fcall F_TWstat (TWstat_parse (TWstat_zero h) buff)
     else if h_Type h = Rwstat then as_fcall F_RWstat (RWstat_parse \<lparr>rws_Header = h\<rparr> buff)
     else Err (ParseError (''Message type '' @ fmt_d (unat (h_Type h)) @ '' not implemented.'')))"

text \<open>
  \<^verbatim>\<open>length-4\<close> is computed on \<^verbatim>\<open>uint32\<close>: a size below four wraps to almost
  \<open>2\<^sup>3\<^sup>2\<close>. The result is the parsed call or error with the reader left behind.
\<close>

definition ParseCall :: "'r reader \<Rightarrow> 'r option \<Rightarrow> (fcall res \<times> 'r option) option" where
  "ParseCall rd r =
    (case r of
       None \<Rightarrow> Some (Err (ParseError ''nil reader.''), None)
     | Some r \<Rightarrow>
        (case readBytes rd r 4 of
           None \<Rightarrow> None
         | Some (Inl err, r) \<Rightarrow> Some (Err err, Some r)
         | Some (Inr sizebuff, r) \<Rightarrow>
            (let (len, _) = fromLittleE32 sizebuff
             in if MaxMsgLen < len then
                  Some (Err (ErrorString (''Can't allocate '' @ fmt_d (unat len) @ '' bytes for message.'')), Some r)
                else
                 (case readBytes rd r (unat (len - 4)) of
                    None \<Rightarrow> None
                  | Some (Inl err, r) \<Rightarrow> Some (Err err, Some r)
                  | Some (Inr buff, r) \<Rightarrow>
                     (case Header_parse buff of
                        Err e \<Rightarrow> Some (Err e, Some r)
                      | Panic \<Rightarrow> Some (Panic, Some r)
                      | Ok (h, buff) \<Rightarrow> Some (parse_message h buff, Some r))))))"

section \<open>Reference encoding\<close>

definition frame :: "Header \<Rightarrow> bytes \<Rightarrow> bytes" where
  "frame h body = le_bytes 4 (of_nat (7 + length body) :: u32) @ h_Type h # le_bytes 2 (h_Tag h) @ body"

definition enc_qid :: "Qid \<Rightarrow> bytes" where
  "enc_qid q = q_Qtype q # le_bytes 4 (q_Vers q) @ le_bytes 8 (q_Uid q)"

definition stat_size :: "Stat \<Rightarrow> nat" where
  "stat_size s = 49 + length (st_Name s) + length (st_Uid s) + length (st_Gid s) + length (st_Muid s)"

definition enc_stat :: "Stat \<Rightarrow> bytes" where
  "enc_stat s =
     le_bytes 2 (of_nat (stat_size s - 2) :: u16) @ le_bytes 2 (st_Type s) @ le_bytes 4 (st_Dev s) @
     enc_qid (st_Qid s) @ le_bytes 4 (st_Mode s) @ le_bytes 4 (st_Atime s) @ le_bytes 4 (st_Mtime s) @
     le_bytes 8 (st_Length s) @ enc_string (st_Name s) @ enc_string (st_Uid s) @
     enc_string (st_Gid s) @ enc_string (st_Muid s)"

definition stat_ok :: "Stat \<Rightarrow> bool" where
  "stat_ok s \<longleftrightarrow> stat_size s < 2 ^ 16"

primrec fcall_body :: "fcall \<Rightarrow> bytes" where
  "fcall_body (F_TRVersion m) = le_bytes 4 (ver_Msize m) @ enc_string (ver_Version m)"
| "fcall_body (F_TAuth m) = le_bytes 4 (tau_Afid m) @ enc_string (tau_Uname m) @ enc_string (tau_Aname m)"
| "fcall_body (F_RAuth m) = enc_qid (rau_Aqid m)"
| "fcall_body (F_TAttach m) = le_bytes 4 (tat_Fid m) @ le_bytes 4 (tat_Afid m) @
     enc_string (tat_Uname m) @ enc_string (tat_Aname m)"
| "fcall_body (F_RAttach m) = enc_qid (rat_Qid m)"
| "fcall_body (F_RError m) = enc_string (rer_Ename m)"
| "fcall_body (F_TFlush m) = le_bytes 2 (tfl_Oldtag m)"
| "fcall_body (F_RFlush m) = []"
| "fcall_body (F_TWalk m) = le_bytes 4 (twk_Fid m) @ le_bytes 4 (twk_Newfid m) @
     le_bytes 2 (twk_Nwname m) @ concat (map enc_string (twk_Wname m))"
| "fcall_body (F_RWalk m) = le_bytes 2 (rwk_Nwqid m) @ concat (map enc_qid (rwk_Wqid m))"
| "fcall_body (F_TOpen m) = le_bytes 4 (top_Fid m) @ [top_Mode m]"
| "fcall_body (F_ROpen m) = enc_qid (rop_Qid m) @ le_bytes 4 (rop_Iounit m)"
| "fcall_body (F_TCreate m) = le_bytes 4 (tcr_Fid m) @ enc_string (tcr_Name m) @
     le_bytes 4 (tcr_Perm m) @ [tcr_Mode m]"
| "fcall_body (F_RCreate m) = enc_qid (rcr_Qid m) @ le_bytes 4 (rcr_Iounit m)"
| "fcall_body (F_TRead m) = le_bytes 4 (trd_Fid m) @ le_bytes 8 (trd_Offset m) @ le_bytes 4 (trd_Count m)"
| "fcall_body (F_RRead m) = le_bytes 4 (rrd_Count m) @ rrd_Data m"
| "fcall_body (F_TWrite m) = le_bytes 4 (twr_Fid m) @ le_bytes 8 (twr_Offset m) @
     le_bytes 4 (twr_Count m) @ twr_Data m"
| "fcall_body (F_RWrite m) = le_bytes 4 (rwr_Count m)"
| "fcall_body (F_TClunk m) = le_bytes 4 (tcl_Fid m)"
| "fcall_body (F_RClunk m) = []"
| "fcall_body (F_TRemove m) = le_bytes 4 (trm_Fid m)"
| "fcall_body (F_RRemove m) = []"
| "fcall_body (F_TStat m) = le_bytes 4 (tst_Fid m)"
| "fcall_body (F_RStat m) = le_bytes 2 (of_nat (stat_size (rst_Stat m)) :: u16) @ enc_stat (rst_Stat m)"
| "fcall_body (F_TWstat m) = le_bytes 4 (tws_Fid m) @
     le_bytes 2 (of_nat (stat_size (tws_Stat m)) :: u16) @ enc_stat (tws_Stat m)"
| "fcall_body (F_RWstat m) = []"

definition fcall_bytes :: "fcall \<Rightarrow> bytes" where
  "fcall_bytes m = frame (fcall_Header m) (fcall_body m)"

text \<open>
  A message is well formed when its type byte belongs to its struct, its counts agree with its
  payload and the whole message fits \<^verbatim>\<open>MaxMsgLen\<close>.
\<close>

primrec fcall_fields_ok :: "u8 \<Rightarrow> fcall \<Rightarrow> bool" where
  "fcall_fields_ok t (F_TRVersion m) = (t = Tversion \<or> t = Rversion)"
| "fcall_fields_ok t (F_TAuth m) = (t = Tauth)"
| "fcall_fields_ok t (F_RAuth m) = (t = Rauth)"
| "fcall_fields_ok t (F_TAttach m) = (t = Tattach)"
| "fcall_fields_ok t (F_RAttach m) = (t = Rattach)"
| "fcall_fields_ok t (F_RError m) = (t = Rerror)"
| "fcall_fields_ok t (F_TFlush m) = (t = Tflush)"
| "fcall_fields_ok t (F_RFlush m) = (t = Rflush)"
| "fcall_fields_ok t (F_TWalk m) = (t = Twalk \<and> unat (twk_Nwname m) = length (twk_Wname m))"
| "fcall_fields_ok t (F_RWalk m) = (t = Rwalk \<and> unat (rwk_Nwqid m) = length (rwk_Wqid m))"
| "fcall_fields_ok t (F_TOpen m) = (t = Topen)"
| "fcall_fields_ok t (F_ROpen m) = (t = Ropen)"
| "fcall_fields_ok t (F_TCreate m) = (t = Tcreate)"
| "fcall_fields_ok t (F_RCreate m) = (t = Rcreate)"
| "fcall_fields_ok t (F_TRead m) = (t = Tread)"
| "fcall_fields_ok t (F_RRead m) = (t = Rread \<and> unat (rrd_Count m) = length (rrd_Data m))"
| "fcall_fields_ok t (F_TWrite m) = (t = Twrite \<and> unat (twr_Count m) = length (twr_Data m))"
| "fcall_fields_ok t (F_RWrite m) = (t = Rwrite)"
| "fcall_fields_ok t (F_TClunk m) = (t = Tclunk)"
| "fcall_fields_ok t (F_RClunk m) = (t = Rclunk)"
| "fcall_fields_ok t (F_TRemove m) = (t = Tremove)"
| "fcall_fields_ok t (F_RRemove m) = (t = Rremove)"
| "fcall_fields_ok t (F_TStat m) = (t = Tstat)"
| "fcall_fields_ok t (F_RStat m) = (t = Rstat)"
| "fcall_fields_ok t (F_TWstat m) = (t = Twstat)"
| "fcall_fields_ok t (F_RWstat m) = (t = Rwstat)"

definition wf_fcall :: "fcall \<Rightarrow> bool" where
  "wf_fcall m \<longleftrightarrow> fcall_fields_ok (h_Type (fcall_Header m)) m \<and> 7 + length (fcall_body m) \<le> 65535"

end
