(* ===== verification/Fcall_Roundtrip.thy ===== *)
theory Fcall_Roundtrip
  imports Fcall_Codec
begin

text \<open>
  Correctness of the wire format: \<^verbatim>\<open>Compose\<close> produces the reference encoding of a well
  formed message without panicking, \<^verbatim>\<open>parse\<close> recovers the message from it, and
  \<^verbatim>\<open>ParseCall\<close> takes exactly one message off a stream, however the stream is cut into
  reads. Also: which inputs make the parser panic.
\<close>

section \<open>Parts of messages\<close>

lemma length_enc_qid [simp]: "length (enc_qid q) = 13"
  by (simp add: enc_qid_def)

lemma length_enc_stat [simp]: "length (enc_stat s) = stat_size s"
  by (simp add: enc_stat_def stat_size_def)

lemma length_frame [simp]: "length (frame h b) = 7 + length b"
  by (simp add: frame_def)

lemma put_byte_Cons [codec_simps]:
  "b \<noteq> [] \<Longrightarrow> put_byte x (f, b) = Some (f @ [x], tl b)"
  by simp

lemmas buff_simps = make_buff_def whole_buff_def frame_def Let_def

lemma Qid_Compose_enc [simp]: "Qid_Compose q = Some (enc_qid q)"
  by (simp add: Qid_Compose_def buff_simps enc_qid_def numeral_eq_Suc)

lemma Qid_parse_enc [simp]: "Qid_parse q0 (enc_qid q @ rest) = Ok (q, rest)"
  by (simp add: Qid_parse_def enc_qid_def codec_simps)

interpretation qid: field_codec put_qid
  "\<lambda>b. case Qid_parse Qid_zero b of Ok p \<Rightarrow> p | _ \<Rightarrow> (Qid_zero, [])" enc_qid "\<lambda>_. True"
  by unfold_locales (simp_all add: put_qid_def)

lemma parse_qids_enc: "parse_qids (length qs) (concat (map enc_qid qs) @ rest) = Ok (qs, rest)"
  by (induction qs) simp_all

lemma stat_ok_strings:
  assumes "stat_ok s"
  shows "short_string (st_Name s)" "short_string (st_Uid s)" "short_string (st_Gid s)"
    "short_string (st_Muid s)"
  using assms by (auto simp: stat_ok_def stat_size_def short_string_def)

lemma Stat_ComposeLength_eq: "Stat_ComposeLength s = of_nat (stat_size s)"
  by (simp add: Stat_ComposeLength_def stat_size_def algebra_simps)

lemma unat_ComposeLength [simp]: "stat_ok s \<Longrightarrow> unat (Stat_ComposeLength s) = stat_size s"
  by (simp add: Stat_ComposeLength_eq stat_ok_def unsigned_of_nat take_bit_nat_eq_self)

lemma Stat_Compose_enc:
  assumes "stat_ok s"
  shows "Stat_Compose s = Some (enc_stat s)"
proof -
  have len: "Stat_ComposeLength s - 2 = of_nat (stat_size s - 2)"
    by (simp add: Stat_ComposeLength_eq stat_size_def)
  show ?thesis
    using assms stat_ok_strings [OF assms]
    by (simp add: Stat_Compose_def len buff_simps codec_simps enc_stat_def)
      (simp add: stat_size_def codec_simps)
qed

lemma put_consumes:
  "toLittleE16 a b = Some b1 \<Longrightarrow> length (snd b) = 2 + length (snd b1)"
  "toLittleE32 c b = Some b2 \<Longrightarrow> length (snd b) = 4 + length (snd b2)"
  "toLittleE64 d b = Some b3 \<Longrightarrow> length (snd b) = 8 + length (snd b3)"
  "put_bytes bs b = Some b4 \<Longrightarrow> length (snd b) = length bs + length (snd b4)"
  by (cases b; auto split: if_splits)+

lemma put_byte_consumes: "put_byte x b = Some b' \<Longrightarrow> length (snd b) = Suc (length (snd b'))"
  by (cases b) (auto split: if_splits)

lemma toString_consumes: "toString s b = Some b1 \<Longrightarrow> length (snd b) = 2 + length s + length (snd b1)"
  by (auto simp: toString_def split: bind_splits dest!: put_consumes)

lemma Stat_Compose_room:
  assumes "Stat_Compose s = Some bs"
  shows "stat_size s \<le> unat (Stat_ComposeLength s)"
proof -
  have [simp]: "length (snd (make_buff n)) = n" for n by (simp add: make_buff_def)
  show ?thesis
    using assms
    by (auto simp: Stat_Compose_def Let_def stat_size_def split: bind_splits
        dest!: put_consumes toString_consumes)
qed

lemma Stat_Compose_iff: "Stat_Compose s = (if stat_ok s then Some (enc_stat s) else None)"
proof (cases "stat_ok s")
  case False
  have "unat (Stat_ComposeLength s) < 2 ^ 16" using unsigned_less [of "Stat_ComposeLength s"] by simp
  then have "\<not> stat_size s \<le> unat (Stat_ComposeLength s)" using False by (simp add: stat_ok_def)
  with False show ?thesis using Stat_Compose_room by (cases "Stat_Compose s") auto
qed (simp add: Stat_Compose_enc)

lemma Stat_parse_enc:
  assumes "stat_ok s"
  shows "Stat_parse s0 (enc_stat s @ rest) = Ok (s, rest)"
  using stat_ok_strings [OF assms] by (simp add: Stat_parse_def enc_stat_def codec_simps)

section \<open>Compose yields the reference encoding\<close>

lemma foldl_name_lengths:
  "foldl (\<lambda>n s. n + (2 + length s)) k ss = k + length (concat (map enc_string ss))"
  by (induction ss arbitrary: k) simp_all

lemma enc_string_lengths: "list_all short_string ss \<longleftrightarrow> (\<forall>s \<in> set ss. length s < 65536)"
  by (simp add: list_all_iff short_string_def)

lemma length_concat_strings:
  "s \<in> set ss \<Longrightarrow> 2 + length s \<le> length (concat (map enc_string ss))"
  by (induction ss) auto

lemma length_concat_qids [simp]: "length (concat (map enc_qid qs)) = 13 * length qs"
  by (induction qs) simp_all


text \<open>All messages start alike: size, type, tag.\<close>

lemma compose_header [codec_simps]:
  "7 \<le> n \<Longrightarrow>
   toLittleE32 len (make_buff n) \<bind> (\<lambda>b. put_byte t b \<bind> (\<lambda>b. toLittleE16 tag b \<bind> k)) =
   k (le_bytes 4 len @ t # le_bytes 2 tag, replicate (n - 7) 0)"
  by (auto simp add: make_buff_def)

lemma unat_word_of_nat: "n < 2 ^ LENGTH('a) \<Longrightarrow> unat (of_nat n :: 'a::len word) = n"
  by (simp add: unsigned_of_nat take_bit_nat_eq_self)

lemma compose_sized:
  assumes "len = of_nat n" "7 \<le> n" "n < 2 ^ 32"
  shows "toLittleE32 len (make_buff (unat len)) \<bind> (\<lambda>b. put_byte t b \<bind> (\<lambda>b. toLittleE16 tag b \<bind> k)) =
   k (le_bytes 4 (of_nat n :: u32) @ t # le_bytes 2 tag, replicate (n - 7) 0)"
  using assms by (simp add: unat_word_of_nat compose_header)

lemma compose_sized16:
  fixes len :: u16
  assumes "len = of_nat n" "7 \<le> n" "n < 2 ^ 16"
  shows "toLittleE32 (ucast len) (make_buff (unat len)) \<bind> (\<lambda>b. put_byte t b \<bind> (\<lambda>b. toLittleE16 tag b \<bind> k)) =
   k (le_bytes 4 (of_nat n :: u32) @ t # le_bytes 2 tag, replicate (n - 7) 0)"
proof -
  have "ucast len = (of_nat n :: u32)"
    using assms by (simp add: unsigned_of_nat take_bit_nat_eq_self)
  then show ?thesis using assms by (simp add: unat_word_of_nat compose_header)
qed

lemmas compose_defs = TRVersion_Compose_def RAuth_Compose_def TAttach_Compose_def
  RAttach_Compose_def RError_Compose_def TFlush_Compose_def RFlush_Compose_def TOpen_Compose_def
  ROpen_Compose_def TCreate_Compose_def RCreate_Compose_def TRead_Compose_def RWrite_Compose_def
  TClunk_Compose_def RClunk_Compose_def TRemove_Compose_def RRemove_Compose_def TStat_Compose_def
  RWstat_Compose_def

lemma TAuth_Compose_enc:
  assumes "wf_fcall (F_TAuth m)"
  shows "TAuth_Compose m = Some (fcall_bytes (F_TAuth m))"
  using assms unfolding TAuth_Compose_def Let_def
  by (subst compose_sized [where n = "15 + length (tau_Uname m) + length (tau_Aname m)"])
    (simp_all add: wf_fcall_def fcall_bytes_def whole_buff_def frame_def codec_simps
      short_string_def add.assoc)

lemma count_of_nat: "unat c = n \<Longrightarrow> c = of_nat n"
  by auto

lemma RRead_Compose_enc:
  assumes "wf_fcall (F_RRead m)"
  shows "RRead_Compose m = Some (fcall_bytes (F_RRead m))"
proof -
  have c: "rrd_Count m = of_nat (length (rrd_Data m))"
    using assms by (intro count_of_nat) (simp add: wf_fcall_def)
  show ?thesis
    using assms unfolding RRead_Compose_def Let_def c
    by (subst compose_sized [where n = "11 + length (rrd_Data m)"])
      (simp_all add: wf_fcall_def fcall_bytes_def whole_buff_def frame_def codec_simps c)
qed

lemma TWrite_Compose_enc:
  assumes "wf_fcall (F_TWrite m)"
  shows "TWrite_Compose m = Some (fcall_bytes (F_TWrite m))"
proof -
  have c: "twr_Count m = of_nat (length (twr_Data m))"
    using assms by (intro count_of_nat) (simp add: wf_fcall_def)
  show ?thesis
    using assms unfolding TWrite_Compose_def Let_def c
    by (subst compose_sized [where n = "23 + length (twr_Data m)"])
      (simp_all add: wf_fcall_def fcall_bytes_def whole_buff_def frame_def codec_simps c)
qed

lemma RWalk_Compose_enc:
  assumes "wf_fcall (F_RWalk m)"
  shows "RWalk_Compose m = Some (fcall_bytes (F_RWalk m))"
proof -
  have c: "rwk_Nwqid m = of_nat (length (rwk_Wqid m))"
    using assms by (intro count_of_nat) (simp add: wf_fcall_def)
  show ?thesis
    using assms unfolding RWalk_Compose_def Let_def c
    by (subst compose_sized16 [where n = "9 + 13 * length (rwk_Wqid m)"])
      (simp_all add: wf_fcall_def fcall_bytes_def whole_buff_def frame_def codec_simps c
        qid.put_each_enc list.pred_True)
qed

lemma stat_message_ok: "7 + length (fcall_body (F_RStat m)) \<le> 65535 \<Longrightarrow> stat_ok (rst_Stat m)"
  "7 + length (fcall_body (F_TWstat m')) \<le> 65535 \<Longrightarrow> stat_ok (tws_Stat m')"
  by (simp_all add: stat_ok_def)

lemma RStat_Compose_enc:
  assumes "wf_fcall (F_RStat m)"
  shows "RStat_Compose m = Some (fcall_bytes (F_RStat m))"
  using assms stat_message_ok(1) [of m] unfolding RStat_Compose_def Let_def
  by (subst compose_sized16 [where n = "9 + stat_size (rst_Stat m)"])
    (auto simp add: wf_fcall_def fcall_bytes_def whole_buff_def frame_def codec_simps
      Stat_Compose_enc Stat_ComposeLength_eq)

text \<open>The length of the reply is a \<^verbatim>\<open>uint16\<close>: a stat of 65527 bytes or more wraps it.\<close>

lemma RStat_Compose_panics:
  assumes "65527 \<le> stat_size (rst_Stat m)"
  shows "RStat_Compose m = None"
proof (cases "stat_ok (rst_Stat m)")
  case True
  let ?len = "4 + 1 + 2 + 2 + Stat_ComposeLength (rst_Stat m) :: u16"
  have "unat ?len = (9 + stat_size (rst_Stat m)) mod 2 ^ 16"
    using unat_ComposeLength [OF True] by (simp add: unat_word_ariths)
  also have "\<dots> \<le> 8" using assms True by (simp add: stat_ok_def mod_if) arith
  finally have len: "length (snd (make_buff (unat ?len))) \<le> 8" by (simp add: make_buff_def)
  show ?thesis
    using len unfolding RStat_Compose_def Let_def
    by (auto split: bind_splits dest!: put_consumes put_byte_consumes)
qed (auto simp: RStat_Compose_def Stat_Compose_iff Let_def split: bind_splits)

lemma TWstat_Compose_enc:
  assumes "wf_fcall (F_TWstat m)"
  shows "TWstat_Compose m = Some (fcall_bytes (F_TWstat m))"
  using assms stat_message_ok(2) [of m] unfolding TWstat_Compose_def Let_def
  by (subst compose_sized16 [where n = "13 + stat_size (tws_Stat m)"])
    (auto simp add: wf_fcall_def fcall_bytes_def whole_buff_def frame_def codec_simps
      Stat_Compose_enc Stat_ComposeLength_eq)

lemma TWalk_Compose_enc:
  assumes "wf_fcall (F_TWalk m)"
  shows "TWalk_Compose m = Some (fcall_bytes (F_TWalk m))"
proof -
  let ?k = "length (concat (map enc_string (twk_Wname m)))"
  have "list_all short_string (twk_Wname m)"
    using assms length_concat_strings [of _ "twk_Wname m"]
    by (fastforce simp: wf_fcall_def enc_string_lengths)
  then show ?thesis
    unfolding TWalk_Compose_def Let_def foldl_name_lengths
    by (subst compose_header)
      (simp_all add: fcall_bytes_def whole_buff_def frame_def codec_simps algebra_simps)
qed

lemmas compose_special = TAuth_Compose_enc RRead_Compose_enc TWrite_Compose_enc RWalk_Compose_enc
  RStat_Compose_enc TWstat_Compose_enc TWalk_Compose_enc

lemma fcall_Compose_enc: "wf_fcall m \<Longrightarrow> fcall_Compose m = Some (fcall_bytes m)"
  by (cases m) (simp_all add: compose_special, simp_all add: compose_defs Let_def wf_fcall_def
      fcall_bytes_def whole_buff_def frame_def codec_simps short_string_def add.assoc)

section \<open>parse recovers the message\<close>

lemmas parse_defs = TRVersion_parse_def TAuth_parse_def RAuth_parse_def TAttach_parse_def
  RAttach_parse_def RError_parse_def TFlush_parse_def RFlush_parse_def TWalk_parse_def
  RWalk_parse_def TOpen_parse_def ROpen_parse_def TCreate_parse_def RCreate_parse_def
  TRead_parse_def RRead_parse_def TWrite_parse_def RWrite_parse_def TClunk_parse_def
  RClunk_parse_def TRemove_parse_def RRemove_parse_def TStat_parse_def RStat_parse_def
  TWstat_parse_def RWstat_parse_def

lemmas zero_defs = TRVersion_zero_def TAuth_zero_def RAuth_zero_def TAttach_zero_def
  RAttach_zero_def RError_zero_def TFlush_zero_def TWalk_zero_def RWalk_zero_def TOpen_zero_def
  ROpen_zero_def TCreate_zero_def RCreate_zero_def TRead_zero_def RRead_zero_def TWrite_zero_def
  RWrite_zero_def TClunk_zero_def TRemove_zero_def TStat_zero_def RStat_zero_def TWstat_zero_def

lemma wf_walk_strings: "wf_fcall (F_TWalk m) \<Longrightarrow> list_all short_string (twk_Wname m)"
  using length_concat_strings [of _ "twk_Wname m"]
  by (fastforce simp: wf_fcall_def enc_string_lengths)

lemma parse_message_enc:
  "wf_fcall m \<Longrightarrow> parse_message (fcall_Header m) (fcall_body m @ rest) = Ok m"
proof (cases m)
  case (F_TWalk w)
  assume "wf_fcall m"
  then show ?thesis
    using wf_walk_strings [of w] F_TWalk str.get_each_enc [of "twk_Wname w"]
    by (simp add: wf_fcall_def parse_message_def TWalk_parse_def TWalk_zero_def codec_simps)
next
  case (F_RWalk w)
  assume "wf_fcall m"
  then show ?thesis
    using F_RWalk parse_qids_enc [of "rwk_Wqid w"]
    by (simp add: wf_fcall_def parse_message_def RWalk_parse_def RWalk_zero_def codec_simps)
next
  case (F_RStat w)
  assume "wf_fcall m"
  then show ?thesis
    using F_RStat stat_message_ok(1) [of w]
    by (simp add: wf_fcall_def parse_message_def RStat_parse_def RStat_zero_def codec_simps Stat_parse_enc)
next
  case (F_TWstat w)
  assume "wf_fcall m"
  then show ?thesis
    using F_TWstat stat_message_ok(2) [of w]
    by (simp add: wf_fcall_def parse_message_def TWstat_parse_def TWstat_zero_def codec_simps Stat_parse_enc)
qed (auto simp add: wf_fcall_def parse_message_def parse_defs zero_defs codec_simps short_string_def)

section \<open>ParseCall takes one message off the stream\<close>

lemma Header_parse_frame:
  "Header_parse (h_Type h # le_bytes 2 (h_Tag h) @ body) = Ok (h, body)"
  by (simp add: Header_parse_def codec_simps)

context io_reader
begin

lemma readBytes_append:
  assumes "pending r = b @ rest"
  shows "\<exists>r'. readBytes rd r (length b) = Some (Inr b, r') \<and> pending r' = rest"
  using readBytes_enough [of "length b" r] assms by simp

lemma ParseCall_frame:
  assumes "pending r = frame h body @ rest" "7 + length body \<le> 65535"
  shows "\<exists>r'. ParseCall rd (Some r) = Some (parse_message h body, Some r') \<and> pending r' = rest"
proof -
  let ?len = "of_nat (7 + length body) :: u32"
  let ?tail = "h_Type h # le_bytes 2 (h_Tag h) @ body"
  have u: "unat ?len = 7 + length body" "unat (?len - 4) = length ?tail"
    using assms(2) by (simp_all add: unat_word_of_nat unat_sub_if_size word_size del: of_nat_add)
  have small: "\<not> MaxMsgLen < ?len"
    using assms(2) u(1) by (simp add: word_less_nat_alt)
  from readBytes_append [of r "le_bytes 4 ?len" "?tail @ rest"] assms(1)
  obtain r1 where r1: "readBytes rd r 4 = Some (Inr (le_bytes 4 ?len), r1)" "pending r1 = ?tail @ rest"
    by (auto simp: frame_def)
  from readBytes_append [of r1 ?tail rest] r1(2)
  obtain r2 where "readBytes rd r1 (unat (?len - 4)) = Some (Inr ?tail, r2)" "pending r2 = rest"
    unfolding u by auto
  then show ?thesis
    using r1(1) small le32.get_enc [of ?len "[]"] Header_parse_frame [of h body]
    by (simp add: ParseCall_def del: of_nat_add)
qed

lemma ParseCall_message:
  assumes "wf_fcall m" "pending r = fcall_bytes m @ rest"
  shows "\<exists>r'. ParseCall rd (Some r) = Some (Ok m, Some r') \<and> pending r' = rest"
  using ParseCall_frame [of r "fcall_Header m" "fcall_body m" rest] assms parse_message_enc [of m "[]"]
  by (simp add: fcall_bytes_def wf_fcall_def)

end

section \<open>Directory contents\<close>

lemma ParseStats_enc: "list_all stat_ok ss \<Longrightarrow> ParseStats (concat (map enc_stat ss)) = Ok ss"
proof (induction ss)
  case Nil
  then show ?case by (simp add: ParseStats.simps)
next
  case (Cons s ss)
  have "enc_stat s \<noteq> []" by (simp add: enc_stat_def enc_qid_def)
  with Cons show ?case
    by (subst ParseStats.simps) (simp add: Stat_parse_enc)
qed

section \<open>Where the parser panics\<close>

text \<open>
  Messages whose body the parser indexes without a length check: the mode byte of Tcreate, the
  data of Twrite and Rread.
\<close>

definition create_truncated :: "bytes \<Rightarrow> bool" where
  "create_truncated b \<longleftrightarrow>
     length b < 6 \<or> length b < 11 + unat (le_word (take 2 (drop 4 b)) :: u16)"

definition write_truncated :: "bytes \<Rightarrow> bool" where
  "write_truncated b \<longleftrightarrow> 16 \<le> length b \<and> length b < 16 + unat (le_word (take 4 (drop 12 b)) :: u32)"

definition read_truncated :: "bytes \<Rightarrow> bool" where
  "read_truncated b \<longleftrightarrow> 4 \<le> length b \<and> length b < 4 + unat (le_word (take 4 b) :: u32)"

lemma as_fcall_Panic [simp]: "as_fcall F r = Panic \<longleftrightarrow> r = Panic"
  by (cases "(F, r)" rule: as_fcall.cases) simp_all

lemma TCreate_parse_Panic: "TCreate_parse c b = Panic \<longleftrightarrow> create_truncated b"
  by (auto simp: TCreate_parse_def create_truncated_def fromLittleE32_def fromString_def
      fromLittleE16_def split: list.splits if_splits)

lemma TWrite_parse_Panic: "TWrite_parse w b = Panic \<longleftrightarrow> write_truncated b"
  by (auto simp: TWrite_parse_def write_truncated_def fromLittleE32_def fromLittleE64_def
      split: if_splits)

lemma RRead_parse_Panic: "RRead_parse w b = Panic \<longleftrightarrow> read_truncated b"
  by (auto simp: RRead_parse_def read_truncated_def fromLittleE32_def split: if_splits)

lemma Qid_parse_no_Panic [simp]: "Qid_parse q b \<noteq> Panic"
  by (simp add: Qid_parse_def split: list.split prod.split)

lemma parse_qids_no_Panic [simp]: "parse_qids n b \<noteq> Panic"
  by (induction n arbitrary: b) (auto split: res.split prod.split)

lemma Stat_parse_no_Panic [simp]: "Stat_parse s b \<noteq> Panic"
  by (auto simp: Stat_parse_def split: res.split prod.split)

lemma parse_no_Panic:
  "TRVersion_parse m1 b \<noteq> Panic" "TAuth_parse m2 b \<noteq> Panic" "RAuth_parse m3 b \<noteq> Panic"
  "TAttach_parse m4 b \<noteq> Panic" "RAttach_parse m5 b \<noteq> Panic" "RError_parse m6 b \<noteq> Panic"
  "TFlush_parse m7 b \<noteq> Panic" "RFlush_parse m8 b \<noteq> Panic" "TWalk_parse m9 b \<noteq> Panic"
  "RWalk_parse m10 b \<noteq> Panic" "TOpen_parse m11 b \<noteq> Panic" "ROpen_parse m12 b \<noteq> Panic"
  "RCreate_parse m13 b \<noteq> Panic" "TRead_parse m14 b \<noteq> Panic" "RWrite_parse m15 b \<noteq> Panic"
  "TClunk_parse m16 b \<noteq> Panic" "RClunk_parse m17 b \<noteq> Panic" "TRemove_parse m18 b \<noteq> Panic"
  "RRemove_parse m19 b \<noteq> Panic" "TStat_parse m20 b \<noteq> Panic" "RStat_parse m21 b \<noteq> Panic"
  "TWstat_parse m22 b \<noteq> Panic" "RWstat_parse m23 b \<noteq> Panic"
  by (simp_all add: parse_defs split: res.split prod.split)

lemma parse_message_Panic:
  "parse_message h b = Panic \<longleftrightarrow>
     h_Type h = Tcreate \<and> create_truncated b \<or>
     h_Type h = Twrite \<and> write_truncated b \<or>
     h_Type h = Rread \<and> read_truncated b"
  by (simp add: parse_message_def parse_no_Panic TCreate_parse_Panic TWrite_parse_Panic RRead_parse_Panic)

end
