(* ===== verification/Go9p_Server.thy ===== *)
theory Go9p_Server
  imports Fcall_Roundtrip
begin

text \<open>
  The serving loops of server.go: \<^verbatim>\<open>handleCall\<close>, the sequential loop \<^verbatim>\<open>handleIO\<close>
  and the loop \<^verbatim>\<open>handleIOAsync\<close> with its reader, its workers and its writer as a step
  relation. The interfaces \<^verbatim>\<open>Srv\<close> and \<^verbatim>\<open>Conn\<close> are a record of operations over a
  state \<open>'c\<close> of the connection and the server; the locale \<open>srv_contract\<close> states what the loops
  rely on.
\<close>

section \<open>The interfaces Srv and Conn\<close>

type_synonym ('m, 'c) handler_fn = "'m \<Rightarrow> 'c \<Rightarrow> ((go_error + fcall) \<times> 'c) option"

record 'c Srv =
  Srv_Version :: "(TRVersion, 'c) handler_fn"
  Srv_Auth :: "(TAuth, 'c) handler_fn"
  Srv_Attach :: "(TAttach, 'c) handler_fn"
  Srv_Walk :: "(TWalk, 'c) handler_fn"
  Srv_Open :: "(TOpen, 'c) handler_fn"
  Srv_Create :: "(TCreate, 'c) handler_fn"
  Srv_Read :: "(TRead, 'c) handler_fn"
  Srv_Write :: "(TWrite, 'c) handler_fn"
  Srv_Clunk :: "(TClunk, 'c) handler_fn"
  Srv_Remove :: "(TRemove, 'c) handler_fn"
  Srv_Stat :: "(TStat, 'c) handler_fn"
  Srv_Wstat :: "(TWstat, 'c) handler_fn"
  Conn_TagContext :: "u16 \<Rightarrow> 'c \<Rightarrow> nat \<times> 'c"
  Conn_DropContext :: "u16 \<Rightarrow> 'c \<Rightarrow> 'c"
  Ctx_Err :: "nat \<Rightarrow> 'c \<Rightarrow> bool"

section \<open>handleCall\<close>

text \<open>The dynamic type of a message that is no request, as \<^verbatim>\<open>reflect.TypeOf\<close> prints it.\<close>

primrec typeName :: "fcall \<Rightarrow> string" where
  "typeName (F_TRVersion _) = ''*proto.TRVersion''"
| "typeName (F_TAuth _) = ''*proto.TAuth''"
| "typeName (F_RAuth _) = ''*proto.RAuth''"
| "typeName (F_TAttach _) = ''*proto.TAttach''"
| "typeName (F_RAttach _) = ''*proto.RAttach''"
| "typeName (F_RError _) = ''*proto.RError''"
| "typeName (F_TFlush _) = ''*proto.TFlush''"
| "typeName (F_RFlush _) = ''*proto.RFlush''"
| "typeName (F_TWalk _) = ''*proto.TWalk''"
| "typeName (F_RWalk _) = ''*proto.RWalk''"
| "typeName (F_TOpen _) = ''*proto.TOpen''"
| "typeName (F_ROpen _) = ''*proto.ROpen''"
| "typeName (F_TCreate _) = ''*proto.TCreate''"
| "typeName (F_RCreate _) = ''*proto.RCreate''"
| "typeName (F_TRead _) = ''*proto.TRead''"
| "typeName (F_RRead _) = ''*proto.RRead''"
| "typeName (F_TWrite _) = ''*proto.TWrite''"
| "typeName (F_RWrite _) = ''*proto.RWrite''"
| "typeName (F_TClunk _) = ''*proto.TClunk''"
| "typeName (F_RClunk _) = ''*proto.RClunk''"
| "typeName (F_TRemove _) = ''*proto.TRemove''"
| "typeName (F_RRemove _) = ''*proto.RRemove''"
| "typeName (F_TStat _) = ''*proto.TStat''"
| "typeName (F_RStat _) = ''*proto.RStat''"
| "typeName (F_TWstat _) = ''*proto.TWstat''"
| "typeName (F_RWstat _) = ''*proto.RWstat''"

text \<open>The type switch; no method takes a message that is not a request.\<close>

definition dispatch :: "'c Srv \<Rightarrow> fcall \<Rightarrow> ('c \<Rightarrow> ((go_error + fcall) \<times> 'c) option) option" where
  "dispatch srv call =
     (case call of
        F_TRVersion t \<Rightarrow> Some (Srv_Version srv t)
      | F_TAuth t \<Rightarrow> Some (Srv_Auth srv t)
      | F_TAttach t \<Rightarrow> Some (Srv_Attach srv t)
      | F_TFlush t \<Rightarrow>
          Some (\<lambda>c. Some (Inr (F_RFlush \<lparr>rfl_Header = \<lparr>h_Type = Rflush, h_Tag = h_Tag (tfl_Header t)\<rparr>\<rparr>), c))
      | F_TWalk t \<Rightarrow> Some (Srv_Walk srv t)
      | F_TOpen t \<Rightarrow> Some (Srv_Open srv t)
      | F_TCreate t \<Rightarrow> Some (Srv_Create srv t)
      | F_TRead t \<Rightarrow> Some (Srv_Read srv t)
      | F_TWrite t \<Rightarrow> Some (Srv_Write srv t)
      | F_TClunk t \<Rightarrow> Some (Srv_Clunk srv t)
      | F_TRemove t \<Rightarrow> Some (Srv_Remove srv t)
      | F_TStat t \<Rightarrow> Some (Srv_Stat srv t)
      | F_TWstat t \<Rightarrow> Some (Srv_Wstat srv t)
      | _ \<Rightarrow> None)"

text \<open>What follows the switch: a cancelled context drops the reply.\<close>

definition finish_call ::
    "'c Srv \<Rightarrow> fcall \<Rightarrow> nat \<Rightarrow> go_error + fcall \<Rightarrow> 'c \<Rightarrow> (go_error + fcall option) \<times> 'c" where
  "finish_call srv call ctx ret c =
     (if Ctx_Err srv ctx c then (Inr None, c)
      else (case ret of Inl e \<Rightarrow> Inl e | Inr m \<Rightarrow> Inr (Some m), Conn_DropContext srv (GetTag call) c))"

definition handleCall :: "'c Srv \<Rightarrow> fcall \<Rightarrow> 'c \<Rightarrow> ((go_error + fcall option) \<times> 'c) option" where
  "handleCall srv call c =
     (let (ctx, c) = Conn_TagContext srv (GetTag call) c
      in case dispatch srv call of
           None \<Rightarrow> Some (Inl (ErrorString (''Invalid call: '' @ typeName call)), c)
         | Some h \<Rightarrow>
             (case h c of
                None \<Rightarrow> None
              | Some (ret, c) \<Rightarrow> Some (finish_call srv call ctx ret c)))"

section \<open>handleIO\<close>

text \<open>
  How a serving loop ends: it returns an error, or a panic kills the process. A loop that never
  ends is \<^const>\<open>None\<close>. A writer takes bytes and answers with an error or none.
\<close>

datatype io_exit = Returned go_error | Crashed

type_synonym 'w writer = "bytes \<Rightarrow> 'w \<Rightarrow> go_error option \<times> 'w"

partial_function (option) handleIO ::
    "'c Srv \<Rightarrow> 'r reader \<Rightarrow> 'w writer \<Rightarrow> 'r option \<Rightarrow> 'w \<Rightarrow> 'c \<Rightarrow> (io_exit \<times> 'w \<times> 'c) option" where
  "handleIO srv rd wr r w c =
     (case ParseCall rd r of
        None \<Rightarrow> None
      | Some (Err e, r) \<Rightarrow> Some (Returned e, w, c)
      | Some (Panic, r) \<Rightarrow> Some (Crashed, w, c)
      | Some (Ok call, r) \<Rightarrow>
          (case handleCall srv call c of
             None \<Rightarrow> Some (Crashed, w, c)
           | Some (Inl e, c) \<Rightarrow> Some (Returned e, w, c)
           | Some (Inr None, c) \<Rightarrow> handleIO srv rd wr r w c
           | Some (Inr (Some resp), c) \<Rightarrow>
               (case fcall_Compose resp of
                  None \<Rightarrow> Some (Crashed, w, c)
                | Some bs \<Rightarrow>
                    (case wr bs w of
                       (Some e, w) \<Rightarrow> Some (Returned e, w, c)
                     | (None, w) \<Rightarrow> handleIO srv rd wr r w c))))"

section \<open>handleIOAsync\<close>

text \<open>
  The state of the asynchronous loop: both channels with the messages they hold, the workers, the
  reader, the connection, the messages written so far and the way the loop ended. \<open>a_read\<close> records
  the messages parsed so far. A worker is idle, has taken a call and its context, has the handler's
  answer in hand, waits to send the reply, or has returned.
\<close>

datatype worker = Idle | Got fcall nat | Handled fcall nat "go_error + fcall" | Sending fcall | Dead

datatype aio_status = Serving | Stopped go_error | Dying

record ('c, 'r) aio =
  a_reader :: "'r option"
  a_in :: "fcall list"
  a_workers :: "worker list"
  a_out :: "fcall list"
  a_conn :: 'c
  a_written :: "fcall list"
  a_status :: aio_status
  a_read :: "fcall list"

definition aio_init :: "'r \<Rightarrow> 'c \<Rightarrow> ('c, 'r) aio" where
  "aio_init r c =
     \<lparr>a_reader = Some r, a_in = [], a_workers = replicate 100 Idle, a_out = [], a_conn = c,
      a_written = [], a_status = Serving, a_read = []\<rparr>"

text \<open>
  The check of an attach against the name \<open>uname\<close> of the client certificate: the reply and the
  error that end the connection, if the names differ.
\<close>

definition uname_refused :: "string \<Rightarrow> fcall \<Rightarrow> (fcall \<times> go_error) option" where
  "uname_refused uname call =
     (case call of
        F_TAttach ta \<Rightarrow>
          if uname \<noteq> [] \<and> tat_Uname ta \<noteq> uname
          then Some (F_RError \<lparr>rer_Header = \<lparr>h_Type = Rerror, h_Tag = h_Tag (tat_Header ta)\<rparr>,
                               rer_Ename = ''invalid user '' @ tat_Uname ta\<rparr>,
                     ErrorString (''Protocol error: client connected with cert for '' @ uname
                       @ '', but attached with user name '' @ tat_Uname ta))
          else None
      | _ \<Rightarrow> None)"

text \<open>
  The steps: the reader parses a message and queues it, panicking when the queue is full; a worker
  takes a call, runs the handler, finishes the call and sends the reply; the writer takes a reply
  and writes it. The channels hold at most 100 messages. A handler runs as one step: what two
  handlers on the same fid could see of each other's intermediate states is not part of the model.
  An error of the writer is only logged, so a message counts as written once it is handed over.
\<close>

inductive aio_step :: "'c Srv \<Rightarrow> 'r reader \<Rightarrow> string \<Rightarrow> ('c, 'r) aio \<Rightarrow> ('c, 'r) aio \<Rightarrow> bool"
  for srv :: "'c Srv" and rd :: "'r reader" and uname :: string where
  read_err: "a_status a = Serving \<Longrightarrow> ParseCall rd (a_reader a) = Some (Err e, r) \<Longrightarrow>
    aio_step srv rd uname a (a\<lparr>a_reader := r, a_status := Stopped e\<rparr>)"
| read_panic: "a_status a = Serving \<Longrightarrow> ParseCall rd (a_reader a) = Some (Panic, r) \<Longrightarrow>
    aio_step srv rd uname a (a\<lparr>a_reader := r, a_status := Dying\<rparr>)"
| read_refused: "a_status a = Serving \<Longrightarrow> ParseCall rd (a_reader a) = Some (Ok call, r) \<Longrightarrow>
    uname_refused uname call = Some (m, e) \<Longrightarrow> length (a_out a) < 100 \<Longrightarrow>
    aio_step srv rd uname a 
      (a\<lparr>a_reader := r, a_out := a_out a @ [m], a_status := Stopped e, a_read := a_read a @ [call]\<rparr>)"
| read_call: "a_status a = Serving \<Longrightarrow> ParseCall rd (a_reader a) = Some (Ok call, r) \<Longrightarrow>
    uname_refused uname call = None \<Longrightarrow> length (a_in a) < 100 \<Longrightarrow>
    aio_step srv rd uname a 
      (a\<lparr>a_reader := r, a_in := a_in a @ [call], a_read := a_read a @ [call]\<rparr>)"
| read_full: "a_status a = Serving \<Longrightarrow> ParseCall rd (a_reader a) = Some (Ok call, r) \<Longrightarrow>
    uname_refused uname call = None \<Longrightarrow> length (a_in a) \<ge> 100 \<Longrightarrow>
    aio_step srv rd uname a (a\<lparr>a_reader := r, a_status := Dying, a_read := a_read a @ [call]\<rparr>)"
| take_call: "a_status a \<noteq> Dying \<Longrightarrow> i < length (a_workers a) \<Longrightarrow> a_workers a ! i = Idle \<Longrightarrow>
    a_in a = call # rest \<Longrightarrow> Conn_TagContext srv (GetTag call) (a_conn a) = (ctx, c) \<Longrightarrow>
    aio_step srv rd uname a
      (a\<lparr>a_in := rest, a_workers := (a_workers a)[i := Got call ctx], a_conn := c\<rparr>)"
| worker_end: "a_status a = Stopped e \<Longrightarrow> i < length (a_workers a) \<Longrightarrow> a_workers a ! i = Idle \<Longrightarrow>
    a_in a = [] \<Longrightarrow> aio_step srv rd uname a (a\<lparr>a_workers := (a_workers a)[i := Dead]\<rparr>)"
| invalid: "a_status a \<noteq> Dying \<Longrightarrow> i < length (a_workers a) \<Longrightarrow> a_workers a ! i = Got call ctx \<Longrightarrow>
    dispatch srv call = None \<Longrightarrow>
    aio_step srv rd uname a (a\<lparr>a_workers := (a_workers a)[i := Dead]\<rparr>)"
| handle_panic: "a_status a \<noteq> Dying \<Longrightarrow> i < length (a_workers a) \<Longrightarrow> a_workers a ! i = Got call ctx \<Longrightarrow>
    dispatch srv call = Some h \<Longrightarrow> h (a_conn a) = None \<Longrightarrow>
    aio_step srv rd uname a (a\<lparr>a_status := Dying\<rparr>)"
| handle: "a_status a \<noteq> Dying \<Longrightarrow> i < length (a_workers a) \<Longrightarrow> a_workers a ! i = Got call ctx \<Longrightarrow>
    dispatch srv call = Some h \<Longrightarrow> h (a_conn a) = Some (ret, c) \<Longrightarrow>
    aio_step srv rd uname a
      (a\<lparr>a_workers := (a_workers a)[i := Handled call ctx ret], a_conn := c\<rparr>)"
| finish: "a_status a \<noteq> Dying \<Longrightarrow> i < length (a_workers a) \<Longrightarrow>
    a_workers a ! i = Handled call ctx ret \<Longrightarrow> finish_call srv call ctx ret (a_conn a) = (res, c) \<Longrightarrow>
    aio_step srv rd uname a
      (a\<lparr>a_workers := (a_workers a)[i := (case res of Inl e \<Rightarrow> Dead | Inr None \<Rightarrow> Idle
                                              | Inr (Some m) \<Rightarrow> Sending m)],
         a_conn := c\<rparr>)"
| send: "a_status a \<noteq> Dying \<Longrightarrow> i < length (a_workers a) \<Longrightarrow> a_workers a ! i = Sending m \<Longrightarrow>
    length (a_out a) < 100 \<Longrightarrow>
    aio_step srv rd uname a (a\<lparr>a_workers := (a_workers a)[i := Idle], a_out := a_out a @ [m]\<rparr>)"
| write_out: "a_status a \<noteq> Dying \<Longrightarrow> a_out a = m # rest \<Longrightarrow> fcall_Compose m \<noteq> None \<Longrightarrow>
    aio_step srv rd uname a (a\<lparr>a_out := rest, a_written := a_written a @ [m]\<rparr>)"
| write_panic: "a_status a \<noteq> Dying \<Longrightarrow> a_out a = m # rest \<Longrightarrow> fcall_Compose m = None \<Longrightarrow>
    aio_step srv rd uname a (a\<lparr>a_status := Dying\<rparr>)"

section \<open>The contract of a server\<close>

text \<open>
  \<open>ok\<close> is the invariant of the connection and \<open>tags\<close> its table of live contexts. A handler
  answers with the tag of its request and leaves the contexts alone; the context of a tag is live
  until the tag is dropped.
\<close>

locale srv_contract =
  fixes srv :: "'c Srv" and ok :: "'c \<Rightarrow> bool" and tags :: "'c \<Rightarrow> u16 \<rightharpoonup> nat"
  assumes TagContext_new: "ok c \<Longrightarrow> tags c tag = None \<Longrightarrow> Conn_TagContext srv tag c = (ctx, c') \<Longrightarrow>
      ok c' \<and> tags c' = (tags c)(tag \<mapsto> ctx)"
    and TagContext_old: "tags c tag = Some ctx \<Longrightarrow> Conn_TagContext srv tag c = (ctx, c)"
    and live: "ok c \<Longrightarrow> tags c tag = Some ctx \<Longrightarrow> \<not> Ctx_Err srv ctx c"
    and DropContext_tags: "ok c \<Longrightarrow> ok (Conn_DropContext srv tag c) \<and>
      tags (Conn_DropContext srv tag c) = (tags c)(tag := None)"
    and DropContext_cancels: "ok c \<Longrightarrow> tags c tag = Some ctx \<Longrightarrow>
      Ctx_Err srv ctx (Conn_DropContext srv tag c)"
    and method_ok: "ok c \<Longrightarrow> dispatch srv call = Some h \<Longrightarrow> h c = Some (ret, c') \<Longrightarrow>
      ok c' \<and> tags c' = tags c"
    and method_tag: "ok c \<Longrightarrow> dispatch srv call = Some h \<Longrightarrow> h c = Some (Inr m, c') \<Longrightarrow>
      GetTag m = GetTag call"
begin

lemma TagContext_live:
  assumes "ok c" "Conn_TagContext srv tag c = (ctx, c')"
  shows "ok c' \<and> tags c' = (tags c)(tag \<mapsto> ctx)"
  using assms TagContext_new [of c tag ctx c'] TagContext_old [of c tag]
  by (cases "tags c tag") (auto simp: fun_upd_idem)

lemma finish_live:
  assumes "ok c" "tags c (GetTag call) = Some ctx"
  shows "finish_call srv call ctx ret c =
     (case ret of Inl e \<Rightarrow> Inl e | Inr m \<Rightarrow> Inr (Some m), Conn_DropContext srv (GetTag call) c)"
  using live [OF assms] by (simp add: finish_call_def)

text \<open>Handled one at a time, every request gets its handler's answer and leaves no context behind.\<close>

lemma handleCall_answer:
  assumes "ok c" "dispatch srv call = Some h"
    "h (snd (Conn_TagContext srv (GetTag call) c)) = Some (ret, c1)"
  shows "\<exists>c'. handleCall srv call c = Some (case ret of Inl e \<Rightarrow> Inl e | Inr m \<Rightarrow> Inr (Some m), c') \<and>
     ok c' \<and> tags c' = (tags c)(GetTag call := None)"
proof -
  obtain ctx c0 where c0: "Conn_TagContext srv (GetTag call) c = (ctx, c0)" by fastforce
  have 0: "ok c0" "tags c0 = (tags c)(GetTag call \<mapsto> ctx)"
    using TagContext_live [OF assms(1) c0] by auto
  have 1: "ok c1" "tags c1 = tags c0"
    using method_ok [OF 0(1) assms(2)] assms(3) c0 by auto
  have "finish_call srv call ctx ret c1 =
     (case ret of Inl e \<Rightarrow> Inl e | Inr m \<Rightarrow> Inr (Some m), Conn_DropContext srv (GetTag call) c1)"
    using 1 0 by (intro finish_live) auto
  then show ?thesis
    using assms(2,3) c0 1 0 DropContext_tags [OF 1(1), of "GetTag call"]
    by (auto simp: handleCall_def)
qed

lemma handleCall_tag:
  assumes "ok c" "handleCall srv call c = Some (Inr resp, c')"
  obtains m where "resp = Some m" "GetTag m = GetTag call" "ok c'"
    "tags c' = (tags c)(GetTag call := None)"
proof -
  obtain ctx c0 where c0: "Conn_TagContext srv (GetTag call) c = (ctx, c0)" by fastforce
  obtain h ret c1 where h: "dispatch srv call = Some h" "h c0 = Some (ret, c1)"
    using assms(2) c0 by (auto simp: handleCall_def split: option.splits)
  obtain c2 where c2: "handleCall srv call c = Some (case ret of Inl e \<Rightarrow> Inl e | Inr m \<Rightarrow> Inr (Some m), c2)"
    "ok c2" "tags c2 = (tags c)(GetTag call := None)"
    using handleCall_answer [OF assms(1) h(1)] h(2) c0 by auto
  then obtain m where m: "ret = Inr m" "resp = Some m" "c' = c2"
    using assms(2) by (cases ret) auto
  have "ok c0" using TagContext_live [OF assms(1) c0] by simp
  then have "GetTag m = GetTag call" using method_tag h m(1) by blast
  with c2 m show thesis by (intro that [of m]) simp_all
qed

end

end
