(* ===== verification/Go9p_Async.thy ===== *)
theory Go9p_Async
  imports Go9p_Server "HOL-Library.Multiset"
begin

text \<open>
  Properties of the serving loops over every server that keeps the contract \<open>srv_contract\<close>:
  each reply of the asynchronous loop answers a request of its own, no reply is lost as long as
  the client does not reuse a tag in flight, attaches pass only under the certificate's name; and
  the two ways in which the loop fails, a full queue and workers that have returned.
\<close>

section \<open>Requests in flight\<close>

primrec worker_tags :: "worker \<Rightarrow> u16 multiset" where
  "worker_tags Idle = {#}"
| "worker_tags (Got call ctx) = {#GetTag call#}"
| "worker_tags (Handled call ctx ret) = {#GetTag call#}"
| "worker_tags (Sending m) = {#GetTag m#}"
| "worker_tags Dead = {#}"

definition open_tags :: "('c, 'r) aio \<Rightarrow> u16 multiset" where
  "open_tags a = mset (map GetTag (a_in a)) + sum_list (map worker_tags (a_workers a))"

definition reply_tags :: "('c, 'r) aio \<Rightarrow> u16 multiset" where
  "reply_tags a = mset (map GetTag (a_written a @ a_out a))"

definition read_tags :: "('c, 'r) aio \<Rightarrow> u16 multiset" where
  "read_tags a = mset (map GetTag (a_read a))"

definition dead_workers :: "('c, 'r) aio \<Rightarrow> nat" where
  "dead_workers a = count_list (a_workers a) Dead"

lemmas tag_defs = open_tags_def reply_tags_def read_tags_def

lemma sum_list_empties: "sum_list (replicate n {#}) = {#}"
  by (induction n) simp_all

lemma sum_list_update_worker:
  "i < length ws \<Longrightarrow>
     sum_list (map worker_tags (ws[i := w])) + worker_tags (ws ! i) =
     sum_list (map worker_tags ws) + worker_tags w"
proof (induction ws arbitrary: i)
  case (Cons v ws)
  then show ?case by (cases i) (auto simp: ac_simps)
qed simp

lemma dead_update:
  "i < length ws \<Longrightarrow>
     count_list (ws[i := w]) x + (if ws ! i = x then 1 else 0) =
     count_list ws x + (if w = x then 1 else 0)"
proof (induction ws arbitrary: i)
  case (Cons v ws)
  show ?case
  proof (cases i)
    case (Suc j)
    then show ?thesis using Cons.IH [of j] Cons.prems by (simp split: if_splits)
  qed simp
qed simp

lemma workers_shrink:
  assumes "i < length ws" "worker_tags w \<subseteq># worker_tags (ws ! i)"
  shows "sum_list (map worker_tags (ws[i := w])) \<subseteq># sum_list (map worker_tags ws)"
proof -
  have "sum_list (map worker_tags (ws[i := w])) + worker_tags (ws ! i) \<subseteq>#
      sum_list (map worker_tags ws) + worker_tags (ws ! i)"
    using assms(2) unfolding sum_list_update_worker [OF assms(1)] by simp
  then show ?thesis by simp
qed

text \<open>A worker's answer carries the tag of its call.\<close>

primrec answer_ok :: "worker \<Rightarrow> bool" where
  "answer_ok Idle \<longleftrightarrow> True"
| "answer_ok (Got call ctx) \<longleftrightarrow> True"
| "answer_ok (Handled call ctx ret) \<longleftrightarrow> (\<forall>m. ret = Inr m \<longrightarrow> GetTag m = GetTag call)"
| "answer_ok (Sending m) \<longleftrightarrow> True"
| "answer_ok Dead \<longleftrightarrow> True"

lemma answer_ok_update:
  "list_all answer_ok ws \<Longrightarrow> answer_ok w \<Longrightarrow> list_all answer_ok (ws[i := w])"
  by (auto simp: list_all_iff dest: set_update_subset_insert [THEN subsetD])

lemma answer_ok_nth: "list_all answer_ok ws \<Longrightarrow> i < length ws \<Longrightarrow> answer_ok (ws ! i)"
  by (simp add: list_all_length)

lemma uname_refused_tag: "uname_refused uname call = Some (m, e) \<Longrightarrow> GetTag m = GetTag call"
  by (auto simp: uname_refused_def GetTag_def split: fcall.splits if_splits)

text \<open>The contexts of the calls in hand are the live ones of their tags.\<close>

primrec ctx_ok :: "(u16 \<rightharpoonup> nat) \<Rightarrow> worker \<Rightarrow> bool" where
  "ctx_ok T Idle \<longleftrightarrow> True"
| "ctx_ok T (Got call ctx) \<longleftrightarrow> T (GetTag call) = Some ctx"
| "ctx_ok T (Handled call ctx ret) \<longleftrightarrow> T (GetTag call) = Some ctx"
| "ctx_ok T (Sending m) \<longleftrightarrow> True"
| "ctx_ok T Dead \<longleftrightarrow> True"

definition single_tags :: "('c, 'r) aio \<Rightarrow> bool" where
  "single_tags a \<longleftrightarrow> (\<forall>t. count (open_tags a) t \<le> 1)"

lemma ctx_ok_other: "t \<notin># worker_tags w \<Longrightarrow> ctx_ok (T(t := x)) w = ctx_ok T w"
  by (cases w) auto

lemma worker_tags_in: "j < length ws \<Longrightarrow> worker_tags (ws ! j) \<subseteq># sum_list (map worker_tags ws)"
proof (induction ws arbitrary: j)
  case (Cons v ws)
  then show ?case by (cases j) (auto intro: subset_mset.add_increasing)
qed simp

text \<open>A tag in flight once is in the hands of no other worker.\<close>

lemma others_free:
  assumes "i < length ws" "j < length ws" "j \<noteq> i"
    "count (sum_list (map worker_tags ws)) t \<le> count (worker_tags (ws ! i)) t"
  shows "t \<notin># worker_tags (ws ! j)"
proof -
  let ?S' = "sum_list (map worker_tags (ws[i := Idle]))"
  have "?S' + worker_tags (ws ! i) = sum_list (map worker_tags ws)"
    using sum_list_update_worker [OF assms(1), of Idle] by simp
  then have "count ?S' t + count (worker_tags (ws ! i)) t = count (sum_list (map worker_tags ws)) t"
    by (metis count_union)
  then have "count ?S' t = 0" using assms(4) by linarith
  then have "t \<notin># ?S'" unfolding not_in_iff .
  moreover have "worker_tags (ws ! j) \<subseteq># ?S'"
    using worker_tags_in [of j "ws[i := Idle]"] assms by simp
  ultimately show ?thesis by (meson mset_subset_eqD)
qed

lemma ctx_ok_update:
  assumes "list_all (ctx_ok T) ws" "i < length ws" "ctx_ok (T(t := x)) w"
    "count (sum_list (map worker_tags ws)) t \<le> count (worker_tags (ws ! i)) t"
  shows "list_all (ctx_ok (T(t := x))) (ws[i := w])"
  unfolding list_all_length
proof (intro allI impI)
  fix j assume "j < length (ws[i := w])"
  then show "ctx_ok (T(t := x)) (ws[i := w] ! j)"
    using assms others_free [OF assms(2) _ _ assms(4), of j]
    by (cases "j = i") (auto simp: list_all_length ctx_ok_other)
qed

lemma single_worker:
  assumes "single_tags a"
  shows "count (sum_list (map worker_tags (a_workers a))) t \<le> 1"
proof -
  have "count (open_tags a) t \<le> 1" using assms by (simp add: single_tags_def)
  then show ?thesis unfolding open_tags_def count_union by linarith
qed

lemma queued_free:
  assumes "single_tags a" "a_in a = call # rest"
  shows "count (sum_list (map worker_tags (a_workers a))) (GetTag call) = 0"
proof -
  have "count (open_tags a) (GetTag call) \<le> 1" using assms by (simp add: single_tags_def)
  moreover have "1 \<le> count (mset (map GetTag (a_in a))) (GetTag call)" using assms(2) by simp
  ultimately show ?thesis unfolding open_tags_def count_union by linarith
qed

lemma ctx_ok_keep:
  "list_all (ctx_ok T) ws \<Longrightarrow> ctx_ok T w \<Longrightarrow> list_all (ctx_ok T) (ws[i := w])"
  by (auto simp: list_all_iff dest: set_update_subset_insert [THEN subsetD])

context srv_contract
begin

definition aio_inv :: "('c, 'r) aio \<Rightarrow> bool" where
  "aio_inv a \<longleftrightarrow> ok (a_conn a) \<and> list_all answer_ok (a_workers a) \<and>
     reply_tags a + open_tags a \<subseteq># read_tags a"

lemma aio_step_inv:
  assumes "aio_step srv rd uname a b" "aio_inv a"
  shows "aio_inv b"
  using assms(1)
proof (cases rule: aio_step.cases)
  case (read_refused call r m e)
  then show ?thesis
    using assms(2) uname_refused_tag [of uname call m e]
    by (simp add: aio_inv_def tag_defs add.assoc)
next
  case (take_call i call rest ctx c)
  then show ?thesis
    using assms(2) TagContext_live [of "a_conn a" "GetTag call" ctx c]
      sum_list_update_worker [of i "a_workers a" "Got call ctx"]
    by (simp add: aio_inv_def tag_defs answer_ok_update)
next
  case (worker_end e i)
  then show ?thesis
    using assms(2) sum_list_update_worker [of i "a_workers a" Dead]
    by (simp add: aio_inv_def tag_defs answer_ok_update)
next
  case (invalid i call ctx)
  then have "sum_list (map worker_tags ((a_workers a)[i := Dead])) \<subseteq># sum_list (map worker_tags (a_workers a))"
    by (intro workers_shrink) auto
  then show ?thesis
    using assms(2) invalid
    by (auto simp: aio_inv_def tag_defs answer_ok_update
        elim!: subset_mset.order_trans [rotated] intro!: subset_mset.add_mono)
next
  case (handle i call ctx h ret c)
  then have "answer_ok (Handled call ctx ret)" "ok c"
    using assms(2) method_tag [of "a_conn a" call h] method_ok [of "a_conn a" call h ret c]
    by (auto simp: aio_inv_def)
  then show ?thesis
    using assms(2) handle sum_list_update_worker [of i "a_workers a" "Handled call ctx ret"]
    by (simp add: aio_inv_def tag_defs answer_ok_update)
next
  case (finish i call ctx ret res c)
  let ?w = "case res of Inl e \<Rightarrow> Dead | Inr None \<Rightarrow> Idle | Inr (Some m) \<Rightarrow> Sending m"
  have "answer_ok (a_workers a ! i)"
    using assms(2) finish(3) by (auto simp: aio_inv_def intro: answer_ok_nth)
  then have w: "worker_tags ?w \<subseteq># worker_tags (a_workers a ! i)" "answer_ok ?w"
    using finish(4,5) by (auto simp: finish_call_def split: if_splits sum.splits)
  have "ok c" using assms(2) finish(5) DropContext_tags [of "a_conn a" "GetTag call"]
    by (auto simp: aio_inv_def finish_call_def split: if_splits)
  moreover have "sum_list (map worker_tags ((a_workers a)[i := ?w])) \<subseteq># sum_list (map worker_tags (a_workers a))"
    using finish(3) w(1) by (rule workers_shrink)
  ultimately show ?thesis
    using assms(2) finish(1) w(2)
    by (auto simp: aio_inv_def tag_defs answer_ok_update
        elim!: subset_mset.order_trans [rotated] intro!: subset_mset.add_mono)
next
  case (send i m)
  then have "sum_list (map worker_tags (a_workers a)) =
      add_mset (GetTag m) (sum_list (map worker_tags ((a_workers a)[i := Idle])))"
    using sum_list_update_worker [of i "a_workers a" Idle] by simp
  then show ?thesis
    using assms(2) send by (simp add: aio_inv_def tag_defs answer_ok_update)
next
  case (read_full call r)
  have "read_tags a \<subseteq># read_tags b" using read_full by (simp add: read_tags_def)
  moreover have "reply_tags b + open_tags b = reply_tags a + open_tags a"
    using read_full(1) by (simp add: open_tags_def reply_tags_def)
  ultimately have "reply_tags b + open_tags b \<subseteq># read_tags b"
    using assms(2) subset_mset.order_trans unfolding aio_inv_def by metis
  then show ?thesis using assms(2) read_full(1) by (simp add: aio_inv_def)
qed (use assms(2) in \<open>simp_all add: aio_inv_def tag_defs add.assoc\<close>)

lemma aio_run_inv:
  assumes "(aio_step srv rd uname)\<^sup>*\<^sup>* a b" "aio_inv a"
  shows "aio_inv b"
  using assms by (induction rule: rtranclp_induct) (auto intro: aio_step_inv)

lemma aio_init_inv: "ok c \<Longrightarrow> aio_inv (aio_init r c)"
  by (simp add: aio_inv_def aio_init_def tag_defs list_all_iff sum_list_empties)

text \<open>
  While the loop serves and no tag in flight is used twice, every request read is answered, in
  flight, or was given to a worker that returned with an error.
\<close>

definition flight_inv :: "('c, 'r) aio \<Rightarrow> bool" where
  "flight_inv a \<longleftrightarrow> aio_inv a \<and> list_all (ctx_ok (tags (a_conn a))) (a_workers a) \<and>
     (a_status a = Serving \<longrightarrow>
        size (read_tags a) = size (reply_tags a) + size (open_tags a) + dead_workers a)"

lemma size_update:
  assumes "i < length ws"
  shows "size (sum_list (map worker_tags (ws[i := w]))) + size (worker_tags (ws ! i)) =
     size (sum_list (map worker_tags ws)) + size (worker_tags w)"
  using arg_cong [OF sum_list_update_worker [OF assms], of size w] by simp

lemma flight_step:
  assumes "aio_step srv rd uname a b" "flight_inv a" "single_tags a"
  shows "flight_inv b"
proof -
  have inv: "aio_inv b" using aio_step_inv [OF assms(1)] assms(2) by (simp add: flight_inv_def)
  have ok: "ok (a_conn a)" using assms(2) by (simp add: flight_inv_def aio_inv_def)
  note upd = size_update [of _ "a_workers a"] dead_update [of _ "a_workers a" _ Dead]
  from assms(1) show ?thesis
  proof (cases rule: aio_step.cases)
    case (take_call i call rest ctx c)
    have "tags c = (tags (a_conn a))(GetTag call := Some ctx)"
      using TagContext_live [OF ok] take_call by auto
    then have "list_all (ctx_ok (tags c)) ((a_workers a)[i := Got call ctx])"
      using ctx_ok_update [of "tags (a_conn a)" "a_workers a" i "GetTag call" "Some ctx" "Got call ctx"]
        assms(2) take_call(3) queued_free [OF assms(3) take_call(5)]
      by (simp add: flight_inv_def)
    with assms(2) inv take_call upd(1) [of i "Got call ctx"] upd(2) [of i "Got call ctx"]
    show ?thesis by (simp add: flight_inv_def tag_defs dead_workers_def)
  next
    case (worker_end e i)
    then show ?thesis using assms(2) inv by (simp add: flight_inv_def ctx_ok_keep)
  next
    case (invalid i call ctx)
    then show ?thesis
      using assms(2) inv upd(1) [of i Dead] upd(2) [of i Dead]
      by (auto simp: flight_inv_def tag_defs dead_workers_def ctx_ok_keep)
  next
    case (handle i call ctx h ret c)
    then show ?thesis
      using assms(2) inv upd(1) [of i "Handled call ctx ret"] upd(2) [of i "Handled call ctx ret"]
        method_ok [OF ok] list_all_length [of "ctx_ok (tags (a_conn a))" "a_workers a"]
      by (auto simp: flight_inv_def tag_defs dead_workers_def intro!: ctx_ok_keep)
  next
    case (finish i call ctx ret res c)
    let ?w = "case res of Inl e \<Rightarrow> Dead | Inr None \<Rightarrow> Idle | Inr (Some m) \<Rightarrow> Sending m"
    have "tags (a_conn a) (GetTag call) = Some ctx"
      using assms(2) finish(3,4) by (auto simp: flight_inv_def list_all_length dest!: spec [of _ i])
    then have res: "res = (case ret of Inl e \<Rightarrow> Inl e | Inr m \<Rightarrow> Inr (Some m))"
      "c = Conn_DropContext srv (GetTag call) (a_conn a)"
      using finish_live [OF ok] finish(5) by auto
    have "tags c = (tags (a_conn a))(GetTag call := None)"
      using DropContext_tags [OF ok] res(2) by simp
    moreover have "ctx_ok T ?w" for T using res(1) by (cases ret) auto
    ultimately have "list_all (ctx_ok (tags c)) ((a_workers a)[i := ?w])"
      using ctx_ok_update [of "tags (a_conn a)" "a_workers a" i "GetTag call" None ?w]
        assms(2) finish(3,4) single_worker [OF assms(3), of "GetTag call"]
      by (simp add: flight_inv_def)
    with assms(2) inv finish res(1) upd(1) [of i ?w] upd(2) [of i ?w]
    show ?thesis by (cases ret) (simp_all add: flight_inv_def tag_defs dead_workers_def)
  next
    case (send i m)
    then show ?thesis
      using assms(2) inv upd(1) [of i Idle] upd(2) [of i Idle]
      by (auto simp: flight_inv_def tag_defs dead_workers_def ctx_ok_keep)
  qed (use assms(2) inv in \<open>auto simp: flight_inv_def tag_defs dead_workers_def\<close>)
qed

lemma flight_run:
  assumes "(\<lambda>a b. aio_step srv rd uname a b \<and> single_tags a)\<^sup>*\<^sup>* a b" "flight_inv a"
  shows "flight_inv b"
  using assms by (induction rule: rtranclp_induct) (auto intro: flight_step)

lemma flight_init: "ok c \<Longrightarrow> flight_inv (aio_init r c)"
  using aio_init_inv [of c r]
  by (auto simp: flight_inv_def aio_init_def tag_defs dead_workers_def list_all_iff sum_list_empties
      count_list_0_iff)

end

end
