(* ===== verification/Go9p_Loops.thy ===== *)
theory Go9p_Loops
  imports Go9p_Async
begin

text \<open>
  The serving loops fed by a reader that keeps the contract \<open>io_reader\<close>: the parser and the
  sequential loop always end, the sequential loop answers a stream of requests one by one, and
  the two failures of the asynchronous loop are reachable from the network.
\<close>

section \<open>Parsing from a reader\<close>

context io_reader
begin

lemma readBytes_total: "\<exists>x. readBytes rd r n = Some x"
proof (cases "n \<le> length (pending r)")
  case True
  then show ?thesis using readBytes_enough by blast
next
  case False
  then show ?thesis using readBytes_short [of r n] by force
qed

lemma ParseCall_total: "\<exists>x. ParseCall rd r = Some x"
proof (cases r)
  case (Some r0)
  obtain x r1 where r1: "readBytes rd r0 4 = Some (x, r1)" using readBytes_total by fastforce
  obtain y r2 where "readBytes rd r1 (unat (fst (fromLittleE32 (projr x)) - 4)) = Some (y, r2)"
    using readBytes_total by fastforce
  with Some r1 show ?thesis
    by (cases x; cases y; cases "Header_parse (projr y)")
      (auto simp: ParseCall_def split: prod.splits)
qed (simp add: ParseCall_def)

lemma readBytes_consumes:
  assumes "readBytes rd r n = Some (Inr b, r')"
  shows "length (pending r') + n = length (pending r)"
proof (cases "n \<le> length (pending r)")
  case True
  with readBytes_enough [OF this] assms show ?thesis by auto
next
  case False
  with readBytes_short [of r n] assms show ?thesis by auto
qed

lemma ParseCall_consumes:
  assumes "ParseCall rd (Some r) = Some (Ok m, r')"
  shows "\<exists>r''. r' = Some r'' \<and> length (pending r'') < length (pending r)"
proof -
  obtain x r1 where r1: "readBytes rd r 4 = Some (x, r1)" using readBytes_total by fastforce
  then obtain b where b: "x = Inr b" using assms by (cases x) (auto simp: ParseCall_def)
  obtain y r2 where r2: "readBytes rd r1 (unat (fst (fromLittleE32 b) - 4)) = Some (y, r2)"
    using readBytes_total by fastforce
  then obtain b2 where b2: "y = Inr b2"
    using assms r1 b by (cases y) (auto simp: ParseCall_def split: prod.splits if_splits)
  have "r' = Some r2"
    using assms r1 r2 b b2
    by (auto simp: ParseCall_def split: prod.splits if_splits res.splits)
  then show ?thesis
    using readBytes_consumes [of r 4 b r1]
      readBytes_consumes [of r1 "unat (fst (fromLittleE32 b) - 4)" b2 r2] r1 r2 b b2 by auto
qed

lemma ParseCall_empty: "pending r = [] \<Longrightarrow> \<exists>e r'. ParseCall rd (Some r) = Some (Err e, r')"
  using readBytes_short [of r 4] by (auto simp: ParseCall_def)

text \<open>A size field below four wraps the length of the rest; one beyond the limit is refused.\<close>

lemma ParseCall_undersized:
  assumes "pending r = le_bytes 4 (of_nat k :: u32) @ rest" "k < 4" "length rest + 4 < 2 ^ 32"
  shows "\<exists>e r'. ParseCall rd (Some r) = Some (Err e, r')"
proof -
  let ?len = "of_nat k :: u32"
  obtain r1 where r1: "readBytes rd r 4 = Some (Inr (le_bytes 4 ?len), r1)" "pending r1 = rest"
    using readBytes_append [of r "le_bytes 4 ?len" rest] assms(1) by auto
  have len: "unat ?len = k" using assms(2) by (simp add: unat_word_of_nat)
  then have "unat (?len - 4) = 2 ^ 32 - 4 + k" using assms(2) by (simp add: unat_sub_if_size word_size)
  then obtain e r2 where "readBytes rd r1 (unat (?len - 4)) = Some (Inl e, r2)"
    using readBytes_short [of r1 "unat (?len - 4)"] r1(2) assms(3) by auto
  moreover have "\<not> MaxMsgLen < ?len" using len assms(2) by (simp add: word_less_nat_alt)
  ultimately show ?thesis
    using r1(1) le32.get_enc [of ?len "[]"] by (simp add: ParseCall_def)
qed

lemma ParseCall_oversized:
  assumes "pending r = le_bytes 4 len @ rest" "MaxMsgLen < len"
  shows "\<exists>e r'. ParseCall rd (Some r) = Some (Err e, Some r') \<and> pending r' = rest"
proof -
  obtain r1 where r1: "readBytes rd r 4 = Some (Inr (le_bytes 4 len), r1)" "pending r1 = rest"
    using readBytes_append [of r "le_bytes 4 len" rest] assms(1) by auto
  then show ?thesis using le32.get_enc [of len "[]"] assms(2) by (simp add: ParseCall_def)
qed

end

section \<open>The sequential loop\<close>

text \<open>The replies to a list of requests handled in turn.\<close>

fun serve_calls :: "'c Srv \<Rightarrow> fcall list \<Rightarrow> 'c \<Rightarrow> (fcall list \<times> 'c) option" where
  "serve_calls srv [] c = Some ([], c)"
| "serve_calls srv (m # ms) c =
     (case handleCall srv m c of
        Some (Inr resp, c) \<Rightarrow>
          (case serve_calls srv ms c of
             Some (rs, c) \<Rightarrow> Some ((case resp of None \<Rightarrow> rs | Some r \<Rightarrow> r # rs), c)
           | None \<Rightarrow> None)
      | _ \<Rightarrow> None)"

text \<open>A writer that keeps what it is given, such as a connection that stays up.\<close>

definition keep_bytes :: "bytes writer" where
  "keep_bytes bs w = (None, w @ bs)"

lemma keep_bytes_apply: "keep_bytes bs w = (None, w @ bs)"
  by (simp add: keep_bytes_def)

context io_reader
begin

lemma handleIO_serves:
  assumes "pending r = concat (map fcall_bytes ms)" "list_all wf_fcall ms"
    "serve_calls srv ms c = Some (rs, c')" "list_all wf_fcall rs"
  shows "\<exists>e. handleIO srv rd keep_bytes (Some r) w c =
     Some (Returned e, w @ concat (map fcall_bytes rs), c')"
  using assms
proof (induction ms arbitrary: r c w rs)
  case Nil
  then obtain e r' where "ParseCall rd (Some r) = Some (Err e, r')"
    using ParseCall_empty [of r] by auto
  with Nil show ?case by (simp add: handleIO.simps)
next
  case (Cons m ms)
  obtain r1 where r1: "ParseCall rd (Some r) = Some (Ok m, Some r1)"
    "pending r1 = concat (map fcall_bytes ms)"
    using ParseCall_message [of m r "concat (map fcall_bytes ms)"] Cons.prems(1,2) by auto
  obtain resp c1 rs1 where h: "handleCall srv m c = Some (Inr resp, c1)"
    "serve_calls srv ms c1 = Some (rs1, c')" "rs = (case resp of None \<Rightarrow> rs1 | Some x \<Rightarrow> x # rs1)"
    using Cons.prems(3) by (auto split: option.splits sum.splits)
  have rs1: "list_all wf_fcall rs1" using Cons.prems(4) h(3) by (auto split: option.splits)
  note IH = Cons.IH [OF r1(2) _ h(2) rs1]
  show ?case
  proof (cases resp)
    case None
    then show ?thesis
      using IH [of w] Cons.prems(2) r1(1) h(1,3) by (subst handleIO.simps) simp
  next
    case (Some x)
    then have "fcall_Compose x = Some (fcall_bytes x)"
      using Cons.prems(4) h(3) by (simp add: fcall_Compose_enc)
    then show ?thesis
      using IH [of "w @ fcall_bytes x"] Cons.prems(2) r1(1) h(1,3) Some
        keep_bytes_apply [of "fcall_bytes x" w]
      by (subst handleIO.simps) simp
  qed
qed

lemma handleIO_total: "\<exists>x. handleIO srv rd wr (Some r) w c = Some x"
proof (induction "length (pending r)" arbitrary: r w c rule: less_induct)
  case less
  obtain x r' where p: "ParseCall rd (Some r) = Some (x, r')" using ParseCall_total by fastforce
  show ?case
  proof (cases x)
    case (Ok m)
    then obtain r1 where r1: "r' = Some r1" "length (pending r1) < length (pending r)"
      using ParseCall_consumes p by blast
    have IH: "\<exists>y. handleIO srv rd wr (Some r1) w' c1 = Some y" for w' c1
      using less [OF r1(2)] .
    show ?thesis
      using p Ok r1(1) IH
      by (subst handleIO.simps) (simp split: option.split prod.split sum.split)
  qed (use p in \<open>simp_all add: handleIO.simps\<close>)
qed

end

section \<open>Attaches under the name of the certificate\<close>

definition attach_ok :: "string \<Rightarrow> fcall \<Rightarrow> bool" where
  "attach_ok uname call = (case call of F_TAttach ta \<Rightarrow> uname = [] \<or> tat_Uname ta = uname | _ \<Rightarrow> True)"

primrec worker_ok :: "string \<Rightarrow> worker \<Rightarrow> bool" where
  "worker_ok uname Idle \<longleftrightarrow> True"
| "worker_ok uname (Got call ctx) \<longleftrightarrow> attach_ok uname call"
| "worker_ok uname (Handled call ctx ret) \<longleftrightarrow> attach_ok uname call"
| "worker_ok uname (Sending m) \<longleftrightarrow> True"
| "worker_ok uname Dead \<longleftrightarrow> True"

definition attaches_ok :: "string \<Rightarrow> ('c, 'r) aio \<Rightarrow> bool" where
  "attaches_ok uname a \<longleftrightarrow> list_all (attach_ok uname) (a_in a) \<and> list_all (worker_ok uname) (a_workers a)"

lemma uname_refused_None: "uname_refused uname call = None \<longleftrightarrow> attach_ok uname call"
  by (auto simp: uname_refused_def attach_ok_def split: fcall.split)

lemma worker_ok_update:
  "list_all (worker_ok uname) ws \<Longrightarrow> worker_ok uname w \<Longrightarrow> list_all (worker_ok uname) (ws[i := w])"
  by (auto simp: list_all_iff dest: set_update_subset_insert [THEN subsetD])

lemma attaches_step:
  assumes "aio_step srv rd uname a b" "attaches_ok uname a"
  shows "attaches_ok uname b"
  using assms(1)
proof (cases rule: aio_step.cases)
  case (handle i call ctx h ret c)
  have "worker_ok uname (a_workers a ! i)"
    using assms(2) handle(3) by (simp add: attaches_ok_def list_all_length)
  with handle assms(2) show ?thesis by (simp add: attaches_ok_def worker_ok_update)
next
  case (finish i call ctx ret res c)
  have "worker_ok uname (case res of Inl e \<Rightarrow> Dead | Inr None \<Rightarrow> Idle | Inr (Some m) \<Rightarrow> Sending m)"
    by (simp split: sum.split option.split)
  with finish(1) assms(2) show ?thesis by (simp add: attaches_ok_def worker_ok_update)
qed (use assms(2) in \<open>auto simp: attaches_ok_def worker_ok_update uname_refused_None\<close>)

lemma attaches_run:
  assumes "(aio_step srv rd uname)\<^sup>*\<^sup>* a b" "attaches_ok uname a"
  shows "attaches_ok uname b"
  using assms by (induction rule: rtranclp_induct) (auto intro: attaches_step)

lemma attaches_init: "attaches_ok uname (aio_init r c)"
  by (simp add: attaches_ok_def aio_init_def list_all_iff)

section \<open>Workers that have returned\<close>

definition all_dead :: "('c, 'r) aio \<Rightarrow> bool" where
  "all_dead a \<longleftrightarrow> (\<forall>w \<in> set (a_workers a). w = Dead)"

lemma all_dead_step:
  assumes "aio_step srv rd [] a b" "all_dead a"
  shows "all_dead b \<and> a_written b @ a_out b = a_written a @ a_out a"
proof -
  have dead: "a_workers a ! i = Dead" if "i < length (a_workers a)" for i
    using assms(2) that by (simp add: all_dead_def)
  from assms(1) show ?thesis
  proof (cases rule: aio_step.cases)
    case (read_refused call r m e)
    then show ?thesis by (auto simp: uname_refused_def split: fcall.splits)
  qed (use assms(2) dead in \<open>simp_all add: all_dead_def\<close>)
qed

lemma all_dead_run:
  assumes "(aio_step srv rd [])\<^sup>*\<^sup>* a b" "all_dead a"
  shows "all_dead b \<and> a_written b @ a_out b = a_written a @ a_out a"
  using assms
proof (induction rule: rtranclp_induct)
  case (step b c)
  then show ?case using all_dead_step [OF step.hyps(2)] by simp
qed simp

context io_reader
begin

lemma aio_read_call:
  assumes "a_status a = Serving" "a_reader a = Some r" "pending r = fcall_bytes m @ rest" "wf_fcall m"
    "attach_ok uname m" "length (a_in a) < 100"
  shows "\<exists>r'. aio_step srv rd uname a
      (a\<lparr>a_reader := Some r', a_in := a_in a @ [m], a_read := a_read a @ [m]\<rparr>) \<and> pending r' = rest"
proof -
  obtain r' where "ParseCall rd (Some r) = Some (Ok m, Some r')" "pending r' = rest"
    using ParseCall_message [OF assms(4,3)] by blast
  then show ?thesis
    using aio_step.read_call [of a rd m "Some r'" uname srv] assms by (auto simp: uname_refused_None)
qed

text \<open>Messages may arrive faster than the workers are scheduled.\<close>

lemma aio_queue_up:
  assumes "a_status a = Serving" "a_reader a = Some r"
    "pending r = concat (map fcall_bytes ms) @ rest" "list_all wf_fcall ms"
    "list_all (attach_ok uname) ms" "length (a_in a) + length ms \<le> 100"
  shows "\<exists>r'. (aio_step srv rd uname)\<^sup>*\<^sup>* a
      (a\<lparr>a_reader := Some r', a_in := a_in a @ ms, a_read := a_read a @ ms\<rparr>) \<and> pending r' = rest"
  using assms
proof (induction ms arbitrary: a r)
  case Nil
  then have "a\<lparr>a_reader := Some r, a_in := a_in a @ [], a_read := a_read a @ []\<rparr> = a" by simp
  then show ?case using Nil(3) by (intro exI [of _ r]) simp
next
  case (Cons m ms)
  obtain r1 where r1: "aio_step srv rd uname a
      (a\<lparr>a_reader := Some r1, a_in := a_in a @ [m], a_read := a_read a @ [m]\<rparr>)"
    "pending r1 = concat (map fcall_bytes ms) @ rest"
    using aio_read_call [of a r m "concat (map fcall_bytes ms) @ rest" uname srv] Cons.prems by auto
  let ?a1 = "a\<lparr>a_reader := Some r1, a_in := a_in a @ [m], a_read := a_read a @ [m]\<rparr>"
  obtain r' where "(aio_step srv rd uname)\<^sup>*\<^sup>* ?a1
      (?a1\<lparr>a_reader := Some r', a_in := a_in ?a1 @ ms, a_read := a_read ?a1 @ ms\<rparr>)" "pending r' = rest"
    using Cons.IH [of ?a1 r1] Cons.prems r1(2) by auto
  then show ?case
    using converse_rtranclp_into_rtranclp [where r = "aio_step srv rd uname", OF r1(1)] by (intro exI [of _ r']) simp
qed

lemma aio_overflow:
  assumes "pending r = concat (map fcall_bytes ms) @ rest" "list_all wf_fcall ms"
    "list_all (attach_ok uname) ms" "100 < length ms"
  shows "\<exists>b. (aio_step srv rd uname)\<^sup>*\<^sup>* (aio_init r c) b \<and> a_status b = Dying"
proof -
  let ?q = "take 100 ms" and ?m = "ms ! 100"
  have ms: "ms = ?q @ ?m # drop 101 ms"
    using assms(4) id_take_nth_drop [of 100 ms] by simp
  have q: "list_all wf_fcall ?q" "list_all (attach_ok uname) ?q" "wf_fcall ?m" "attach_ok uname ?m"
    using assms(2-4) by (auto simp: list_all_length)
  have "pending r = concat (map fcall_bytes ?q) @
      (fcall_bytes ?m @ concat (map fcall_bytes (drop 101 ms)) @ rest)"
    using assms(1) by (subst (asm) ms) simp
  then obtain r1 where r1: "(aio_step srv rd uname)\<^sup>*\<^sup>* (aio_init r c)
      ((aio_init r c)\<lparr>a_reader := Some r1, a_in := ?q, a_read := ?q\<rparr>)"
    "pending r1 = fcall_bytes ?m @ concat (map fcall_bytes (drop 101 ms)) @ rest"
    using aio_queue_up [of "aio_init r c" r ?q _ uname srv] q
    by (fastforce simp: aio_init_def)
  let ?a = "(aio_init r c)\<lparr>a_reader := Some r1, a_in := ?q, a_read := ?q\<rparr>"
  obtain r2 where "ParseCall rd (Some r1) = Some (Ok ?m, Some r2)"
    using ParseCall_message [OF q(3) r1(2)] by blast
  let ?b = "?a\<lparr>a_reader := Some r2, a_status := Dying, a_read := a_read ?a @ [?m]\<rparr>"
  have "aio_step srv rd uname ?a ?b"
    using assms(4) q(4) \<open>ParseCall rd (Some r1) = Some (Ok ?m, Some r2)\<close>
    by (intro aio_step.read_full) (auto simp: aio_init_def uname_refused_None)
  with r1(1) have "(aio_step srv rd uname)\<^sup>*\<^sup>* (aio_init r c) ?b" by (rule rtranclp.rtrancl_into_rtrancl)
  then show ?thesis by (intro exI [of _ ?b]) simp
qed

end

text \<open>
  A message that is no request, such as a reply, makes the worker that takes it return; as many
  of them as there are workers leave nobody to answer.
\<close>

context io_reader
begin

lemma aio_worker_dies:
  assumes "a_status a = Serving" "a_reader a = Some r" "pending r = fcall_bytes m @ rest" "wf_fcall m"
    "dispatch srv m = None" "a_in a = []" "a_workers a = replicate k Dead @ Idle # ws"
  shows "\<exists>r' c'. (aio_step srv rd [])\<^sup>*\<^sup>* a (a\<lparr>a_reader := Some r', a_conn := c',
      a_workers := replicate (Suc k) Dead @ ws, a_read := a_read a @ [m]\<rparr>) \<and> pending r' = rest"
proof -
  have attach: "attach_ok [] m" by (simp add: attach_ok_def split: fcall.split)
  obtain r1 where r1: "aio_step srv rd [] a
      (a\<lparr>a_reader := Some r1, a_in := a_in a @ [m], a_read := a_read a @ [m]\<rparr>)" "pending r1 = rest"
    using aio_read_call [OF assms(1-4) attach] assms(6) by auto
  let ?a1 = "a\<lparr>a_reader := Some r1, a_in := [m], a_read := a_read a @ [m]\<rparr>"
  obtain ctx c where c: "Conn_TagContext srv (GetTag m) (a_conn a) = (ctx, c)" by fastforce
  have upd: "(replicate k Dead @ Idle # ws)[k := w] = replicate k Dead @ w # ws" for w
    by (simp add: list_update_append)
  let ?a2 = "?a1\<lparr>a_in := [], a_workers := replicate k Dead @ Got m ctx # ws, a_conn := c\<rparr>"
  have "aio_step srv rd [] ?a1 ?a2"
    using aio_step.take_call [of ?a1 k m "[]" srv ctx c rd "[]"] c assms(1,7) upd
    by (simp add: nth_append)
  moreover
  let ?a3 = "?a2\<lparr>a_workers := replicate k Dead @ Dead # ws\<rparr>"
  have "(replicate k Dead @ Got m ctx # ws)[k := Dead] = replicate k Dead @ Dead # ws"
    by (simp add: list_update_append)
  then have "aio_step srv rd [] ?a2 ?a3"
    using aio_step.invalid [of ?a2 k m ctx srv rd "[]"] assms(1,5) by (simp add: nth_append)
  ultimately have "(aio_step srv rd [])\<^sup>*\<^sup>* a ?a3"
    using r1(1) assms(6) by (simp add: converse_rtranclp_into_rtranclp)
  moreover have "?a3 = a\<lparr>a_reader := Some r1, a_conn := c,
      a_workers := replicate (Suc k) Dead @ ws, a_read := a_read a @ [m]\<rparr>"
    using assms(6) by (simp add: replicate_append_same [symmetric])
  ultimately show ?thesis using r1(2) by metis
qed

lemma aio_workers_die:
  assumes "a_status a = Serving" "a_reader a = Some r"
    "pending r = concat (map fcall_bytes ms) @ rest" "list_all wf_fcall ms"
    "list_all (\<lambda>m. dispatch srv m = None) ms" "a_in a = []"
    "a_workers a = replicate k Dead @ replicate (length ms) Idle"
  shows "\<exists>b r'. (aio_step srv rd [])\<^sup>*\<^sup>* a b \<and> all_dead b \<and> a_status b = Serving \<and>
    a_reader b = Some r' \<and> pending r' = rest \<and> a_in b = [] \<and>
    a_written b @ a_out b = a_written a @ a_out a"
  using assms
proof (induction ms arbitrary: a r k)
  case Nil
  then show ?case by (intro exI [of _ a] exI [of _ r]) (simp add: all_dead_def)
next
  case (Cons m ms)
  obtain r1 c1 where step: "(aio_step srv rd [])\<^sup>*\<^sup>* a (a\<lparr>a_reader := Some r1, a_conn := c1,
      a_workers := replicate (Suc k) Dead @ replicate (length ms) Idle, a_read := a_read a @ [m]\<rparr>)"
    "pending r1 = concat (map fcall_bytes ms) @ rest"
    using aio_worker_dies [of a r m "concat (map fcall_bytes ms) @ rest" srv k
        "replicate (length ms) Idle"] Cons.prems by auto
  let ?a1 = "a\<lparr>a_reader := Some r1, a_conn := c1,
      a_workers := replicate (Suc k) Dead @ replicate (length ms) Idle, a_read := a_read a @ [m]\<rparr>"
  obtain b r' where "(aio_step srv rd [])\<^sup>*\<^sup>* ?a1 b" "all_dead b" "a_status b = Serving"
    "a_reader b = Some r'" "pending r' = rest" "a_in b = []"
    "a_written b @ a_out b = a_written ?a1 @ a_out ?a1"
    using Cons.IH [of ?a1 r1 "Suc k"] Cons.prems step(2) by auto
  with step(1) show ?case
    by (intro exI [of _ b] exI [of _ r']) (auto intro: rtranclp_trans)
qed

end

context srv_contract
begin

lemma serve_calls_tags:
  "ok c \<Longrightarrow> serve_calls srv ms c = Some (rs, c') \<Longrightarrow> map GetTag rs = map GetTag ms \<and> ok c'"
proof (induction ms arbitrary: c rs)
  case (Cons m ms)
  obtain resp c1 rs1 where h: "handleCall srv m c = Some (Inr resp, c1)"
    "serve_calls srv ms c1 = Some (rs1, c')" "rs = (case resp of None \<Rightarrow> rs1 | Some x \<Rightarrow> x # rs1)"
    using Cons.prems(2) by (auto split: option.splits sum.splits)
  obtain x where "resp = Some x" "GetTag x = GetTag m" "ok c1"
    using handleCall_tag [OF Cons.prems(1) h(1)] by metis
  with Cons.IH [OF _ h(2)] h(3) show ?case by simp
qed simp

end

end
