(* ===== verification/Srv_Pipe.thy ===== *)
theory Srv_Pipe
  imports Go9p_Loops
begin

text \<open>
  The in-process pipe of srv.go, the transport between \<^verbatim>\<open>PostSrv\<close> and the 9P
  multiplexer, and its proof as an \<open>io_reader\<close>.

  A pipe end reads from a channel of byte slices. \<open>p_in\<close> is the sequence of slices the channel
  still delivers before it is closed; \<^const>\<open>None\<close> is a nil slice, which \<^verbatim>\<open>Read\<close> cannot tell
  from a closed channel. A receive that waits for the peer is a receive of what the peer sends
  next, so waiting does not appear; neither does a send that waits for room in the channel.
\<close>

record pipe =
  p_in :: "bytes option list"
  p_inbs :: bytes

fun pipe_Read :: "pipe \<Rightarrow> nat \<Rightarrow> bytes \<times> go_error option \<times> pipe" where
  "pipe_Read p n =
     (if 0 < length (p_inbs p) then
        (let copied = min n (length (p_inbs p))
         in (take copied (p_inbs p), None, p\<lparr>p_inbs := drop copied (p_inbs p)\<rparr>))
      else
        (case p_in p of
           [] \<Rightarrow> ([], Some (ErrorString ''pipe closed.''), p)
         | None # rest \<Rightarrow> ([], Some (ErrorString ''pipe closed.''), p\<lparr>p_in := rest\<rparr>)
         | Some bs # rest \<Rightarrow>
             (let copied = min n (length bs);
                  p' = p\<lparr>p_in := rest\<rparr>
              in (take copied bs, None,
                  if copied < length bs then p'\<lparr>p_inbs := drop copied bs\<rparr> else p'))))"

declare pipe_Read.simps [simp del]

text \<open>Writing at one end appends the slice to what the other end receives.\<close>

definition pipe_Write :: "bytes \<Rightarrow> pipe \<Rightarrow> nat \<times> go_error option \<times> pipe" where
  "pipe_Write b peer = (length b, None, peer\<lparr>p_in := p_in peer @ [Some b]\<rparr>)"

text \<open>Each end of a fresh pair starts with an empty channel and no left-over bytes.\<close>

definition newPipePair :: "pipe \<times> pipe" where
  "newPipePair = (\<lparr>p_in = [], p_inbs = []\<rparr>, \<lparr>p_in = [], p_inbs = []\<rparr>)"

section \<open>The pipe is a reader\<close>

fun until_nil :: "bytes option list \<Rightarrow> bytes" where
  "until_nil [] = []"
| "until_nil (None # ms) = []"
| "until_nil (Some b # ms) = b @ until_nil ms"

definition pipe_pending :: "pipe \<Rightarrow> bytes" where
  "pipe_pending p = p_inbs p @ until_nil (p_in p)"

definition pipe_rank :: "pipe \<Rightarrow> nat" where
  "pipe_rank p = length (p_in p)"

interpretation pipe: io_reader pipe_Read pipe_pending pipe_rank
proof
  fix n :: nat and r r' :: pipe and bs e
  assume n: "0 < n"
  show "length bs \<le> n \<and> pipe_pending r = bs @ pipe_pending r' \<and> (bs \<noteq> [] \<or> pipe_rank r' < pipe_rank r)"
    if "pipe_Read r n = (bs, None, r')"
    using that n
    by (auto simp: pipe_Read.simps Let_def pipe_pending_def pipe_rank_def min_def
        split: if_splits list.splits option.splits)
  show "pipe_pending r = []" if "pipe_Read r n = (bs, Some e, r')"
    using that by (auto simp: pipe_Read.simps Let_def pipe_pending_def
        split: if_splits list.splits option.splits)
qed

lemma until_nil_append:
  "None \<notin> set ms \<Longrightarrow> until_nil (ms @ ks) = until_nil ms @ until_nil ks"
  by (induction ms rule: until_nil.induct) auto

lemma pipe_Write_pending:
  "None \<notin> set (p_in p) \<Longrightarrow> pipe_Write b p = (n, e, p') \<Longrightarrow>
   pipe_pending p' = pipe_pending p @ b \<and> None \<notin> set (p_in p') \<and> n = length b \<and> e = None"
  by (auto simp: pipe_Write_def pipe_pending_def until_nil_append)

end
