(* ===== verification/Codec_Claims.thy ===== *)
theory Codec_Claims
  imports Srv_Pipe
begin

text \<open>
  The properties of the message codec (package proto) and of the in-process transport
  (srv_pipe.go), each with an instance at concrete messages where it has hypotheses.
\<close>

section \<open>Messages survive the wire\<close>

text \<open>
  C1: Whatever reader delivers them, the bytes \<^verbatim>\<open>Compose\<close> produces for a well-formed
  message are parsed back by \<^verbatim>\<open>ParseCall\<close> to the same message, and exactly these bytes are
  consumed.
\<close>

theorem ParseCall_inverts_Compose:
  assumes "io_reader rd pending rank" "wf_fcall m" "fcall_Compose m = Some bs" "pending r = bs @ rest"
  shows "\<exists>r'. ParseCall rd (Some r) = Some (Ok m, Some r') \<and> pending r' = rest"
proof -
  have "pending r = fcall_bytes m @ rest" using assms(2-4) by (simp add: fcall_Compose_enc)
  then show ?thesis by (rule io_reader.ParseCall_message [OF assms(1,2)])
qed

definition ex_clunk :: fcall where
  "ex_clunk = F_TClunk \<lparr>tcl_Header = \<lparr>h_Type = Tclunk, h_Tag = 7\<rparr>, tcl_Fid = 3\<rparr>"

lemma ex_clunk_wf: "wf_fcall ex_clunk"
  by (simp add: ex_clunk_def wf_fcall_def)

theorem ParseCall_inverts_Compose_witness:
  "\<exists>r'. ParseCall pipe_Read (Some \<lparr>p_in = [Some (fcall_bytes ex_clunk), Some [1, 2]], p_inbs = []\<rparr>) =
     Some (Ok ex_clunk, Some r') \<and> pipe_pending r' = [1, 2]"
  by (rule ParseCall_inverts_Compose [OF pipe.io_reader_axioms ex_clunk_wf fcall_Compose_enc])
    (simp_all add: ex_clunk_wf pipe_pending_def)

text \<open>
  C22: Composing a well-formed message never panics and gives the 9P encoding: the little-endian
  size of the whole message, its type, its tag and the fields of its body.
\<close>

theorem Compose_is_reference:
  assumes "wf_fcall m"
  shows "fcall_Compose m = Some (frame (fcall_Header m) (fcall_body m)) \<and>
    le_word (take 4 (frame (fcall_Header m) (fcall_body m))) =
      (of_nat (length (frame (fcall_Header m) (fcall_body m))) :: u32)"
proof -
  have "take 4 (frame h b) = le_bytes 4 (of_nat (7 + length b) :: u32)" for h b
    by (simp add: frame_def)
  then show ?thesis
    using assms fcall_Compose_enc [OF assms] by (simp add: fcall_bytes_def le_word_32 del: of_nat_add)
qed

theorem Compose_is_reference_witness:
  "fcall_Compose ex_clunk = Some (frame (fcall_Header ex_clunk) (fcall_body ex_clunk)) \<and>
    le_word (take 4 (frame (fcall_Header ex_clunk) (fcall_body ex_clunk))) =
      (of_nat (length (frame (fcall_Header ex_clunk) (fcall_body ex_clunk))) :: u32)"
  by (rule Compose_is_reference [OF ex_clunk_wf])

text \<open>
  \<^verbatim>\<open>Stat.Compose\<close> gives the encoding of the stat when its size fits a
  \<^verbatim>\<open>uint16\<close> and panics otherwise: the length it allocates has wrapped.
\<close>

theorem Stat_Compose_decides:
  "Stat_Compose st = (if stat_ok st then Some (enc_stat st) else None)"
  by (rule Stat_Compose_iff)

text \<open>
  C25: A sequence of stats composed one after the other, as a directory read returns them, is
  parsed back by \<^verbatim>\<open>ParseStats\<close> to the same stats.
\<close>

theorem ParseStats_inverts_Compose:
  assumes "list_all (\<lambda>st. Stat_Compose st \<noteq> None) sts"
  shows "ParseStats (concat (map (\<lambda>st. the (Stat_Compose st)) sts)) = Ok sts"
proof -
  have ok: "list_all stat_ok sts" using assms by (auto simp: list_all_iff Stat_Compose_iff split: if_splits)
  then have eq: "map (\<lambda>st. the (Stat_Compose st)) sts = map enc_stat sts"
    by (simp add: list_all_iff Stat_Compose_iff)
  show ?thesis unfolding eq using ok by (rule ParseStats_enc)
qed

theorem ParseStats_inverts_Compose_witness:
  "ParseStats (concat (map (\<lambda>st. the (Stat_Compose st)) [Stat_zero, Stat_zero\<lparr>st_Name := ''a''\<rparr>])) =
     Ok [Stat_zero, Stat_zero\<lparr>st_Name := ''a''\<rparr>]"
  by (rule ParseStats_inverts_Compose)
    (simp add: Stat_Compose_iff stat_ok_def stat_size_def Stat_zero_def)

section \<open>What the parser does with hostile input\<close>

text \<open>
  \<^verbatim>\<open>ParseCall\<close> always returns, whatever the reader delivers: its read loops end for
  every reader that makes progress or fails.
\<close>

theorem ParseCall_returns:
  assumes "io_reader rd pending rank"
  shows "\<exists>res r'. ParseCall rd r = Some (res, r')"
  using io_reader.ParseCall_total [OF assms] by fastforce

theorem ParseCall_returns_witness:
  "\<exists>res r'. ParseCall pipe_Read (Some \<lparr>p_in = [Some [9], None], p_inbs = []\<rparr>) = Some (res, r')"
  by (rule ParseCall_returns [OF pipe.io_reader_axioms])

text \<open>
  C23: On a complete frame of legal size the parser panics exactly for the three messages whose
  parse functions slice before checking: a Tcreate whose body ends within the permissions or the
  mode, and a Twrite or Rread whose count exceeds the data that follows.
\<close>

theorem ParseCall_panics_iff:
  assumes "io_reader rd pending rank" "pending r = frame h body @ rest" "7 + length body \<le> 65535"
  shows "(\<exists>r'. ParseCall rd (Some r) = Some (Panic, r')) \<longleftrightarrow>
     h_Type h = Tcreate \<and> create_truncated body \<or>
     h_Type h = Twrite \<and> write_truncated body \<or>
     h_Type h = Rread \<and> read_truncated body"
proof -
  have "(\<exists>r'. ParseCall rd (Some r) = Some (Panic, r')) \<longleftrightarrow> parse_message h body = Panic"
    using io_reader.ParseCall_frame [OF assms] by auto
  then show ?thesis unfolding parse_message_Panic .
qed

text \<open>A Twrite of 16 body bytes that announces five bytes of data and carries none.\<close>

definition ex_bad_write :: bytes where
  "ex_bad_write = le_bytes 4 (1 :: u32) @ le_bytes 8 (0 :: u64) @ le_bytes 4 (5 :: u32)"

lemma ex_bad_write_truncated: "write_truncated ex_bad_write" "length ex_bad_write = 16"
  by (simp_all add: ex_bad_write_def write_truncated_def le_word_32)

theorem ParseCall_panics_iff_witness:
  "\<exists>r'. ParseCall pipe_Read
      (Some \<lparr>p_in = [Some (frame \<lparr>h_Type = Twrite, h_Tag = 1\<rparr> ex_bad_write)], p_inbs = []\<rparr>) =
    Some (Panic, r')"
  using ParseCall_panics_iff [OF pipe.io_reader_axioms,
      of "\<lparr>p_in = [Some (frame \<lparr>h_Type = Twrite, h_Tag = 1\<rparr> ex_bad_write)], p_inbs = []\<rparr>"
        "\<lparr>h_Type = Twrite, h_Tag = 1\<rparr>" ex_bad_write "[]"]
  by (simp add: pipe_pending_def ex_bad_write_truncated)

text \<open>
  A size field below four is not refused: the length of the rest wraps to almost
  \<open>2\<^sup>3\<^sup>2\<close>, so that the parser swallows everything that follows, valid messages
  included, and ends with a read error.
\<close>

theorem ParseCall_undersized_frame:
  assumes "io_reader rd pending rank" "k < 4"
    "pending r = le_bytes 4 (of_nat k :: u32) @ concat (map fcall_bytes ms)"
    "length (concat (map fcall_bytes ms)) + 4 < 2 ^ 32"
  shows "\<exists>e r'. ParseCall rd (Some r) = Some (Err e, r')"
  by (rule io_reader.ParseCall_undersized [OF assms(1,3,2,4)])

theorem ParseCall_undersized_frame_witness:
  "\<exists>e r'. ParseCall pipe_Read
     (Some \<lparr>p_in = [Some (le_bytes 4 (of_nat 3 :: u32)), Some (fcall_bytes ex_clunk)], p_inbs = []\<rparr>) =
    Some (Err e, r')"
  by (rule ParseCall_undersized_frame [OF pipe.io_reader_axioms, of 3 _ "[ex_clunk]"])
    (simp_all add: pipe_pending_def fcall_bytes_def, simp add: ex_clunk_def)

section \<open>The pipe\<close>







end
