(* ===== verification/Fs_Interface.thy ===== *)
theory Fs_Interface
  imports Fcall_Roundtrip
begin

text \<open>
  What the 9P server of package fs (fs/server.go, fs/permissions.go) works on: the interfaces
  \<^verbatim>\<open>FSNode\<close>, \<^verbatim>\<open>File\<close>, \<^verbatim>\<open>Dir\<close> and \<^verbatim>\<open>ModDir\<close> of fs/filesystem.go as a
  record of operations over an abstract state \<open>'s\<close> that holds the node objects, the \<^verbatim>\<open>FS\<close>
  struct with its hooks, and the per-connection state.

  Every operation returns \<^const>\<open>None\<close> when it panics, otherwise its results and the next state.
  The locale \<open>fs_nodes\<close> states the laws of the interfaces that the server relies on; the static
  file tree interprets it.
\<close>

section \<open>The node interfaces (fs/filesystem.go)\<close>

text \<open>The dynamic type of a node, as the type switches and assertions of the server see it.\<close>

datatype kind = KFile | KDir | KModDir

record ('s, 'n) fsops =
  op_kind :: "'n \<Rightarrow> 's \<Rightarrow> kind"
  op_Stat :: "'n \<Rightarrow> 's \<Rightarrow> (Stat \<times> 's) option"
  op_WriteStat :: "'n \<Rightarrow> Stat \<Rightarrow> 's \<Rightarrow> (go_error option \<times> 's) option"
  op_Parent :: "'n \<Rightarrow> 's \<Rightarrow> ('n option \<times> 's) option"
  op_Children :: "'n \<Rightarrow> 's \<Rightarrow> ((string \<times> 'n) list \<times> 's) option"
  op_AddChild :: "'n \<Rightarrow> 'n \<Rightarrow> 's \<Rightarrow> (go_error option \<times> 's) option"
  op_Open :: "'n \<Rightarrow> u64 \<Rightarrow> Mode \<Rightarrow> 's \<Rightarrow> (go_error option \<times> 's) option"
  op_Read :: "'n \<Rightarrow> u64 \<Rightarrow> u64 \<Rightarrow> u64 \<Rightarrow> 's \<Rightarrow> ((go_error + bytes) \<times> 's) option"
  op_Write :: "'n \<Rightarrow> u64 \<Rightarrow> u64 \<Rightarrow> bytes \<Rightarrow> 's \<Rightarrow> ((go_error + u32) \<times> 's) option"
  op_Close :: "'n \<Rightarrow> u64 \<Rightarrow> 's \<Rightarrow> (go_error option \<times> 's) option"

abbreviation isFile :: "('s, 'n) fsops \<Rightarrow> 'n \<Rightarrow> 's \<Rightarrow> bool" where
  "isFile ops n s \<equiv> op_kind ops n s = KFile"

abbreviation isDir :: "('s, 'n) fsops \<Rightarrow> 'n \<Rightarrow> 's \<Rightarrow> bool" where
  "isDir ops n s \<equiv> op_kind ops n s = KDir \<or> op_kind ops n s = KModDir"

abbreviation isModDir :: "('s, 'n) fsops \<Rightarrow> 'n \<Rightarrow> 's \<Rightarrow> bool" where
  "isModDir ops n s \<equiv> op_kind ops n s = KModDir"

section \<open>The file system and its hooks (fs/filesystem.go)\<close>

text \<open>
  The hooks are functions of the embedding program. \<^verbatim>\<open>WalkFail\<close> may return no node and no
  error. \<open>fs_authFile\<close> stands for the stream file \<^verbatim>\<open>Auth\<close> creates and opens when an
  authentication function is configured.
\<close>

type_synonym ('s, 'n) create_hook =
  "'n \<Rightarrow> string \<Rightarrow> string \<Rightarrow> u32 \<Rightarrow> u8 \<Rightarrow> 's \<Rightarrow> ((go_error + 'n option) \<times> 's) option"

record ('s, 'n) FS =
  fs_Root :: 'n
  fs_CreateFile :: "('s, 'n) create_hook option"
  fs_CreateDir :: "('s, 'n) create_hook option"
  fs_WalkFail :: "('n \<Rightarrow> string \<Rightarrow> 's \<Rightarrow> ((go_error + 'n option) \<times> 's) option) option"
  fs_RemoveFile :: "('n \<Rightarrow> 's \<Rightarrow> (go_error option \<times> 's) option) option"
  fs_ignorePerms :: bool
  fs_authFile :: "(u64 \<Rightarrow> 's \<Rightarrow> ((go_error + 'n) \<times> 's) option) option"

section \<open>Connections (fs/server.go)\<close>

text \<open>The dynamically typed \<^verbatim>\<open>extra\<close> field of a fid.\<close>

datatype 'n extra = ExNil | ExError go_error | ExString string | ExNodes "'n list"

record 'n fidInfo =
  fi_n :: 'n
  fi_openMode :: Mode
  fi_openOffset :: u64
  fi_uname :: string
  fi_extra :: "'n extra"

definition newFidInfo :: "string \<Rightarrow> 'n \<Rightarrow> 'n fidInfo" where
  "newFidInfo uname n =
     \<lparr>fi_n = n, fi_openMode = ONone, fi_openOffset = 0, fi_uname = uname, fi_extra = ExNil\<rparr>"

definition deriveInfo :: "'n fidInfo \<Rightarrow> 'n \<Rightarrow> 'n fidInfo" where
  "deriveInfo i n =
     \<lparr>fi_n = n, fi_openMode = ONone, fi_openOffset = 0, fi_uname = fi_uname i, fi_extra = ExNil\<rparr>"

text \<open>
  Each fid owns its \<^verbatim>\<open>fidInfo\<close> object (every store puts a fresh one), so the map holds the
  objects themselves. \<open>c_tags\<close> maps a tag to its context; contexts are numbered, and
  \<open>c_cancelled\<close> tells which have been cancelled.
\<close>

record 'n conn =
  c_connID :: u32
  c_fids :: "u32 \<rightharpoonup> 'n fidInfo"
  c_tags :: "u16 \<rightharpoonup> nat"
  c_nextctx :: nat
  c_cancelled :: "nat \<Rightarrow> bool"
  c_msize :: u32

definition fids_Store :: "u32 \<Rightarrow> 'n fidInfo \<Rightarrow> 'n conn \<Rightarrow> 'n conn" where
  "fids_Store fid info c = c\<lparr>c_fids := (c_fids c)(fid \<mapsto> info)\<rparr>"

definition fids_Delete :: "u32 \<Rightarrow> 'n conn \<Rightarrow> 'n conn" where
  "fids_Delete fid c = c\<lparr>c_fids := (c_fids c)(fid := None)\<rparr>"

definition toConnFid :: "'n conn \<Rightarrow> u32 \<Rightarrow> u64" where
  "toConnFid c fid =
     (let bcid = (ucast (c_connID c) :: u64);
          bcid = push_bit 32 bcid;
          bcid = bcid OR ucast fid
      in bcid)"

definition TagContext :: "u16 \<Rightarrow> 'n conn \<Rightarrow> nat \<times> 'n conn" where
  "TagContext tag c =
     (case c_tags c tag of
        None \<Rightarrow> (let ctx = c_nextctx c
                 in (ctx, c\<lparr>c_tags := (c_tags c)(tag \<mapsto> ctx), c_nextctx := Suc ctx\<rparr>))
      | Some ctx \<Rightarrow> (ctx, c))"

definition DropContext :: "u16 \<Rightarrow> 'n conn \<Rightarrow> 'n conn" where
  "DropContext tag c =
     (case c_tags c tag of
        None \<Rightarrow> c
      | Some ctx \<Rightarrow> c\<lparr>c_tags := (c_tags c)(tag := None),
                      c_cancelled := (c_cancelled c)(ctx := True)\<rparr>)"

record server =
  sv_currConnId :: u32

definition NewConn :: "server \<Rightarrow> 'n conn \<times> server" where
  "NewConn sv =
     (let id = sv_currConnId sv + 1
      in (\<lparr>c_connID = id, c_fids = Map.empty, c_tags = Map.empty, c_nextctx = 0,
           c_cancelled = (\<lambda>_. False), c_msize = 0\<rparr>,
          sv\<lparr>sv_currConnId := id\<rparr>))"

section \<open>The laws the server relies on\<close>

text \<open>
  \<open>valid\<close> is the provider's invariant on its objects and \<open>view\<close> what a client can observe of
  them. The observing operations keep both: asking for a stat, the parent or the children and
  reading change nothing observable, a repeated stat gives the same answer, the children's names
  are distinct and a read returns at most the bytes asked for.
\<close>

locale fs_nodes =
  fixes ops :: "('s, 'n) fsops"
    and valid :: "'s \<Rightarrow> bool"
    and view :: "'s \<Rightarrow> 'v"
  assumes Stat_stable: "valid s \<Longrightarrow> op_Stat ops n s = Some (st, s') \<Longrightarrow>
      valid s' \<and> view s' = view s \<and> op_Stat ops n s' = Some (st, s')"
    and view_Stat: "valid s \<Longrightarrow> valid s' \<Longrightarrow> view s = view s' \<Longrightarrow>
      map_option fst (op_Stat ops n s) = map_option fst (op_Stat ops n s')"
    and view_kind: "view s = view s' \<Longrightarrow> op_kind ops n s = op_kind ops n s'"
    and Parent_view: "valid s \<Longrightarrow> op_Parent ops n s = Some (p, s') \<Longrightarrow>
      valid s' \<and> view s' = view s"
    and Children_view: "valid s \<Longrightarrow> op_Children ops n s = Some (cs, s') \<Longrightarrow>
      valid s' \<and> view s' = view s \<and> distinct (map fst cs)"
    and Read_view: "valid s \<Longrightarrow> op_Read ops n fid off cnt s = Some (r, s') \<Longrightarrow>
      valid s' \<and> view s' = view s"
    and Read_bounded: "valid s \<Longrightarrow> op_Read ops n fid off cnt s = Some (Inr d, s') \<Longrightarrow>
      length d \<le> unat cnt"

text \<open>
  The updating operations keep the invariant, and a refused change of the stat changes nothing.
\<close>

locale fs_updates = fs_nodes +
  assumes WriteStat_refused: "valid s \<Longrightarrow> op_WriteStat ops n st s = Some (Some err, s') \<Longrightarrow>
      view s' = view s"
    and WriteStat_valid: "valid s \<Longrightarrow> op_WriteStat ops n st s = Some (r, s') \<Longrightarrow> valid s'"
    and Open_valid: "valid s \<Longrightarrow> op_Open ops n fid m s = Some (e, s') \<Longrightarrow> valid s'"
    and Write_valid: "valid s \<Longrightarrow> op_Write ops n fid off d s = Some (w, s') \<Longrightarrow>
      length d < 2 ^ 32 \<Longrightarrow> valid s'"
    and Close_valid: "valid s \<Longrightarrow> op_Close ops n fid s = Some (e, s') \<Longrightarrow> valid s'"
    and AddChild_valid: "valid s \<Longrightarrow> op_AddChild ops p n s = Some (e, s') \<Longrightarrow> valid s'"

section \<open>Connection fids are unique\<close>

lemma toConnFid_high: "ucast (drop_bit 32 (toConnFid c fid)) = c_connID c"
  by (rule bit_word_eqI) (auto simp: toConnFid_def Let_def bit_simps dest: bit_imp_le_length)

lemma toConnFid_low: "ucast (toConnFid c fid) = fid"
  by (rule bit_word_eqI) (auto simp: toConnFid_def Let_def bit_simps)

lemma toConnFid_inj:
  "toConnFid c fid = toConnFid c' fid' \<Longrightarrow> c_connID c = c_connID c' \<and> fid = fid'"
  by (metis toConnFid_high toConnFid_low)

end
