(* ===== verification/Permissions.thy ===== *)
theory Permissions
  imports Fs_Interface
begin

text \<open>
  The permission checks of fs/permissions.go. They ask the node for its stat once to relate the
  user to it and once more for the mode bits; on providers whose stats are stable the two answers
  agree and the check is the function \<open>permits\<close> of that one stat.
\<close>

abbreviation (input) "ugo_user \<equiv> 0 :: u8"
abbreviation (input) "ugo_group \<equiv> 1 :: u8"
abbreviation (input) "ugo_other \<equiv> 2 :: u8"

definition userInGroup :: "string \<Rightarrow> string \<Rightarrow> bool" where
  "userInGroup user grp \<longleftrightarrow> user = grp"

definition userRelation :: "('s, 'n) fsops \<Rightarrow> string \<Rightarrow> 'n \<Rightarrow> 's \<Rightarrow> (u8 \<times> 's) option" where
  "userRelation ops user f s = do {
     (st, s) \<leftarrow> op_Stat ops f s;
     Some (if user = st_Uid st then ugo_user
           else if userInGroup user (st_Gid st) then ugo_group
           else ugo_other, s)
   }"

definition omodePermits :: "u8 \<Rightarrow> Mode \<Rightarrow> bool" where
  "omodePermits perm omode =
     (if omode = Oread then perm AND 0x4 \<noteq> 0
      else if omode = Owrite then perm AND 0x2 \<noteq> 0
      else if omode = Ordwr then perm AND 0x2 \<noteq> 0 \<and> perm AND 0x4 \<noteq> 0
      else if omode = Oexec then perm AND 0x01 \<noteq> 0
      else False)"

definition openPermission :: "('s, 'n) fsops \<Rightarrow> 'n \<Rightarrow> string \<Rightarrow> Mode \<Rightarrow> 's \<Rightarrow> (bool \<times> 's) option" where
  "openPermission ops f user omode s = do {
     (relation, s) \<leftarrow> userRelation ops user f s;
     if relation = ugo_user then do {
       (st, s) \<leftarrow> op_Stat ops f s;
       Some (omodePermits (ucast (drop_bit 6 (st_Mode st)) AND 0x07) omode, s)
     } else if relation = ugo_group then do {
       (st, s) \<leftarrow> op_Stat ops f s;
       Some (omodePermits (ucast (drop_bit 3 (st_Mode st)) AND 0x07) omode, s)
     } else if relation = ugo_other then do {
       (st, s) \<leftarrow> op_Stat ops f s;
       Some (omodePermits (ucast (st_Mode st) AND 0x07) omode, s)
     } else Some (False, s)
   }"

section \<open>The reference check\<close>

text \<open>
  The Unix reading of the nine mode bits: the class of the user picks a triple of bits, whose
  bits 2, 1 and 0 are the read, write and execute permission.
\<close>

definition class_shift :: "Stat \<Rightarrow> string \<Rightarrow> nat" where
  "class_shift st user = (if user = st_Uid st then 6 else if user = st_Gid st then 3 else 0)"

definition wanted_bits :: "Mode \<Rightarrow> nat set option" where
  "wanted_bits omode =
     (if omode = Oread then Some {2} else if omode = Owrite then Some {1}
      else if omode = Ordwr then Some {1, 2} else if omode = Oexec then Some {0} else None)"

definition permits :: "Stat \<Rightarrow> string \<Rightarrow> Mode \<Rightarrow> bool" where
  "permits st user omode =
     (case wanted_bits omode of
        None \<Rightarrow> False
      | Some bs \<Rightarrow> \<forall>b\<in>bs. bit (st_Mode st) (class_shift st user + b))"

lemma and_pow2_bit: "(x :: u8) AND 2 ^ n \<noteq> 0 \<longleftrightarrow> bit x n"
  by (metis and_exp_eq_0_iff_not_bit)

lemma triple_bits:
  "n < 3 \<Longrightarrow> bit ((ucast (drop_bit k (m :: u32)) :: u8) AND 7) n \<longleftrightarrow> bit m (k + n)"
proof -
  assume n: "n < 3"
  have seven: "(7 :: u8) = mask 3" by (simp add: mask_eq_exp_minus_1)
  show ?thesis using n unfolding seven by (auto simp: bit_simps)
qed

lemma omodePermits_bits:
  "omodePermits (ucast (drop_bit k (m :: u32)) AND 7) omode =
     (case wanted_bits omode of None \<Rightarrow> False | Some bs \<Rightarrow> \<forall>b\<in>bs. bit m (k + b))"
proof -
  let ?p = "(ucast (drop_bit k m) :: u8) AND 7"
  have "?p AND 4 \<noteq> 0 \<longleftrightarrow> bit m (k + 2)" "?p AND 2 \<noteq> 0 \<longleftrightarrow> bit m (k + 1)"
    "?p AND 1 \<noteq> 0 \<longleftrightarrow> bit m k"
    using and_pow2_bit [of ?p 2] and_pow2_bit [of ?p 1] and_pow2_bit [of ?p 0]
      triple_bits [of 2 k m] triple_bits [of 1 k m] triple_bits [of 0 k m] by simp_all
  then show ?thesis by (simp add: omodePermits_def wanted_bits_def conj_commute)
qed

lemma permits_omodePermits:
  "permits st user omode =
     omodePermits (ucast (drop_bit (class_shift st user) (st_Mode st)) AND 7) omode"
  by (simp add: permits_def omodePermits_bits)

context fs_nodes
begin

lemma userRelation_stable:
  "valid s \<Longrightarrow> userRelation ops user n s = Some (r, s') \<Longrightarrow>
     valid s' \<and> view s' = view s"
  by (auto simp: userRelation_def split: bind_splits dest: Stat_stable)

lemma openPermission_stat:
  assumes "valid s" "op_Stat ops n s = Some (st, s1)"
  shows "openPermission ops n user omode s = Some (permits st user omode, s1)"
proof -
  have "op_Stat ops n s1 = Some (st, s1)" using assms Stat_stable by blast
  with assms show ?thesis
    by (simp add: openPermission_def userRelation_def permits_omodePermits class_shift_def
        userInGroup_def)
qed

lemma openPermission_cases:
  assumes "valid s" "openPermission ops n user omode s = Some (b, s')"
  obtains st where "op_Stat ops n s = Some (st, s')" "b = permits st user omode"
proof -
  obtain st s1 where "op_Stat ops n s = Some (st, s1)"
    using assms(2) by (auto simp: openPermission_def userRelation_def split: bind_splits)
  with assms show ?thesis using openPermission_stat that by fastforce
qed

lemma openPermission_stable:
  assumes "valid s" "openPermission ops n user omode s = Some (b, s')"
  shows "valid s' \<and> view s' = view s"
proof -
  obtain st where "op_Stat ops n s = Some (st, s')"
    using assms by (rule openPermission_cases)
  with assms(1) show ?thesis using Stat_stable by blast
qed

end

end
