(* ===== verification/Fs_Server.thy ===== *)
theory Fs_Server
  imports Permissions
begin

text \<open>
  The request handlers of the file server, fs/server.go, one definition per method of
  \<^verbatim>\<open>*server\<close>, over the node operations \<open>ops\<close> and the file system \<open>fs\<close>. A handler maps the
  connection and the node state to the reply (or a Go error) and their next values;
  \<^const>\<open>None\<close> is a panic, which ends the serving process.
\<close>

section \<open>Replies\<close>

type_synonym ('s, 'n) handler = "'n conn \<Rightarrow> 's \<Rightarrow> ((go_error + fcall) \<times> 'n conn \<times> 's) option"

abbreviation mk_Header :: "u8 \<Rightarrow> u16 \<Rightarrow> Header" where
  "mk_Header ty tag \<equiv> \<lparr>h_Type = ty, h_Tag = tag\<rparr>"

definition mk_RError :: "u16 \<Rightarrow> string \<Rightarrow> fcall" where
  "mk_RError tag msg = F_RError \<lparr>rer_Header = mk_Header Rerror tag, rer_Ename = msg\<rparr>"

abbreviation reply :: "fcall \<Rightarrow> ('s, 'n) handler" where
  "reply m c s \<equiv> Some (Inr m, c, s)"

section \<open>Full paths (fs/filesystem.go)\<close>

text \<open>\<^verbatim>\<open>strings.Replace(s, "//", "/", -1)\<close>\<close>

fun collapse_slashes :: "string \<Rightarrow> string" where
  "collapse_slashes (a # b # r) =
     (if a = CHR ''/'' \<and> b = CHR ''/'' then CHR ''/'' # collapse_slashes r
      else a # collapse_slashes (b # r))"
| "collapse_slashes r = r"

text \<open>On a cycle of parents the recursion exhausts the stack, which is fatal like a panic.\<close>

partial_function (option) FullPath :: "('s, 'n) fsops \<Rightarrow> 'n option \<Rightarrow> 's \<Rightarrow> (string \<times> 's) option" where
  "FullPath ops f s =
     (case f of
        None \<Rightarrow> Some ('''', s)
      | Some n \<Rightarrow> do {
          (parent, s) \<leftarrow> op_Parent ops n s;
          (case parent of
             None \<Rightarrow> do { (st, s) \<leftarrow> op_Stat ops n s; Some (st_Name st, s) }
           | Some p \<Rightarrow> do {
               (fp, s) \<leftarrow> FullPath ops (Some p) s;
               (st, s) \<leftarrow> op_Stat ops n s;
               Some (collapse_slashes (fp @ ''/'' @ st_Name st), s)
             })
        })"

section \<open>Version, authentication and attach\<close>

definition srv_Version :: "TRVersion \<Rightarrow> ('s, 'n) handler" where
  "srv_Version t c s =
     (if h_Type (ver_Header t) = Tversion \<and> ver_Version t = ''9P2000''
      then let t = (if ver_Msize t > MaxMsgLen then t\<lparr>ver_Msize := MaxMsgLen\<rparr> else t);
               c = c\<lparr>c_msize := ver_Msize t\<rparr>
           in reply (F_TRVersion (t\<lparr>ver_Header := (ver_Header t)\<lparr>h_Type := Rversion\<rparr>\<rparr>)) c s
      else Some (Inl (ErrorString (''Cannot reply to type ''
             @ fmt_d (unat (h_Type (ver_Header t))) @ [char_of (10 :: nat)])), c, s))"

definition srv_Auth :: "('s, 'n) fsops \<Rightarrow> ('s, 'n) FS \<Rightarrow> TAuth \<Rightarrow> ('s, 'n) handler" where
  "srv_Auth ops fs t c s =
     (let tag = h_Tag (tau_Header t)
      in case fs_authFile fs of
           None \<Rightarrow> reply (mk_RError tag ''Authentication Not Supported.'') c s
         | Some authFile \<Rightarrow> do {
             (r, s) \<leftarrow> authFile (toConnFid c (tau_Afid t)) s;
             (case r of
                Inl e \<Rightarrow> reply (mk_RError tag (error_text e)) c s
              | Inr n \<Rightarrow> do {
                  let info = \<lparr>fi_n = n, fi_openMode = Ordwr, fi_openOffset = 0,
                              fi_uname = '''', fi_extra = ExNil\<rparr>;
                  let c = fids_Store (tau_Afid t) info c;
                  (st, s) \<leftarrow> op_Stat ops n s;
                  reply (F_RAuth \<lparr>rau_Header = mk_Header Rauth tag, rau_Aqid = st_Qid st\<rparr>) c s
                })
           })"

text \<open>
  The goroutine \<^verbatim>\<open>Auth\<close> starts ends with the result of the authentication function and
  writes it into the fid's info (while the fid still holds that info).
\<close>

definition auth_done :: "u32 \<Rightarrow> go_error + string \<Rightarrow> 'n conn \<Rightarrow> 'n conn" where
  "auth_done afid res c =
     (case c_fids c afid of
        None \<Rightarrow> c
      | Some info \<Rightarrow>
          fids_Store afid (info\<lparr>fi_extra := (case res of Inl e \<Rightarrow> ExError e | Inr u \<Rightarrow> ExString u)\<rparr>) c)"

definition srv_Attach :: "('s, 'n) fsops \<Rightarrow> ('s, 'n) FS \<Rightarrow> TAttach \<Rightarrow> ('s, 'n) handler" where
  "srv_Attach ops fs t c s =
     (let tag = h_Tag (tat_Header t);
          attached = (\<lambda>uname. do {
            let c = fids_Store (tat_Fid t) (newFidInfo uname (fs_Root fs)) c;
            (st, s) \<leftarrow> op_Stat ops (fs_Root fs) s;
            reply (F_RAttach \<lparr>rat_Header = mk_Header Rattach tag, rat_Qid = st_Qid st\<rparr>) c s
          })
      in case fs_authFile fs of
           None \<Rightarrow> attached (tat_Uname t)
         | Some _ \<Rightarrow>
             (case c_fids c (tat_Afid t) of
                None \<Rightarrow> reply (mk_RError tag ''Not Authenticated.'') c s
              | Some info \<Rightarrow>
                  (case fi_extra info of
                     ExError e \<Rightarrow> reply (mk_RError tag (error_text e)) c s
                   | ExString authName \<Rightarrow> attached authName
                   | _ \<Rightarrow> reply (mk_RError tag ''Not Authenticated.'') c s)))"

section \<open>Walk\<close>

text \<open>The child \<open>name\<close> of \<open>dir\<close>, whose children are \<open>cs\<close>, or the error reply.\<close>

definition walk_child ::
    "('s, 'n) fsops \<Rightarrow> ('s, 'n) FS \<Rightarrow> u16 \<Rightarrow> 'n \<Rightarrow> (string \<times> 'n) list \<Rightarrow> string \<Rightarrow> 's \<Rightarrow>
      ((fcall + 'n) \<times> 's) option" where
  "walk_child ops fs tag dir cs name s =
     (case map_of cs name of
        Some f \<Rightarrow> Some (Inr f, s)
      | None \<Rightarrow>
          (case fs_WalkFail fs of
             None \<Rightarrow> Some (Inl (mk_RError tag ''No such path''), s)
           | Some walkFail \<Rightarrow> do {
               (r, s) \<leftarrow> walkFail dir name s;
               (case r of
                  Inl e \<Rightarrow> Some (Inl (mk_RError tag (error_text e)), s)
                | Inr None \<Rightarrow> Some (Inl (mk_RError tag ''No such path''), s)
                | Inr (Some f) \<Rightarrow>
                    if isModDir ops dir s then do {
                      (e, s) \<leftarrow> op_AddChild ops dir f s;
                      (case e of
                         Some e \<Rightarrow> Some (Inl (mk_RError tag (error_text e)), s)
                       | None \<Rightarrow> Some (Inr f, s))
                    } else do {
                      (path, s) \<leftarrow> FullPath ops (Some dir) s;
                      Some (Inl (mk_RError tag (path @ '' does not support modification.'')), s)
                    })
             }))"

text \<open>The loop over the names, with \<open>k\<close> of the \<^verbatim>\<open>Nwname\<close> names left.\<close>

fun walk_names ::
    "('s, 'n) fsops \<Rightarrow> ('s, 'n) FS \<Rightarrow> u16 \<Rightarrow> nat \<Rightarrow> string list \<Rightarrow> 'n \<Rightarrow> Qid list \<Rightarrow> 's \<Rightarrow>
      ((fcall + 'n \<times> Qid list) \<times> 's) option" where
  "walk_names ops fs tag 0 names file qids s = Some (Inr (file, qids), s)"
| "walk_names ops fs tag (Suc k) names file qids s =
     (if isDir ops file s then do {
        (cs, s) \<leftarrow> op_Children ops file s;
        (case names of
           [] \<Rightarrow> None
         | name # names \<Rightarrow> do {
             (r, s) \<leftarrow> walk_child ops fs tag file cs name s;
             (case r of
                Inl m \<Rightarrow> Some (Inl m, s)
              | Inr f \<Rightarrow> do {
                  (st, s) \<leftarrow> op_Stat ops f s;
                  walk_names ops fs tag k names f (qids @ [st_Qid st]) s
                })
           })
      } else Some (Inl (mk_RError tag ''No such path''), s))"

definition mk_RWalk :: "u16 \<Rightarrow> Qid list \<Rightarrow> fcall" where
  "mk_RWalk tag qids =
     F_RWalk \<lparr>rwk_Header = mk_Header Rwalk tag, rwk_Nwqid = of_nat (length qids), rwk_Wqid = qids\<rparr>"

definition srv_Walk :: "('s, 'n) fsops \<Rightarrow> ('s, 'n) FS \<Rightarrow> TWalk \<Rightarrow> ('s, 'n) handler" where
  "srv_Walk ops fs t c s =
     (let tag = h_Tag (twk_Header t); names = twk_Wname t
      in case c_fids c (twk_Fid t) of
           None \<Rightarrow> reply (mk_RError tag ''Bad Fid.'') c s
         | Some info \<Rightarrow>
             let file = fi_n info
             in if twk_Nwname t > 0 \<and> names = [] then None
                else if twk_Nwname t > 0 \<and> hd names = ''..'' then do {
                  (parent, s) \<leftarrow> op_Parent ops file s;
                  (case parent of
                     Some p \<Rightarrow> do {
                       let c = fids_Store (twk_Newfid t) (deriveInfo info p) c;
                       (st, s) \<leftarrow> op_Stat ops p s;
                       reply (mk_RWalk tag [st_Qid st]) c s
                     }
                   | None \<Rightarrow> reply (mk_RWalk tag []) c s)
                }
                else if twk_Nwname t > 0 \<and> hd names = ''.'' then do {
                  let c = fids_Store (twk_Newfid t) (deriveInfo info file) c;
                  (st, s) \<leftarrow> op_Stat ops file s;
                  reply (mk_RWalk tag [st_Qid st]) c s
                }
                else do {
                  (r, s) \<leftarrow> walk_names ops fs tag (unat (twk_Nwname t)) names file [] s;
                  (case r of
                     Inl m \<Rightarrow> reply m c s
                   | Inr (file, qids) \<Rightarrow>
                       reply (mk_RWalk tag qids)
                         (fids_Store (twk_Newfid t) (deriveInfo info file) c) s)
                })"

section \<open>Open and create\<close>

text \<open>
  The type switch of \<^verbatim>\<open>Open\<close>: the error reply, or the info with the directory listing
  that later reads serve. \<open>order\<close> is the order in which \<^verbatim>\<open>range\<close> visits the map of
  children; Go leaves it open.
\<close>

definition open_node ::
    "('s, 'n) fsops \<Rightarrow> ((string \<times> 'n) list \<Rightarrow> 'n list) \<Rightarrow> TOpen \<Rightarrow> u64 \<Rightarrow> 'n fidInfo \<Rightarrow> 's \<Rightarrow>
      ((fcall + 'n fidInfo) \<times> 's) option" where
  "open_node ops order t connFid info s =
     (let tag = h_Tag (top_Header t); mode = top_Mode t AND 0x0F
      in if isDir ops (fi_n info) s then
           if mode = Owrite \<or> mode = Ordwr
           then Some (Inl (mk_RError tag ''Cannot write to directory.''), s)
           else do {
             (children, s) \<leftarrow> op_Children ops (fi_n info) s;
             Some (Inr (info\<lparr>fi_extra := ExNodes (order children)\<rparr>), s)
           }
         else do {
           (e, s) \<leftarrow> op_Open ops (fi_n info) connFid (top_Mode t) s;
           (case e of
              Some e \<Rightarrow> Some (Inl (mk_RError tag (error_text e)), s)
            | None \<Rightarrow> Some (Inr info, s))
         })"

definition srv_Open ::
    "('s, 'n) fsops \<Rightarrow> ('s, 'n) FS \<Rightarrow> ((string \<times> 'n) list \<Rightarrow> 'n list) \<Rightarrow> TOpen \<Rightarrow> ('s, 'n) handler" where
  "srv_Open ops fs order t c s =
     (let tag = h_Tag (top_Header t)
      in case c_fids c (top_Fid t) of
           None \<Rightarrow> reply (mk_RError tag ''Bad Fid.'') c s
         | Some info \<Rightarrow>
             if fi_openMode info \<noteq> ONone then reply (mk_RError tag ''Fid already open.'') c s
             else do {
               (allowed, s) \<leftarrow>
                 (if fs_ignorePerms fs then Some (True, s)
                  else openPermission ops (fi_n info) (fi_uname info) (top_Mode t AND 0x0F) s);
               if \<not> allowed then reply (mk_RError tag ''Permission denied.'') c s
               else do {
                 (r, s) \<leftarrow> open_node ops order t (toConnFid c (top_Fid t)) info s;
                 (case r of
                    Inl m \<Rightarrow> reply m c s
                  | Inr info \<Rightarrow> do {
                      (st, s) \<leftarrow> op_Stat ops (fi_n info) s;
                      let info = info\<lparr>fi_openMode := top_Mode t, fi_openOffset := st_Length st\<rparr>;
                      let c = fids_Store (top_Fid t) info c;
                      (st, s) \<leftarrow> op_Stat ops (fi_n info) s;
                      reply (F_ROpen \<lparr>rop_Header = mk_Header Ropen tag, rop_Qid = st_Qid st,
                                      rop_Iounit = IOUnit\<rparr>) c s
                    })
               }
             })"

text \<open>
  The hook's node is nil when it returns neither a node nor an error; asking nil for its stat
  panics.
\<close>

definition srv_Create :: "('s, 'n) fsops \<Rightarrow> ('s, 'n) FS \<Rightarrow> TCreate \<Rightarrow> ('s, 'n) handler" where
  "srv_Create ops fs t c s =
     (let tag = h_Tag (tcr_Header t)
      in case c_fids c (tcr_Fid t) of
           None \<Rightarrow> reply (mk_RError tag ''Bad Fid.'') c s
         | Some info \<Rightarrow> do {
             (allowed, s) \<leftarrow> (if fs_ignorePerms fs then Some (True, s)
                               else openPermission ops (fi_n info) (fi_uname info) Owrite s);
             if \<not> allowed then reply (mk_RError tag ''Permission denied.'') c s
             else if isDir ops (fi_n info) s then do {
               (r, s) \<leftarrow>
                 (if tcr_Perm t AND DMDIR \<noteq> 0
                  then case fs_CreateDir fs of
                         Some create \<Rightarrow>
                           create (fi_n info) (fi_uname info) (tcr_Name t) (tcr_Perm t) (tcr_Mode t) s
                       | None \<Rightarrow> Some (Inl (ErrorString ''Cannot create directories.''), s)
                  else case fs_CreateFile fs of
                         Some create \<Rightarrow>
                           create (fi_n info) (fi_uname info) (tcr_Name t) (tcr_Perm t) (tcr_Mode t) s
                       | None \<Rightarrow> Some (Inl (ErrorString ''Cannot create files.''), s));
               (case r of
                  Inl e \<Rightarrow> reply (mk_RError tag (error_text e)) c s
                | Inr None \<Rightarrow> None
                | Inr (Some new) \<Rightarrow> do {
                    let info = (deriveInfo info new)\<lparr>fi_openMode := tcr_Mode t, fi_openOffset := 0\<rparr>;
                    let c = fids_Store (tcr_Fid t) info c;
                    (e, s) \<leftarrow> (if isFile ops new s
                                then op_Open ops new (toConnFid c (tcr_Fid t)) (tcr_Mode t) s
                                else Some (None, s));
                    (case e of
                       Some e \<Rightarrow> reply (mk_RError tag (error_text e)) c s
                     | None \<Rightarrow> do {
                         (st, s) \<leftarrow> op_Stat ops new s;
                         reply (F_RCreate \<lparr>rcr_Header = mk_Header Rcreate tag, rcr_Qid = st_Qid st,
                                           rcr_Iounit = IOUnit\<rparr>) c s
                       })
                  })
             }
             else do {
               (st, s) \<leftarrow> op_Stat ops (fi_n info) s;
               reply (mk_RError tag (st_Name st @ '': IS A FILE Not a directory'')) c s
             }
           })"

section \<open>Read and write\<close>

text \<open>The children from the first one that ends beyond the offset on.\<close>

fun readDir_start ::
    "('s, 'n) fsops \<Rightarrow> u64 \<Rightarrow> u64 \<Rightarrow> 'n list \<Rightarrow> 's \<Rightarrow> ('n list option \<times> 's) option" where
  "readDir_start ops len offset [] s = Some (None, s)"
| "readDir_start ops len offset (c # cs) s = do {
     (st, s) \<leftarrow> op_Stat ops c s;
     let nextLength = ucast (Stat_ComposeLength st);
     if len + nextLength > offset then Some (Some (c # cs), s)
     else readDir_start ops (len + nextLength) offset cs s
   }"

text \<open>The stats of the children, as long as they fit into \<open>count\<close> bytes.\<close>

fun readDir_fill ::
    "('s, 'n) fsops \<Rightarrow> u32 \<Rightarrow> bytes \<Rightarrow> 'n list \<Rightarrow> 's \<Rightarrow> (bytes \<times> 's) option" where
  "readDir_fill ops count contents [] s = Some (contents, s)"
| "readDir_fill ops count contents (f # fs) s = do {
     (st, s) \<leftarrow> op_Stat ops f s;
     let nextLength = (ucast (Stat_ComposeLength st) :: u32);
     if of_nat (length contents) + nextLength > count then Some (contents, s)
     else do {
       bs \<leftarrow> Stat_Compose st;
       readDir_fill ops count (contents @ bs) fs s
     }
   }"

definition mk_RRead :: "u16 \<Rightarrow> bytes \<Rightarrow> fcall" where
  "mk_RRead tag data =
     F_RRead \<lparr>rrd_Header = mk_Header Rread tag, rrd_Count = of_nat (length data), rrd_Data = data\<rparr>"

definition readDir :: "('s, 'n) fsops \<Rightarrow> TRead \<Rightarrow> 'n fidInfo \<Rightarrow> 's \<Rightarrow> (fcall \<times> 's) option" where
  "readDir ops t info s =
     (case fi_extra info of
        ExNodes children \<Rightarrow> do {
          (start, s) \<leftarrow> readDir_start ops 0 (trd_Offset t) children s;
          (case start of
             None \<Rightarrow> Some (mk_RRead (h_Tag (trd_Header t)) [], s)
           | Some rest \<Rightarrow> do {
               (contents, s) \<leftarrow> readDir_fill ops (trd_Count t) [] rest s;
               Some (mk_RRead (h_Tag (trd_Header t)) contents, s)
             })
        }
      | _ \<Rightarrow> None)"

definition srv_Read :: "('s, 'n) fsops \<Rightarrow> TRead \<Rightarrow> ('s, 'n) handler" where
  "srv_Read ops t c s =
     (let tag = h_Tag (trd_Header t);
          t = (if trd_Count t > c_msize c - 11 then t\<lparr>trd_Count := c_msize c - 11\<rparr> else t)
      in case c_fids c (trd_Fid t) of
           None \<Rightarrow> reply (mk_RError tag ''Bad Fid.'') c s
         | Some info \<Rightarrow>
             let openmode = fi_openMode info AND 0x0F
             in if openmode \<noteq> Oread \<and> openmode \<noteq> Ordwr \<and> openmode \<noteq> Oexec
                then reply (mk_RError tag ''1File not opened.'') c s
                else if isFile ops (fi_n info) s then do {
                  (r, s) \<leftarrow> op_Read ops (fi_n info) (toConnFid c (trd_Fid t)) (trd_Offset t)
                               (ucast (trd_Count t)) s;
                  (case r of
                     Inl e \<Rightarrow> reply (mk_RError tag (error_text e)) c s
                   | Inr data \<Rightarrow> reply (mk_RRead tag data) c s)
                }
                else do {
                  (m, s) \<leftarrow> readDir ops t info s;
                  reply m c s
                })"

definition srv_Write :: "('s, 'n) fsops \<Rightarrow> TWrite \<Rightarrow> ('s, 'n) handler" where
  "srv_Write ops t c s =
     (let tag = h_Tag (twr_Header t)
      in case c_fids c (twr_Fid t) of
           None \<Rightarrow> reply (mk_RError tag ''Bad Fid.'') c s
         | Some info \<Rightarrow>
             let openmode = fi_openMode info AND 0x0F
             in if openmode \<noteq> Owrite \<and> openmode \<noteq> Ordwr
                then reply (mk_RError tag ''File not opened for write.'') c s
                else do {
                  (st, s) \<leftarrow> op_Stat ops (fi_n info) s;
                  if st_Mode st AND DMDIR \<noteq> 0
                  then reply (mk_RError tag ''Cannot write to directory.'') c s
                  else if isFile ops (fi_n info) s then do {
                    (r, s) \<leftarrow> op_Write ops (fi_n info) (toConnFid c (twr_Fid t)) (twr_Offset t)
                                 (twr_Data t) s;
                    (case r of
                       Inl e \<Rightarrow> reply (mk_RError tag (error_text e)) c s
                     | Inr n \<Rightarrow>
                         reply (F_RWrite \<lparr>rwr_Header = mk_Header Rwrite tag, rwr_Count = n\<rparr>) c s)
                  }
                  else reply (mk_RError tag ''Cannot write to directory.'') c s
                })"

section \<open>Clunk, remove and stat\<close>

definition srv_Clunk :: "('s, 'n) fsops \<Rightarrow> TClunk \<Rightarrow> ('s, 'n) handler" where
  "srv_Clunk ops t c s =
     (let tag = h_Tag (tcl_Header t);
          i = c_fids c (tcl_Fid t);
          c = fids_Delete (tcl_Fid t) c;
          done = F_RClunk \<lparr>rcl_Header = mk_Header Rclunk tag\<rparr>
      in case i of
           None \<Rightarrow> reply done c s
         | Some info \<Rightarrow>
             if fi_openMode info \<noteq> ONone \<and> isFile ops (fi_n info) s then do {
               (e, s) \<leftarrow> op_Close ops (fi_n info) (toConnFid c (tcl_Fid t)) s;
               (case e of
                  Some e \<Rightarrow> reply (mk_RError tag (error_text e)) c s
                | None \<Rightarrow> reply done c s)
             }
             else reply done c s)"

definition srv_Remove :: "('s, 'n) fsops \<Rightarrow> ('s, 'n) FS \<Rightarrow> TRemove \<Rightarrow> ('s, 'n) handler" where
  "srv_Remove ops fs t c s =
     (let tag = h_Tag (trm_Header t);
          i = c_fids c (trm_Fid t);
          c = fids_Delete (trm_Fid t) c
      in case i of
           None \<Rightarrow> reply (mk_RError tag ''Bad Fid.'') c s
         | Some info \<Rightarrow> do {
             (allowed, s) \<leftarrow> (if fs_ignorePerms fs then Some (True, s)
                               else openPermission ops (fi_n info) (fi_uname info) Owrite s);
             if \<not> allowed then reply (mk_RError tag ''Permission denied.'') c s
             else do {
               (e, s) \<leftarrow> (case fs_RemoveFile fs of
                             Some remove \<Rightarrow> remove (fi_n info) s
                           | None \<Rightarrow> Some (Some (ErrorString ''Cannot delete files.''), s));
               (case e of
                  Some e \<Rightarrow> reply (mk_RError tag (error_text e)) c s
                | None \<Rightarrow> reply (F_RRemove \<lparr>rrm_Header = mk_Header Rremove tag\<rparr>) c s)
             }
           })"

definition srv_Stat :: "('s, 'n) fsops \<Rightarrow> TStat \<Rightarrow> ('s, 'n) handler" where
  "srv_Stat ops t c s =
     (let tag = h_Tag (tst_Header t)
      in case c_fids c (tst_Fid t) of
           None \<Rightarrow> reply (mk_RError tag ''Bad Fid.'') c s
         | Some info \<Rightarrow> do {
             (st, s) \<leftarrow> op_Stat ops (fi_n info) s;
             reply (F_RStat \<lparr>rst_Header = mk_Header Rstat tag, rst_Stat = st\<rparr>) c s
           })"

section \<open>Changing a stat\<close>

text \<open>The checks of \<^verbatim>\<open>Wstat\<close>, in the order of the code; the result tells if all pass.\<close>

definition wstat_check ::
    "('s, 'n) fsops \<Rightarrow> bool \<Rightarrow> 'n fidInfo \<Rightarrow> Stat \<Rightarrow> u8 \<Rightarrow> Stat \<Rightarrow> 's \<Rightarrow> (bool \<times> 's) option" where
  "wstat_check ops ignorePerms info stat relation newstat s =
     (if st_Name newstat \<noteq> [] \<and> \<not> ignorePerms \<and> relation \<noteq> ugo_user then Some (False, s)
      else do {
        (allowed, s) \<leftarrow>
          (if st_Length newstat \<noteq> -1 \<and> st_Length newstat \<noteq> st_Length stat \<and> \<not> ignorePerms
           then openPermission ops (fi_n info) (fi_uname info) Owrite s
           else Some (True, s));
        if \<not> allowed then Some (False, s)
        else if st_Mode newstat \<noteq> -1 \<and> st_Mode newstat \<noteq> st_Mode stat \<and>
                \<not> ignorePerms \<and> relation \<noteq> ugo_user then Some (False, s)
        else if st_Mtime newstat \<noteq> -1 \<and> st_Mtime newstat \<noteq> st_Mtime stat \<and>
                \<not> ignorePerms \<and> relation \<noteq> ugo_user then Some (False, s)
        else if st_Gid newstat \<noteq> [] \<and> \<not> ignorePerms then do {
          (st, s) \<leftarrow> op_Stat ops (fi_n info) s;
          Some (st_Uid st = fi_uname info \<and> userInGroup (fi_uname info) (st_Gid newstat), s)
        }
        else Some (True, s)
      })"

definition wstat_apply :: "Stat \<Rightarrow> Stat \<Rightarrow> Stat" where
  "wstat_apply stat newstat =
     (let stat = (if st_Name newstat \<noteq> [] then stat\<lparr>st_Name := st_Name newstat\<rparr> else stat);
          stat = (if st_Length newstat \<noteq> -1 then stat\<lparr>st_Length := st_Length newstat\<rparr> else stat);
          stat = (if st_Mode newstat \<noteq> -1
                  then stat\<lparr>st_Mode := (st_Mode stat AND NOT 0x1FF) OR (st_Mode newstat AND 0x000001FF)\<rparr>
                  else stat);
          stat = (if st_Mtime newstat \<noteq> -1 then stat\<lparr>st_Mtime := st_Mtime newstat\<rparr> else stat);
          stat = (if st_Gid newstat \<noteq> [] then stat\<lparr>st_Gid := st_Gid newstat\<rparr> else stat)
      in stat)"

definition srv_Wstat :: "('s, 'n) fsops \<Rightarrow> ('s, 'n) FS \<Rightarrow> TWstat \<Rightarrow> ('s, 'n) handler" where
  "srv_Wstat ops fs t c s =
     (let tag = h_Tag (tws_Header t)
      in case c_fids c (tws_Fid t) of
           None \<Rightarrow> reply (mk_RError tag ''Bad Fid.'') c s
         | Some info \<Rightarrow> do {
             (stat, s) \<leftarrow> op_Stat ops (fi_n info) s;
             (relation, s) \<leftarrow> userRelation ops (fi_uname info) (fi_n info) s;
             (ok, s) \<leftarrow> wstat_check ops (fs_ignorePerms fs) info stat relation (tws_Stat t) s;
             if \<not> ok then reply (mk_RError tag ''Permission denied.'') c s
             else do {
               (e, s) \<leftarrow> op_WriteStat ops (fi_n info) (wstat_apply stat (tws_Stat t)) s;
               (case e of
                  Some e \<Rightarrow> reply (mk_RError tag (error_text e)) c s
                | None \<Rightarrow> reply (F_RWstat \<lparr>rws_Header = mk_Header Rwstat tag\<rparr>) c s)
             }
           })"

end
