(* ===== verification/Static_Store.thy ===== *)
theory Static_Store
  imports Fs_Server "HOL-Library.AList"
begin

text \<open>
  The in-memory nodes of package fs: \<^verbatim>\<open>BaseFile\<close> and the \<^verbatim>\<open>FS\<close> counters
  (fs/filesystem.go), \<^verbatim>\<open>StaticFile\<close> and \<^verbatim>\<open>StaticDir\<close> (fs/static.go) and
  \<^verbatim>\<open>DynamicFile\<close> (fs/dynamic.go). Node objects live in a store and refer to each other by
  address, since a directory's children hold a pointer back to it and every fid of a file shares
  its contents.

  The theory interprets the contract \<open>fs_nodes\<close> of the server on these definitions.
\<close>

type_synonym ref = nat

section \<open>Node objects\<close>

record BaseFile =
  bf_fStat :: Stat
  bf_parent :: "ref option"

record StaticFile = BaseFile +
  sf_Data :: bytes

record StaticDir =
  sd_dStat :: Stat
  sd_children :: "ref list"
  sd_parent :: "ref option"

text \<open>
  \<open>df_genContent\<close> gives the content of each call of the generator, \<open>df_calls\<close> counts them.
\<close>

record DynamicFile = BaseFile +
  df_fidContent :: "u64 \<rightharpoonup> bytes"
  df_genContent :: "nat \<Rightarrow> bytes"
  df_calls :: nat

datatype node =
    NBase BaseFile
  | NFile StaticFile
  | NDyn DynamicFile
  | NDir StaticDir

text \<open>
  The store: the objects, the next free address, the qid counter of the \<^verbatim>\<open>FS\<close>, the clock
  (the result of each call of \<^verbatim>\<open>time.Now\<close>, in order) and the number of bytes the runtime
  can allocate for one slice.
\<close>

record store =
  sto_nodes :: "ref \<rightharpoonup> node"
  sto_next :: ref
  sto_uid :: u64
  sto_clock :: "nat \<Rightarrow> u32"
  sto_reads :: nat
  sto_mem :: nat

definition set_node :: "ref \<Rightarrow> node \<Rightarrow> store \<Rightarrow> store" where
  "set_node r v s = s\<lparr>sto_nodes := (sto_nodes s)(r \<mapsto> v)\<rparr>"

definition new_node :: "node \<Rightarrow> store \<Rightarrow> ref \<times> store" where
  "new_node v s = (sto_next s, (set_node (sto_next s) v s)\<lparr>sto_next := Suc (sto_next s)\<rparr>)"

section \<open>Stats and qids (fs/filesystem.go)\<close>

definition NewQid :: "u32 \<Rightarrow> store \<Rightarrow> Qid \<times> store" where
  "NewQid statMode s =
     (let uid = sto_uid s
      in (\<lparr>q_Qtype = ucast (drop_bit 24 statMode), q_Vers = 0, q_Uid = uid\<rparr>,
          s\<lparr>sto_uid := uid + 1\<rparr>))"

definition time_Now :: "store \<Rightarrow> u32 \<times> store" where
  "time_Now s = (sto_clock s (sto_reads s), s\<lparr>sto_reads := Suc (sto_reads s)\<rparr>)"

definition NewStat :: "string \<Rightarrow> string \<Rightarrow> string \<Rightarrow> u32 \<Rightarrow> store \<Rightarrow> Stat \<times> store" where
  "NewStat name uid gid mode s =
     (let (qid, s) = NewQid mode s;
          (atime, s) = time_Now s;
          (mtime, s) = time_Now s
      in (\<lparr>st_Type = 0, st_Dev = 0, st_Qid = qid, st_Mode = mode, st_Atime = atime,
           st_Mtime = mtime, st_Length = 0, st_Name = name, st_Uid = uid, st_Gid = gid,
           st_Muid = uid\<rparr>, s))"

section \<open>Files\<close>

definition NewBaseFile :: "Stat \<Rightarrow> BaseFile" where
  "NewBaseFile st = \<lparr>bf_fStat = st, bf_parent = None\<rparr>"

text \<open>
  Go's embedding is record extension: a method of \<^verbatim>\<open>BaseFile\<close> that an embedding type does
  not override acts on the \<^verbatim>\<open>BaseFile\<close> part of it.
\<close>

definition BaseFile_Stat :: "'a BaseFile_scheme \<Rightarrow> Stat" where [simp]:
  "BaseFile_Stat f = bf_fStat f"

definition BaseFile_WriteStat :: "Stat \<Rightarrow> 'a BaseFile_scheme \<Rightarrow> go_error option \<times> 'a BaseFile_scheme" where [simp]:
  "BaseFile_WriteStat st f = (None, f\<lparr>bf_fStat := st\<rparr>)"

definition BaseFile_SetParent :: "ref option \<Rightarrow> 'a BaseFile_scheme \<Rightarrow> 'a BaseFile_scheme" where [simp]:
  "BaseFile_SetParent p f = f\<lparr>bf_parent := p\<rparr>"

definition BaseFile_Parent :: "'a BaseFile_scheme \<Rightarrow> ref option" where [simp]:
  "BaseFile_Parent f = bf_parent f"

definition BaseFile_Open :: "u64 \<Rightarrow> Mode \<Rightarrow> go_error option" where [simp]:
  "BaseFile_Open fid omode = None"

definition BaseFile_Read :: "u64 \<Rightarrow> u64 \<Rightarrow> u64 \<Rightarrow> go_error + bytes" where [simp]:
  "BaseFile_Read fid offset count = Inr []"

definition BaseFile_Write :: "u64 \<Rightarrow> u64 \<Rightarrow> bytes \<Rightarrow> go_error + u32" where [simp]:
  "BaseFile_Write fid offset data = Inl (ErrorString ''Cannot write to file.'')"

definition BaseFile_Close :: "u64 \<Rightarrow> go_error option" where [simp]:
  "BaseFile_Close fid = None"

definition NewStaticFile :: "Stat \<Rightarrow> bytes \<Rightarrow> StaticFile" where
  "NewStaticFile st data =
     \<lparr>bf_fStat = st\<lparr>st_Length := of_nat (length data)\<rparr>, bf_parent = None, sf_Data = data\<rparr>"

definition StaticFile_Stat :: "StaticFile \<Rightarrow> Stat \<times> StaticFile" where
  "StaticFile_Stat f =
     (let f = f\<lparr>bf_fStat := (bf_fStat f)\<lparr>st_Length := of_nat (length (sf_Data f))\<rparr>\<rparr>
      in (bf_fStat f, f))"

definition StaticFile_Open :: "Mode \<Rightarrow> StaticFile \<Rightarrow> StaticFile" where
  "StaticFile_Open omode f = (if omode AND Otrunc > 0 then f\<lparr>sf_Data := []\<rparr> else f)"

text \<open>\<^verbatim>\<open>xs[lo:hi]\<close>, for bounds within the length.\<close>

definition go_slice :: "u64 \<Rightarrow> u64 \<Rightarrow> bytes \<Rightarrow> bytes option" where
  "go_slice lo hi xs =
     (if lo \<le> hi \<and> unat hi \<le> length xs then Some (take (unat hi - unat lo) (drop (unat lo) xs))
      else None)"

text \<open>The common body of \<^verbatim>\<open>StaticFile.Read\<close> and \<^verbatim>\<open>DynamicFile.Read\<close>.\<close>

definition read_range :: "u64 \<Rightarrow> u64 \<Rightarrow> bytes \<Rightarrow> bytes option" where
  "read_range offset count data =
     (let flen = (of_nat (length data) :: u64)
      in if offset \<ge> flen then Some []
         else let count = (if offset + count > flen then flen - offset else count)
              in go_slice offset (offset + count) data)"

definition StaticFile_Read :: "u64 \<Rightarrow> u64 \<Rightarrow> StaticFile \<Rightarrow> bytes option" where
  "StaticFile_Read offset count f = read_range offset count (sf_Data f)"

text \<open>\<^verbatim>\<open>copy(xs[lo:lo+len(data)], data)\<close>, once the slice expression is in range.\<close>

definition copy_at :: "nat \<Rightarrow> bytes \<Rightarrow> bytes \<Rightarrow> bytes" where
  "copy_at lo data xs = take lo xs @ data @ drop (lo + length data) xs"

text \<open>\<open>mem\<close> bounds the slice the runtime can allocate; beyond it the process dies.\<close>

definition StaticFile_Write :: "nat \<Rightarrow> u64 \<Rightarrow> bytes \<Rightarrow> StaticFile \<Rightarrow> (u32 \<times> StaticFile) option" where
  "StaticFile_Write mem offset data f =
     (let flen = (of_nat (length (sf_Data f)) :: u64);
          count = (of_nat (length data) :: u64);
          newlen = offset + count
      in do {
        f \<leftarrow> (if offset + count > flen
               then if unat newlen \<le> mem
                    then Some (f\<lparr>bf_fStat := (bf_fStat f)\<lparr>st_Length := newlen\<rparr>,
                                 sf_Data := sf_Data f @ replicate (unat (newlen - flen)) 0\<rparr>)
                    else None
               else Some f);
        _ \<leftarrow> go_slice offset (offset + count) (sf_Data f);
        Some (of_nat (length data), f\<lparr>sf_Data := copy_at (unat offset) data (sf_Data f)\<rparr>)
      })"

definition NewDynamicFile :: "Stat \<Rightarrow> (nat \<Rightarrow> bytes) \<Rightarrow> DynamicFile" where
  "NewDynamicFile st gen =
     \<lparr>bf_fStat = st, bf_parent = None, df_fidContent = Map.empty, df_genContent = gen, df_calls = 0\<rparr>"

definition DynamicFile_Open :: "u64 \<Rightarrow> DynamicFile \<Rightarrow> DynamicFile" where
  "DynamicFile_Open fid f =
     f\<lparr>df_fidContent := (df_fidContent f)(fid \<mapsto> df_genContent f (df_calls f)),
       df_calls := Suc (df_calls f)\<rparr>"

definition DynamicFile_Read :: "u64 \<Rightarrow> u64 \<Rightarrow> u64 \<Rightarrow> DynamicFile \<Rightarrow> bytes option" where
  "DynamicFile_Read fid offset count f =
     (let data = (case df_fidContent f fid of Some d \<Rightarrow> d | None \<Rightarrow> [])
      in read_range offset count data)"

definition DynamicFile_Close :: "u64 \<Rightarrow> DynamicFile \<Rightarrow> DynamicFile" where
  "DynamicFile_Close fid f = f\<lparr>df_fidContent := (df_fidContent f)(fid := None)\<rparr>"

section \<open>Directories\<close>

definition NewStaticDir :: "Stat \<Rightarrow> StaticDir" where
  "NewStaticDir stat =
     (let stat = stat\<lparr>st_Mode := st_Mode stat OR DMDIR\<rparr>;
          stat = stat\<lparr>st_Qid := (st_Qid stat)\<lparr>q_Qtype := ucast (drop_bit 24 (st_Mode stat))\<rparr>\<rparr>
      in \<lparr>sd_dStat = stat, sd_children = [], sd_parent = None\<rparr>)"

definition StaticDir_Stat :: "StaticDir \<Rightarrow> Stat" where [simp]:
  "StaticDir_Stat d = sd_dStat d"

definition StaticDir_WriteStat :: "Stat \<Rightarrow> StaticDir \<Rightarrow> go_error option \<times> StaticDir" where [simp]:
  "StaticDir_WriteStat st d = (None, d\<lparr>sd_dStat := st\<rparr>)"

definition StaticDir_SetParent :: "ref option \<Rightarrow> StaticDir \<Rightarrow> StaticDir" where [simp]:
  "StaticDir_SetParent p d = d\<lparr>sd_parent := p\<rparr>"

definition StaticDir_Parent :: "StaticDir \<Rightarrow> ref option" where [simp]:
  "StaticDir_Parent d = sd_parent d"

section \<open>The node operations\<close>

text \<open>The interface calls: each goes to the method of the node's dynamic type.\<close>

definition node_kind :: "ref \<Rightarrow> store \<Rightarrow> kind" where
  "node_kind r s = (case sto_nodes s r of Some (NDir _) \<Rightarrow> KModDir | _ \<Rightarrow> KFile)"

definition node_Stat :: "ref \<Rightarrow> store \<Rightarrow> (Stat \<times> store) option" where
  "node_Stat r s =
     (case sto_nodes s r of
        None \<Rightarrow> None
      | Some (NBase f) \<Rightarrow> Some (BaseFile_Stat f, s)
      | Some (NFile f) \<Rightarrow> (let (st, f) = StaticFile_Stat f in Some (st, set_node r (NFile f) s))
      | Some (NDyn f) \<Rightarrow> Some (BaseFile_Stat f, s)
      | Some (NDir d) \<Rightarrow> Some (StaticDir_Stat d, s))"

definition node_WriteStat :: "ref \<Rightarrow> Stat \<Rightarrow> store \<Rightarrow> (go_error option \<times> store) option" where
  "node_WriteStat r st s =
     (case sto_nodes s r of
        None \<Rightarrow> None
      | Some (NBase f) \<Rightarrow> (let (e, f) = BaseFile_WriteStat st f in Some (e, set_node r (NBase f) s))
      | Some (NFile f) \<Rightarrow> (let (e, f) = BaseFile_WriteStat st f in Some (e, set_node r (NFile f) s))
      | Some (NDyn f) \<Rightarrow> (let (e, f) = BaseFile_WriteStat st f in Some (e, set_node r (NDyn f) s))
      | Some (NDir d) \<Rightarrow> (let (e, d) = StaticDir_WriteStat st d in Some (e, set_node r (NDir d) s)))"

definition node_SetParent :: "ref \<Rightarrow> ref option \<Rightarrow> store \<Rightarrow> store option" where
  "node_SetParent r p s =
     (case sto_nodes s r of
        None \<Rightarrow> None
      | Some (NBase f) \<Rightarrow> Some (set_node r (NBase (BaseFile_SetParent p f)) s)
      | Some (NFile f) \<Rightarrow> Some (set_node r (NFile (BaseFile_SetParent p f)) s)
      | Some (NDyn f) \<Rightarrow> Some (set_node r (NDyn (BaseFile_SetParent p f)) s)
      | Some (NDir d) \<Rightarrow> Some (set_node r (NDir (StaticDir_SetParent p d)) s))"

definition node_Parent :: "ref \<Rightarrow> store \<Rightarrow> (ref option \<times> store) option" where
  "node_Parent r s =
     (case sto_nodes s r of
        None \<Rightarrow> None
      | Some (NBase f) \<Rightarrow> Some (BaseFile_Parent f, s)
      | Some (NFile f) \<Rightarrow> Some (BaseFile_Parent f, s)
      | Some (NDyn f) \<Rightarrow> Some (BaseFile_Parent f, s)
      | Some (NDir d) \<Rightarrow> Some (StaticDir_Parent d, s))"

definition node_Open :: "ref \<Rightarrow> u64 \<Rightarrow> Mode \<Rightarrow> store \<Rightarrow> (go_error option \<times> store) option" where
  "node_Open r fid omode s =
     (case sto_nodes s r of
        Some (NBase _) \<Rightarrow> Some (BaseFile_Open fid omode, s)
      | Some (NFile f) \<Rightarrow> Some (None, set_node r (NFile (StaticFile_Open omode f)) s)
      | Some (NDyn f) \<Rightarrow> Some (None, set_node r (NDyn (DynamicFile_Open fid f)) s)
      | _ \<Rightarrow> None)"

definition node_Read ::
    "ref \<Rightarrow> u64 \<Rightarrow> u64 \<Rightarrow> u64 \<Rightarrow> store \<Rightarrow> ((go_error + bytes) \<times> store) option" where
  "node_Read r fid offset count s =
     (case sto_nodes s r of
        Some (NBase _) \<Rightarrow> Some (BaseFile_Read fid offset count, s)
      | Some (NFile f) \<Rightarrow> do { d \<leftarrow> StaticFile_Read offset count f; Some (Inr d, s) }
      | Some (NDyn f) \<Rightarrow> do { d \<leftarrow> DynamicFile_Read fid offset count f; Some (Inr d, s) }
      | _ \<Rightarrow> None)"

definition node_Write ::
    "ref \<Rightarrow> u64 \<Rightarrow> u64 \<Rightarrow> bytes \<Rightarrow> store \<Rightarrow> ((go_error + u32) \<times> store) option" where
  "node_Write r fid offset data s =
     (case sto_nodes s r of
        Some (NBase _) \<Rightarrow> Some (BaseFile_Write fid offset data, s)
      | Some (NFile f) \<Rightarrow> do {
          (n, f) \<leftarrow> StaticFile_Write (sto_mem s) offset data f;
          Some (Inr n, set_node r (NFile f) s)
        }
      | Some (NDyn _) \<Rightarrow> Some (BaseFile_Write fid offset data, s)
      | _ \<Rightarrow> None)"

definition node_Close :: "ref \<Rightarrow> u64 \<Rightarrow> store \<Rightarrow> (go_error option \<times> store) option" where
  "node_Close r fid s =
     (case sto_nodes s r of
        Some (NBase _) \<Rightarrow> Some (BaseFile_Close fid, s)
      | Some (NFile _) \<Rightarrow> Some (BaseFile_Close fid, s)
      | Some (NDyn f) \<Rightarrow> Some (None, set_node r (NDyn (DynamicFile_Close fid f)) s)
      | _ \<Rightarrow> None)"

text \<open>The map \<^verbatim>\<open>Children\<close> builds: a later child of the same name replaces an earlier one.\<close>

fun children_map :: "ref list \<Rightarrow> (string \<times> ref) list \<Rightarrow> store \<Rightarrow> ((string \<times> ref) list \<times> store) option" where
  "children_map [] ret s = Some (ret, s)"
| "children_map (n # ns) ret s = do {
     (st, s) \<leftarrow> node_Stat n s;
     children_map ns (AList.update (st_Name st) n ret) s
   }"

definition StaticDir_Children :: "ref \<Rightarrow> store \<Rightarrow> ((string \<times> ref) list \<times> store) option" where
  "StaticDir_Children d s =
     (case sto_nodes s d of
        Some (NDir dir) \<Rightarrow> children_map (sd_children dir) [] s
      | _ \<Rightarrow> None)"

text \<open>Does one of the nodes have the name?\<close>

fun name_taken :: "string \<Rightarrow> ref list \<Rightarrow> store \<Rightarrow> (bool \<times> store) option" where
  "name_taken name [] s = Some (False, s)"
| "name_taken name (n # ns) s = do {
     (st, s) \<leftarrow> node_Stat n s;
     if st_Name st = name then Some (True, s) else name_taken name ns s
   }"

definition set_children :: "ref \<Rightarrow> ref list \<Rightarrow> store \<Rightarrow> store" where
  "set_children d cs s =
     (case sto_nodes s d of
        Some (NDir dir) \<Rightarrow> set_node d (NDir (dir\<lparr>sd_children := cs\<rparr>)) s
      | _ \<Rightarrow> s)"

text \<open>
  A directory added to itself never returns: \<^verbatim>\<open>SetParent\<close> waits for the lock
  \<^verbatim>\<open>AddChild\<close> holds.
\<close>

definition StaticDir_AddChild :: "ref \<Rightarrow> ref \<Rightarrow> store \<Rightarrow> (go_error option \<times> store) option" where
  "StaticDir_AddChild d n s =
     (case sto_nodes s d of
        Some (NDir dir) \<Rightarrow> do {
          (stat, s) \<leftarrow> node_Stat n s;
          (taken, s) \<leftarrow> name_taken (st_Name stat) (sd_children dir) s;
          if taken then Some (Some (ErrorString (st_Name stat @ '' already exists'')), s)
          else if n = d then None
          else do {
            let s = set_children d (sd_children dir @ [n]) s;
            s \<leftarrow> node_SetParent n (Some d) s;
            Some (None, s)
          }
        }
      | _ \<Rightarrow> None)"

fun delete_named :: "string \<Rightarrow> ref list \<Rightarrow> ref list \<Rightarrow> store \<Rightarrow> (ref list \<times> store) option" where
  "delete_named name [] kept s = Some (kept, s)"
| "delete_named name (c # cs) kept s = do {
     (st, s) \<leftarrow> node_Stat c s;
     if st_Name st \<noteq> name then delete_named name cs (kept @ [c]) s
     else do {
       s \<leftarrow> node_SetParent c None s;
       delete_named name cs kept s
     }
   }"

definition StaticDir_DeleteChild :: "ref \<Rightarrow> string \<Rightarrow> store \<Rightarrow> (go_error option \<times> store) option" where
  "StaticDir_DeleteChild d name s =
     (case sto_nodes s d of
        Some (NDir dir) \<Rightarrow> do {
          (kept, s) \<leftarrow> delete_named name (sd_children dir) [] s;
          Some (None, set_children d kept s)
        }
      | _ \<Rightarrow> None)"

definition static_ops :: "(store, ref) fsops" where
  "static_ops =
     \<lparr>op_kind = node_kind, op_Stat = node_Stat, op_WriteStat = node_WriteStat,
      op_Parent = node_Parent, op_Children = StaticDir_Children, op_AddChild = StaticDir_AddChild,
      op_Open = node_Open, op_Read = node_Read, op_Write = node_Write, op_Close = node_Close\<rparr>"

lemma static_ops_sel [simp]:
  "op_kind static_ops = node_kind" "op_Stat static_ops = node_Stat"
  "op_WriteStat static_ops = node_WriteStat" "op_Parent static_ops = node_Parent"
  "op_Children static_ops = StaticDir_Children" "op_AddChild static_ops = StaticDir_AddChild"
  "op_Open static_ops = node_Open" "op_Read static_ops = node_Read"
  "op_Write static_ops = node_Write" "op_Close static_ops = node_Close"
  by (simp_all add: static_ops_def)

section \<open>The hooks and the file system\<close>

definition CreateStaticFile :: "(store, ref) create_hook" where
  "CreateStaticFile parent user name perm mode s =
     (if node_kind parent s \<noteq> KModDir then do {
        (path, s) \<leftarrow> FullPath static_ops (Some parent) s;
        Some (Inl (ErrorString (path @ '' does not support modification.'')), s)
      } else do {
        let (st, s) = NewStat name user user perm s;
        let (f, s) = new_node (NFile (NewStaticFile st [])) s;
        (e, s) \<leftarrow> StaticDir_AddChild parent f s;
        Some (case e of Some e \<Rightarrow> Inl e | None \<Rightarrow> Inr (Some f), s)
      })"

definition CreateStaticDir :: "(store, ref) create_hook" where
  "CreateStaticDir parent user name perm mode s =
     (if node_kind parent s \<noteq> KModDir then do {
        (path, s) \<leftarrow> FullPath static_ops (Some parent) s;
        Some (Inl (ErrorString (path @ '' does not support modification.'')), s)
      } else do {
        let (st, s) = NewStat name user user perm s;
        let (f, s) = new_node (NDir (NewStaticDir st)) s;
        (e, s) \<leftarrow> StaticDir_AddChild parent f s;
        Some (case e of Some e \<Rightarrow> Inl e | None \<Rightarrow> Inr (Some f), s)
      })"

definition RMFile :: "ref \<Rightarrow> store \<Rightarrow> (go_error option \<times> store) option" where
  "RMFile f s = do {
     (parent, s) \<leftarrow> node_Parent f s;
     (case parent of
        Some p \<Rightarrow>
          if node_kind p s = KModDir then do {
            (st, s) \<leftarrow> node_Stat f s;
            StaticDir_DeleteChild p (st_Name st) s
          } else do {
            (path, s) \<leftarrow> FullPath static_ops (Some p) s;
            Some (Some (ErrorString (path @ '' does not support modification.'')), s)
          }
      | None \<Rightarrow> do {
          (path, s) \<leftarrow> FullPath static_ops None s;
          Some (Some (ErrorString (path @ '' does not support modification.'')), s)
        })
   }"

definition empty_store :: "(nat \<Rightarrow> u32) \<Rightarrow> nat \<Rightarrow> store" where
  "empty_store clock mem =
     \<lparr>sto_nodes = Map.empty, sto_next = 0, sto_uid = 0, sto_clock = clock, sto_reads = 0,
      sto_mem = mem\<rparr>"

text \<open>The options of \<^verbatim>\<open>NewFS\<close> are functions that set one field of the \<^verbatim>\<open>FS\<close>.\<close>

type_synonym fs_option = "(store, ref) FS \<Rightarrow> (store, ref) FS"

definition WithCreateFile :: "(store, ref) create_hook \<Rightarrow> fs_option" where
  "WithCreateFile f fs = fs\<lparr>fs_CreateFile := Some f\<rparr>"

definition WithCreateDir :: "(store, ref) create_hook \<Rightarrow> fs_option" where
  "WithCreateDir f fs = fs\<lparr>fs_CreateDir := Some f\<rparr>"

definition WithRemoveFile :: "(ref \<Rightarrow> store \<Rightarrow> (go_error option \<times> store) option) \<Rightarrow> fs_option" where
  "WithRemoveFile f fs = fs\<lparr>fs_RemoveFile := Some f\<rparr>"

definition WithWalkFailHandler ::
    "(ref \<Rightarrow> string \<Rightarrow> store \<Rightarrow> ((go_error + ref option) \<times> store) option) \<Rightarrow> fs_option" where
  "WithWalkFailHandler f fs = fs\<lparr>fs_WalkFail := Some f\<rparr>"

definition IgnorePermissions :: fs_option where
  "IgnorePermissions fs = fs\<lparr>fs_ignorePerms := True\<rparr>"

definition NewFS ::
    "string \<Rightarrow> string \<Rightarrow> u32 \<Rightarrow> fs_option list \<Rightarrow> store \<Rightarrow> (store, ref) FS \<times> ref \<times> store" where
  "NewFS rootUser rootGroup rootPerms opts s =
     (let (st, s) = NewStat ''/'' rootUser rootGroup (rootPerms OR DMDIR) s;
          (d, s) = new_node (NDir (NewStaticDir st)) s;
          fs = \<lparr>fs_Root = d, fs_CreateFile = None, fs_CreateDir = None, fs_WalkFail = None,
                fs_RemoveFile = None, fs_ignorePerms = False, fs_authFile = None\<rparr>
      in (fold (\<lambda>opt fs. opt fs) opts fs, d, s))"

end
