(* ===== verification/Fs_Srv.thy ===== *)
theory Fs_Srv
  imports Fs_Server Go9p_Loops
begin

text \<open>
  The file server as a \<^verbatim>\<open>go9p.Srv\<close>: the handlers of fs/server.go and the contexts of its
  \<^verbatim>\<open>conn\<close> fill the record the loops of server.go work with, and satisfy their contract.
\<close>

definition fs_Srv ::
    "('s, 'n) fsops \<Rightarrow> ('s, 'n) FS \<Rightarrow> ((string \<times> 'n) list \<Rightarrow> 'n list) \<Rightarrow> ('n conn \<times> 's) Srv" where
  "fs_Srv ops fs order =
     \<lparr>Srv_Version = (\<lambda>t (c, s). srv_Version t c s),
      Srv_Auth = (\<lambda>t (c, s). srv_Auth ops fs t c s),
      Srv_Attach = (\<lambda>t (c, s). srv_Attach ops fs t c s),
      Srv_Walk = (\<lambda>t (c, s). srv_Walk ops fs t c s),
      Srv_Open = (\<lambda>t (c, s). srv_Open ops fs order t c s),
      Srv_Create = (\<lambda>t (c, s). srv_Create ops fs t c s),
      Srv_Read = (\<lambda>t (c, s). srv_Read ops t c s),
      Srv_Write = (\<lambda>t (c, s). srv_Write ops t c s),
      Srv_Clunk = (\<lambda>t (c, s). srv_Clunk ops t c s),
      Srv_Remove = (\<lambda>t (c, s). srv_Remove ops fs t c s),
      Srv_Stat = (\<lambda>t (c, s). srv_Stat ops t c s),
      Srv_Wstat = (\<lambda>t (c, s). srv_Wstat ops fs t c s),
      Conn_TagContext = (\<lambda>tag (c, s). let (ctx, c) = TagContext tag c in (ctx, (c, s))),
      Conn_DropContext = (\<lambda>tag (c, s). (DropContext tag c, s)),
      Ctx_Err = (\<lambda>ctx (c, s). c_cancelled c ctx)\<rparr>"

section \<open>Every handler answers its request\<close>

text \<open>The part of a connection that the handlers leave alone.\<close>

definition conn_core :: "'n conn \<Rightarrow> u32 \<times> (u16 \<rightharpoonup> nat) \<times> nat \<times> (nat \<Rightarrow> bool)" where
  "conn_core c = (c_connID c, c_tags c, c_nextctx c, c_cancelled c)"

definition answers :: "u16 \<Rightarrow> 'n conn \<Rightarrow> ((go_error + fcall) \<times> 'n conn \<times> 's) option \<Rightarrow> bool" where
  "answers tag c x =
     (case x of None \<Rightarrow> True
      | Some (ret, c', _) \<Rightarrow>
          conn_core c' = conn_core c \<and> (case ret of Inl _ \<Rightarrow> True | Inr m \<Rightarrow> GetTag m = tag))"

lemma conn_core_simps [simp]:
  "conn_core (fids_Store fid i c) = conn_core c" "conn_core (fids_Delete fid c) = conn_core c"
  "conn_core (c\<lparr>c_msize := m\<rparr>) = conn_core c"
  by (simp_all add: conn_core_def fids_Store_def fids_Delete_def)

lemma answers_simps [simp]:
  "answers tag c None"
  "answers tag c (Some (Inl e, c', s)) \<longleftrightarrow> conn_core c' = conn_core c"
  "answers tag c (Some (Inr m, c', s)) \<longleftrightarrow> conn_core c' = conn_core c \<and> GetTag m = tag"
  by (simp_all add: answers_def)

lemma answers_bind: "(\<And>x. m = Some x \<Longrightarrow> answers tag c (f x)) \<Longrightarrow> answers tag c (m \<bind> f)"
  by (cases m) simp_all

lemma GetTag_simps [simp]:
  "GetTag (mk_RError tag msg) = tag" "GetTag (mk_RWalk tag qs) = tag" "GetTag (mk_RRead tag d) = tag"
  "GetTag (F_TRVersion m1) = h_Tag (ver_Header m1)" "GetTag (F_RAuth m2) = h_Tag (rau_Header m2)"
  "GetTag (F_RAttach m3) = h_Tag (rat_Header m3)" "GetTag (F_ROpen m4) = h_Tag (rop_Header m4)"
  "GetTag (F_RCreate m5) = h_Tag (rcr_Header m5)" "GetTag (F_RWrite m6) = h_Tag (rwr_Header m6)"
  "GetTag (F_RClunk m7) = h_Tag (rcl_Header m7)" "GetTag (F_RRemove m8) = h_Tag (rrm_Header m8)"
  "GetTag (F_RStat m9) = h_Tag (rst_Header m9)" "GetTag (F_RWstat m10) = h_Tag (rws_Header m10)"
  by (simp_all add: GetTag_def mk_RError_def mk_RWalk_def mk_RRead_def)

lemma walk_child_tag:
  "walk_child ops fs tag dir cs name s = Some (Inl m, s') \<Longrightarrow> GetTag m = tag"
  by (auto simp: walk_child_def split: option.splits bind_splits sum.splits if_splits)

lemma walk_names_tag:
  "walk_names ops fs tag k names f qids s = Some (Inl m, s') \<Longrightarrow> GetTag m = tag"
  by (induction k arbitrary: names f qids s)
    (auto split: bind_splits if_splits list.splits sum.splits, (metis walk_child_tag)+)

lemma readDir_tag: "readDir ops t info s = Some (m, s') \<Longrightarrow> GetTag m = h_Tag (trd_Header t)"
  by (auto simp: readDir_def split: extra.splits bind_splits option.splits)

lemma readDir_clamped_tag:
  "readDir ops (t\<lparr>trd_Count := n\<rparr>) info s = Some (m, s') \<Longrightarrow> GetTag m = h_Tag (trd_Header t)"
  using readDir_tag [of ops "t\<lparr>trd_Count := n\<rparr>"] by simp

lemma open_node_tag:
  "open_node ops order t cf info s = Some (Inl m, s') \<Longrightarrow> GetTag m = h_Tag (top_Header t)"
  by (auto simp: open_node_def Let_def split: bind_splits option.splits if_splits)

named_theorems answering

lemmas answer_splits = option.split sum.split prod.split extra.split if_split

lemma answers_Version [answering]: "answers (h_Tag (ver_Header t)) c (srv_Version t c s)"
  by (simp add: srv_Version_def Let_def)

lemma answers_Auth [answering]: "answers (h_Tag (tau_Header t)) c (srv_Auth ops fs t c s)"
  by (auto simp: srv_Auth_def Let_def intro!: answers_bind split: answer_splits)

lemma answers_Attach [answering]: "answers (h_Tag (tat_Header t)) c (srv_Attach ops fs t c s)"
  by (auto simp: srv_Attach_def Let_def intro!: answers_bind split: answer_splits)

lemma answers_Walk [answering]: "answers (h_Tag (twk_Header t)) c (srv_Walk ops fs t c s)"
  by (auto simp: srv_Walk_def Let_def intro!: answers_bind split: answer_splits intro: walk_names_tag)

lemma answers_Open [answering]: "answers (h_Tag (top_Header t)) c (srv_Open ops fs order t c s)"
  by (auto simp: srv_Open_def Let_def intro!: answers_bind split: answer_splits)
    (metis open_node_tag)+

lemma answers_Create [answering]: "answers (h_Tag (tcr_Header t)) c (srv_Create ops fs t c s)"
  by (auto simp: srv_Create_def Let_def intro!: answers_bind split: answer_splits)

lemma answers_Read [answering]: "answers (h_Tag (trd_Header t)) c (srv_Read ops t c s)"
  by (auto simp: srv_Read_def Let_def intro!: answers_bind split: answer_splits)
    (metis readDir_tag readDir_clamped_tag)+

lemma answers_Write [answering]: "answers (h_Tag (twr_Header t)) c (srv_Write ops t c s)"
  by (auto simp: srv_Write_def Let_def intro!: answers_bind split: answer_splits)

lemma answers_Clunk [answering]: "answers (h_Tag (tcl_Header t)) c (srv_Clunk ops t c s)"
  by (auto simp: srv_Clunk_def Let_def intro!: answers_bind split: answer_splits)

lemma answers_Remove [answering]: "answers (h_Tag (trm_Header t)) c (srv_Remove ops fs t c s)"
  by (auto simp: srv_Remove_def Let_def intro!: answers_bind split: answer_splits)

lemma answers_Stat [answering]: "answers (h_Tag (tst_Header t)) c (srv_Stat ops t c s)"
  by (auto simp: srv_Stat_def Let_def intro!: answers_bind split: answer_splits)

lemma answers_Wstat [answering]: "answers (h_Tag (tws_Header t)) c (srv_Wstat ops fs t c s)"
  by (auto simp: srv_Wstat_def Let_def intro!: answers_bind split: answer_splits)

section \<open>The contract of the serving loops\<close>

text \<open>Contexts are numbered in the order of their creation and those of live tags are not cancelled.\<close>

definition conn_ok :: "'n conn \<Rightarrow> bool" where
  "conn_ok c \<longleftrightarrow>
     (\<forall>tag ctx. c_tags c tag = Some ctx \<longrightarrow> ctx < c_nextctx c \<and> \<not> c_cancelled c ctx) \<and>
     (\<forall>ctx. c_cancelled c ctx \<longrightarrow> ctx < c_nextctx c) \<and>
     inj_on (c_tags c) (dom (c_tags c))"

lemma conn_ok_core: "conn_core c' = conn_core c \<Longrightarrow> conn_ok c' = conn_ok c"
  by (simp add: conn_ok_def conn_core_def)

lemma conn_ok_TagContext:
  assumes "conn_ok c"
  shows "conn_ok (snd (TagContext tag c))"
proof (cases "c_tags c tag")
  case None
  have "c_tags c t \<noteq> Some (c_nextctx c)" for t using assms by (auto simp: conn_ok_def)
  with None assms show ?thesis
    by (auto simp: conn_ok_def TagContext_def Let_def inj_on_def less_Suc_eq)
qed (use assms in \<open>simp add: TagContext_def\<close>)

lemma conn_ok_DropContext: "conn_ok c \<Longrightarrow> conn_ok (DropContext tag c)"
  unfolding conn_ok_def DropContext_def inj_on_def
  by (auto simp: dom_def split: option.splits)

lemma NewConn_ok: "conn_ok (fst (NewConn sv))"
  by (simp add: NewConn_def conn_ok_def Let_def)

lemma dispatch_answers:
  assumes "dispatch (fs_Srv ops fs order) call = Some h"
  shows "answers (GetTag call) c (h (c, s))"
  using assms answering
  by (cases call) (auto simp: dispatch_def fs_Srv_def GetTag_def)

interpretation fs: srv_contract "fs_Srv ops fs order" "\<lambda>(c, s). conn_ok c" "\<lambda>(c, s). c_tags c"
  for ops :: "('s, 'n) fsops" and fs order
proof (unfold_locales, goal_cases)
  case (1 c tag ctx c')
  then show ?case
    using conn_ok_TagContext [of "fst c" tag]
    by (auto simp: fs_Srv_def TagContext_def Let_def split: prod.splits option.splits)
next
  case (2 c tag ctx)
  then show ?case by (auto simp: fs_Srv_def TagContext_def split: prod.splits)
next
  case (3 c tag ctx)
  then show ?case by (auto simp: fs_Srv_def conn_ok_def)
next
  case (4 c tag)
  then show ?case
    using conn_ok_DropContext [of "fst c" tag]
    by (auto simp: fs_Srv_def DropContext_def fun_upd_idem split: prod.splits option.splits)
next
  case (5 c tag ctx)
  then show ?case by (auto simp: fs_Srv_def DropContext_def split: prod.splits)
next
  case (6 c call h ret c')
  then show ?case
    using dispatch_answers [of ops fs order call h "fst c" "snd c"] conn_ok_core [of "fst c'" "fst c"]
    by (cases c; cases c') (auto simp: answers_def conn_core_def)
next
  case (7 c call h m c')
  then show ?case
    using dispatch_answers [of ops fs order call h "fst c" "snd c"]
    by (cases c; cases c') (auto simp: answers_def)
qed

end
