(* ===== verification/Server_Props.thy ===== *)
theory Server_Props
  imports Fs_Srv
begin

text \<open>
  What the handlers of the file server guarantee over every provider of nodes that keeps the laws
  of \<open>fs_nodes\<close>: directory reads serve whole entries from the right offset, replies fit the
  negotiated message size, opening and changing a stat need the permissions the mode bits give,
  and a refused request leaves everything as it was.
\<close>

definition stat_at :: "('s, 'n) fsops \<Rightarrow> 'n \<Rightarrow> 's \<Rightarrow> Stat option" where
  "stat_at ops n s = map_option fst (op_Stat ops n s)"

section \<open>Reference definitions of a directory read\<close>

text \<open>The number of entries that end at or before an offset.\<close>

fun skip_entries :: "nat \<Rightarrow> Stat list \<Rightarrow> nat" where
  "skip_entries off [] = 0"
| "skip_entries off (st # sts) =
     (if off < stat_size st then 0 else Suc (skip_entries (off - stat_size st) sts))"

text \<open>The number of entries that fit into a cnt of bytes.\<close>

fun fit_entries :: "nat \<Rightarrow> Stat list \<Rightarrow> nat" where
  "fit_entries cnt [] = 0"
| "fit_entries cnt (st # sts) =
     (if stat_size st \<le> cnt then Suc (fit_entries (cnt - stat_size st) sts) else 0)"

definition dir_bytes :: "nat \<Rightarrow> nat \<Rightarrow> Stat list \<Rightarrow> bytes" where
  "dir_bytes off cnt sts =
     (let rest = drop (skip_entries off sts) sts
      in concat (map enc_stat (take (fit_entries cnt rest) rest)))"

abbreviation sizes :: "Stat list \<Rightarrow> nat" where
  "sizes sts \<equiv> sum_list (map stat_size sts)"

lemma stat_size_pos: "0 < stat_size st"
  by (simp add: stat_size_def)

lemma ComposeLength_u64: "stat_ok st \<Longrightarrow> unat (ucast (Stat_ComposeLength st) :: u64) = stat_size st"
  by (simp add: unsigned_ucast_eq) (simp add: stat_ok_def take_bit_nat_eq_self)

lemma ComposeLength_u32: "stat_ok st \<Longrightarrow> unat (ucast (Stat_ComposeLength st) :: u32) = stat_size st"
  by (simp add: unsigned_ucast_eq) (simp add: stat_ok_def take_bit_nat_eq_self)

lemma skip_entries_le: "skip_entries off sts \<le> length sts"
  by (induction off sts rule: skip_entries.induct) auto

lemma fit_entries_le: "fit_entries cnt sts \<le> length sts"
  by (induction cnt sts rule: fit_entries.induct) auto

lemma fit_entries_size: "sizes (take (fit_entries cnt sts) sts) \<le> cnt"
  by (induction cnt sts rule: fit_entries.induct) auto

lemma skip_entries_sizes: "skip_entries (sizes (take k sts)) sts = min k (length sts)"
proof (induction sts arbitrary: k)
  case (Cons st sts)
  then show ?case using stat_size_pos by (cases k) auto
qed simp

lemma length_enc_stats: "length (concat (map enc_stat sts)) = sizes sts"
  by (simp add: length_concat comp_def)

lemma dir_bytes_aligned:
  assumes "k \<le> length sts"
  obtains j where "dir_bytes (sizes (take k sts)) cnt sts = concat (map enc_stat (take j (drop k sts)))"
    "sizes (take j (drop k sts)) \<le> cnt"
    "k < length sts \<Longrightarrow> stat_size (sts ! k) \<le> cnt \<Longrightarrow> 0 < j"
proof (rule that [of "fit_entries cnt (drop k sts)"])
  show "dir_bytes (sizes (take k sts)) cnt sts =
      concat (map enc_stat (take (fit_entries cnt (drop k sts)) (drop k sts)))"
    using assms by (simp add: dir_bytes_def skip_entries_sizes Let_def)
  show "sizes (take (fit_entries cnt (drop k sts)) (drop k sts)) \<le> cnt" by (rule fit_entries_size)
  show "0 < fit_entries cnt (drop k sts)" if "k < length sts" "stat_size (sts ! k) \<le> cnt"
    using that(2) by (subst Cons_nth_drop_Suc [OF that(1), symmetric]) simp
qed

lemma mk_RRead_inj [simp]: "mk_RRead tag d = mk_RRead tag' d' \<longleftrightarrow> tag = tag' \<and> d = d'"
  by (auto simp: mk_RRead_def)

section \<open>The size of a read\<close>

lemma unat_u32_u64: "unat (ucast (x :: u32) :: u64) = unat x"
proof -
  have "unat x < 2 ^ 32" using unsigned_less [of x] by simp
  then have "unat x < 2 ^ 64" by simp
  then show ?thesis by (simp add: unsigned_ucast_eq take_bit_nat_eq_self)
qed

text \<open>The cnt a read serves: what was asked for, cut to what the message size leaves.\<close>

definition clamp :: "u32 \<Rightarrow> u32 \<Rightarrow> u32" where
  "clamp msize cnt = (if cnt > msize - 11 then msize - 11 else cnt)"

lemma clamp_bound:
  assumes "11 \<le> msize" "msize \<le> 65535"
  shows "11 + unat (clamp msize cnt) \<le> unat msize" "unat (clamp msize cnt) < 2 ^ 31"
    "unat (clamp msize cnt) \<le> unat cnt"
proof -
  have m: "11 \<le> unat msize" "unat msize \<le> 65535" using assms by (simp_all add: word_le_nat_alt)
  have "unat (msize - 11) = unat msize - 11" using assms(1) by (simp add: unat_sub)
  with m show "11 + unat (clamp msize cnt) \<le> unat msize" "unat (clamp msize cnt) < 2 ^ 31"
    "unat (clamp msize cnt) \<le> unat cnt"
    by (auto simp: clamp_def word_less_nat_alt)
qed

section \<open>Observing requests\<close>

context fs_nodes
begin

lemma Stat_at:
  assumes "valid s" "stat_at ops n s = Some st"
  obtains s' where "op_Stat ops n s = Some (st, s')" "valid s'" "view s' = view s"
proof -
  obtain s' where "op_Stat ops n s = Some (st, s')"
    using assms(2) by (auto simp: stat_at_def)
  with Stat_stable [OF assms(1) this] that show thesis by blast
qed

lemma stat_at_view: "valid s \<Longrightarrow> valid s' \<Longrightarrow> view s = view s' \<Longrightarrow> stat_at ops n s = stat_at ops n s'"
  unfolding stat_at_def by (rule view_Stat)

lemma stats_view:
  assumes "valid s" "valid s'" "view s' = view s"
    "list_all2 (\<lambda>n st. stat_at ops n s = Some st) ns sts"
  shows "list_all2 (\<lambda>n st. stat_at ops n s' = Some st) ns sts"
proof -
  have "stat_at ops n s' = stat_at ops n s" for n
    by (rule stat_at_view [OF assms(2,1,3)])
  with assms(4) show ?thesis by simp
qed

lemma readDir_start_eq:
  assumes "valid s" "list_all2 (\<lambda>n st. stat_at ops n s = Some st) ns sts" "list_all stat_ok sts"
    "len \<le> offset" "unat len + sizes sts < 2 ^ 64"
  shows "\<exists>s'. readDir_start ops len offset ns s =
      Some (let k = skip_entries (unat offset - unat len) sts
            in if k < length sts then Some (drop k ns) else None, s') \<and>
    valid s' \<and> view s' = view s"
  using assms
proof (induction ns arbitrary: sts len s)
  case (Cons n ns)
  obtain st sts' where sts: "sts = st # sts'" "stat_at ops n s = Some st"
    "list_all2 (\<lambda>n st. stat_at ops n s = Some st) ns sts'"
    using Cons.prems(2) by (cases sts) auto
  obtain s1 where s1: "op_Stat ops n s = Some (st, s1)" "valid s1" "view s1 = view s"
    using Cons.prems(1) sts(2) by (rule Stat_at)
  let ?next = "ucast (Stat_ComposeLength st) :: u64"
  have size: "unat ?next = stat_size st"
    using Cons.prems(3) sts(1) by (simp add: ComposeLength_u64)
  then have len: "unat (len + ?next) = unat len + stat_size st"
    using Cons.prems(5) sts(1) by (simp add: unat_word_ariths)
  show ?case
  proof (cases "len + ?next > offset")
    case True
    then have "unat offset - unat len < stat_size st"
      using len Cons.prems(4) by (simp add: word_less_nat_alt word_le_nat_alt)
    with True s1 sts(1) show ?thesis by (simp add: Let_def)
  next
    case False
    then have off: "\<not> unat offset - unat len < stat_size st" "len + ?next \<le> offset"
      "unat offset - unat (len + ?next) = unat offset - unat len - stat_size st"
      using len Cons.prems(4) by (simp_all add: word_less_nat_alt word_le_nat_alt)
    have all: "list_all2 (\<lambda>n st. stat_at ops n s1 = Some st) ns sts'" "list_all stat_ok sts'"
      using stats_view [OF Cons.prems(1) s1(2,3) sts(3)] Cons.prems(3) sts(1) by auto
    have bound: "unat (len + ?next) + sizes sts' < 2 ^ 64"
      using Cons.prems(5) sts(1) len by simp
    obtain s' where
      "readDir_start ops (len + ?next) offset ns s1 =
        Some (let k = skip_entries (unat offset - unat (len + ?next)) sts'
              in if k < length sts' then Some (drop k ns) else None, s')"
      "valid s'" "view s' = view s1"
      using Cons.IH [OF s1(2) all off(2) bound] by blast
    with False off s1 sts(1) show ?thesis by (simp add: Let_def)
  qed
qed simp

lemma readDir_fill_eq:
  assumes "valid s" "list_all2 (\<lambda>n st. stat_at ops n s = Some st) ns sts" "list_all stat_ok sts"
    "length contents \<le> unat cnt" "unat cnt < 2 ^ 31"
  shows "\<exists>s'. readDir_fill ops cnt contents ns s =
      Some (contents @ concat (map enc_stat (take (fit_entries (unat cnt - length contents) sts) sts)), s') \<and>
    valid s' \<and> view s' = view s"
  using assms
proof (induction ns arbitrary: sts contents s)
  case (Cons n ns)
  obtain st sts' where sts: "sts = st # sts'" "stat_at ops n s = Some st"
    "list_all2 (\<lambda>n st. stat_at ops n s = Some st) ns sts'"
    using Cons.prems(2) by (cases sts) auto
  obtain s1 where s1: "op_Stat ops n s = Some (st, s1)" "valid s1" "view s1 = view s"
    using Cons.prems(1) sts(2) by (rule Stat_at)
  have ok: "stat_ok st" "stat_size st < 2 ^ 16" using Cons.prems(3) sts(1) by (auto simp: stat_ok_def)
  let ?sum = "of_nat (length contents) + ucast (Stat_ComposeLength st) :: u32"
  have "unat (of_nat (length contents) :: u32) = length contents"
    using Cons.prems(4,5) by (simp add: unsigned_of_nat take_bit_nat_eq_self)
  then have sum: "unat ?sum = length contents + stat_size st"
    using Cons.prems(4,5) ok ComposeLength_u32 [OF ok(1)] by (simp add: unat_word_ariths)
  show ?case
  proof (cases "?sum > cnt")
    case True
    then have "\<not> stat_size st \<le> unat cnt - length contents"
      using sum Cons.prems(4) by (simp add: word_less_nat_alt)
    with True s1 sts(1) show ?thesis by simp
  next
    case False
    then have fits: "stat_size st \<le> unat cnt - length contents"
      "length (contents @ enc_stat st) \<le> unat cnt"
      using sum Cons.prems(4) by (simp_all add: word_less_nat_alt)
    have all: "list_all2 (\<lambda>n st. stat_at ops n s1 = Some st) ns sts'" "list_all stat_ok sts'"
      using stats_view [OF Cons.prems(1) s1(2,3) sts(3)] Cons.prems(3) sts(1) by auto
    obtain s' where
      "readDir_fill ops cnt (contents @ enc_stat st) ns s1 =
        Some ((contents @ enc_stat st) @
          concat (map enc_stat (take (fit_entries (unat cnt - length (contents @ enc_stat st)) sts') sts')), s')"
      "valid s'" "view s' = view s1"
      using Cons.IH [OF s1(2) all fits(2) Cons.prems(5)] by blast
    with False fits s1 sts(1) ok show ?thesis by (simp add: Stat_Compose_enc)
  qed
qed simp

lemma readDir_eq:
  assumes "valid s" "list_all2 (\<lambda>n st. stat_at ops n s = Some st) ns sts" "list_all stat_ok sts"
    "sizes sts < 2 ^ 64" "unat (trd_Count t) < 2 ^ 31" "fi_extra info = ExNodes ns"
  shows "\<exists>s'. readDir ops t info s =
      Some (mk_RRead (h_Tag (trd_Header t)) (dir_bytes (unat (trd_Offset t)) (unat (trd_Count t)) sts), s') \<and>
    valid s' \<and> view s' = view s"
proof -
  let ?k = "skip_entries (unat (trd_Offset t)) sts"
  obtain s1 where s1: "readDir_start ops 0 (trd_Offset t) ns s =
      Some (if ?k < length sts then Some (drop ?k ns) else None, s1)" "valid s1" "view s1 = view s"
    using readDir_start_eq [OF assms(1-3), of 0 "trd_Offset t"] assms(4) by (auto simp: Let_def)
  show ?thesis
  proof (cases "?k < length sts")
    case True
    have all: "list_all2 (\<lambda>n st. stat_at ops n s1 = Some st) (drop ?k ns) (drop ?k sts)"
      using stats_view [OF assms(1) s1(2,3) assms(2)] by (rule list_all2_dropI)
    have oks: "list_all stat_ok (drop ?k sts)"
      using assms(3) by (auto simp: list_all_iff dest: in_set_dropD)
    obtain s2 where "readDir_fill ops (trd_Count t) [] (drop ?k ns) s1 =
        Some (dir_bytes (unat (trd_Offset t)) (unat (trd_Count t)) sts, s2)"
      "valid s2" "view s2 = view s1"
      using readDir_fill_eq [OF s1(2) all oks, of "[]" "trd_Count t"] assms(5)
      by (simp add: dir_bytes_def Let_def) blast
    with s1 True assms(6) show ?thesis by (simp add: readDir_def)
  qed (use s1 assms(6) in \<open>simp add: readDir_def dir_bytes_def Let_def\<close>)
qed

lemma readDir_start_view:
  "valid s \<Longrightarrow> readDir_start ops len offset ns s = Some (r, s') \<Longrightarrow> valid s' \<and> view s' = view s"
  by (induction ns arbitrary: len s)
    (simp, simp add: Let_def split: bind_splits prod.splits if_splits, (metis Stat_stable)+)

lemma readDir_fill_view:
  "valid s \<Longrightarrow> readDir_fill ops cnt contents ns s = Some (d, s') \<Longrightarrow> valid s' \<and> view s' = view s"
  by (induction ns arbitrary: contents s)
    (simp, simp add: Let_def split: bind_splits prod.splits if_splits, (metis Stat_stable)+)

lemma readDir_view:
  assumes "valid s" "readDir ops t info s = Some (m, s')"
  shows "valid s' \<and> view s' = view s"
proof -
  obtain ns start s1 where ns: "fi_extra info = ExNodes ns"
    "readDir_start ops 0 (trd_Offset t) ns s = Some (start, s1)"
    using assms(2) by (auto simp: readDir_def split: extra.splits bind_splits)
  have s1: "valid s1 \<and> view s1 = view s" using readDir_start_view assms(1) ns(2) by blast
  show ?thesis
  proof (cases start)
    case None
    with assms(2) ns s1 show ?thesis by (simp add: readDir_def)
  next
    case (Some rest)
    then obtain d where "readDir_fill ops (trd_Count t) [] rest s1 = Some (d, s')"
      using assms(2) ns by (auto simp: readDir_def split: bind_splits)
    with s1 readDir_fill_view show ?thesis by metis
  qed
qed

lemma readDir_fill_bound:
  assumes "readDir_fill ops cnt contents ns s = Some (d, s')"
    "length contents \<le> unat cnt" "unat cnt < 2 ^ 31"
  shows "length d \<le> unat cnt"
  using assms
proof (induction ns arbitrary: contents s)
  case (Cons n ns)
  obtain st s1 where st: "op_Stat ops n s = Some (st, s1)"
    using Cons.prems(1) by (auto split: bind_splits)
  let ?sum = "of_nat (length contents) + ucast (Stat_ComposeLength st) :: u32"
  show ?case
  proof (cases "?sum > cnt")
    case False
    then obtain bs where bs: "Stat_Compose st = Some bs"
      "readDir_fill ops cnt (contents @ bs) ns s1 = Some (d, s')"
      using Cons.prems(1) st by (auto simp: Let_def split: bind_splits)
    then have ok: "stat_ok st" "bs = enc_stat st" by (auto simp: Stat_Compose_iff split: if_splits)
    have "unat (of_nat (length contents) :: u32) = length contents"
      using Cons.prems(2,3) by (simp add: unsigned_of_nat take_bit_nat_eq_self)
    then have "unat ?sum = length contents + stat_size st"
      using Cons.prems(2,3) ok(1) ComposeLength_u32 [OF ok(1)]
      by (simp add: unat_word_ariths stat_ok_def)
    with False have "length (contents @ bs) \<le> unat cnt" using ok(2) by (simp add: word_less_nat_alt)
    then show ?thesis by (rule Cons.IH [OF bs(2) _ Cons.prems(3)])
  qed (use Cons.prems st in \<open>simp add: Let_def\<close>)
qed simp

lemma readDir_bound:
  assumes "readDir ops t info s = Some (m, s')" "unat (trd_Count t) < 2 ^ 31"
  shows "\<exists>d. m = mk_RRead (h_Tag (trd_Header t)) d \<and> length d \<le> unat (trd_Count t)"
  using assms readDir_fill_bound [of "trd_Count t" "[]"]
  by (auto simp: readDir_def split: extra.splits bind_splits option.splits)

text \<open>The replies to a read: their size, and that nothing observable changes.\<close>

lemma srv_Read_cases:
  assumes "srv_Read ops t c s = Some (ret, c', s')"
  shows "c' = c \<and> (s' = s \<and> (\<exists>e. ret = Inr (mk_RError (h_Tag (trd_Header t)) e))
    \<or> (\<exists>info r. c_fids c (trd_Fid t) = Some info \<and>
        op_Read ops (fi_n info) (toConnFid c (trd_Fid t)) (trd_Offset t)
          (ucast (clamp (c_msize c) (trd_Count t))) s = Some (r, s') \<and>
        ret = Inr (case r of Inl e \<Rightarrow> mk_RError (h_Tag (trd_Header t)) (error_text e)
                   | Inr d \<Rightarrow> mk_RRead (h_Tag (trd_Header t)) d))
    \<or> (\<exists>info m. c_fids c (trd_Fid t) = Some info \<and>
        readDir ops (t\<lparr>trd_Count := clamp (c_msize c) (trd_Count t)\<rparr>) info s = Some (m, s') \<and> ret = Inr m))"
proof -
  have t: "(if trd_Count t > c_msize c - 11 then t\<lparr>trd_Count := c_msize c - 11\<rparr> else t) =
      t\<lparr>trd_Count := clamp (c_msize c) (trd_Count t)\<rparr>"
    by (simp add: clamp_def)
  show ?thesis
    using assms unfolding srv_Read_def Let_def t
    by (auto split: option.splits if_splits bind_splits sum.splits)
qed

lemma srv_Read_view:
  assumes "valid s" "srv_Read ops t c s = Some (ret, c', s')"
  shows "valid s' \<and> view s' = view s"
proof -
  consider "s' = s"
    | n fid off cnt r where "op_Read ops n fid off cnt s = Some (r, s')"
    | t' info m where "readDir ops t' info s = Some (m, s')"
    using srv_Read_cases [OF assms(2)] by blast
  then show ?thesis
  proof cases
    case 2
    then show ?thesis by (rule Read_view [OF assms(1)])
  next
    case 3
    then show ?thesis by (rule readDir_view [OF assms(1)])
  qed (simp add: assms(1))
qed

lemma srv_Read_fits:
  assumes "valid s" "11 \<le> c_msize c" "c_msize c \<le> 65535"
    "srv_Read ops t c s = Some (Inr (F_RRead m), c', s')"
  shows "11 + length (rrd_Data m) \<le> unat (c_msize c) \<and> length (rrd_Data m) \<le> unat (trd_Count t) \<and>
    unat (rrd_Count m) = length (rrd_Data m)"
proof -
  let ?n = "clamp (c_msize c) (trd_Count t)"
  note n = clamp_bound [OF assms(2,3), of "trd_Count t"]
  consider e where "F_RRead m = mk_RError (h_Tag (trd_Header t)) e"
    | k fid off r where "op_Read ops k fid off (ucast ?n) s = Some (r, s')"
        "F_RRead m = (case r of Inl e \<Rightarrow> mk_RError (h_Tag (trd_Header t)) (error_text e)
                      | Inr d \<Rightarrow> mk_RRead (h_Tag (trd_Header t)) d)"
    | info where "readDir ops (t\<lparr>trd_Count := ?n\<rparr>) info s = Some (F_RRead m, s')"
    using srv_Read_cases [OF assms(4)] by (elim conjE disjE exE) auto
  then obtain d where d: "F_RRead m = mk_RRead (h_Tag (trd_Header t)) d" "length d \<le> unat ?n"
  proof cases
    case 2
    with that Read_bounded [OF assms(1)] show thesis
      by (cases r) (auto simp: mk_RError_def simp flip: unat_u32_u64)
  next
    case 3
    from readDir_bound [OF this] n(2) that show thesis by auto
  qed (simp add: mk_RError_def)
  show ?thesis using d n by (auto simp: mk_RRead_def unsigned_of_nat take_bit_nat_eq_self)
qed

end

end
