(* ===== verification/Server_Rights.thy ===== *)
theory Server_Rights
  imports Server_Props
begin

text \<open>
  Access rights: which requests open a fid and which change a stat, and what the user must be
  allowed to do for it.
\<close>

section \<open>The rights a change of the stat needs\<close>

definition wstat_rights :: "Stat \<Rightarrow> string \<Rightarrow> Stat \<Rightarrow> bool" where
  "wstat_rights st user new \<longleftrightarrow>
     (st_Name new \<noteq> [] \<longrightarrow> user = st_Uid st) \<and>
     (st_Length new \<noteq> -1 \<and> st_Length new \<noteq> st_Length st \<longrightarrow> permits st user Owrite) \<and>
     (st_Mode new \<noteq> -1 \<and> st_Mode new \<noteq> st_Mode st \<longrightarrow> user = st_Uid st) \<and>
     (st_Mtime new \<noteq> -1 \<and> st_Mtime new \<noteq> st_Mtime st \<longrightarrow> user = st_Uid st) \<and>
     (st_Gid new \<noteq> [] \<longrightarrow> user = st_Uid st \<and> user = st_Gid new)"

lemma wstat_apply_mode:
  "st_Mode (wstat_apply st new) AND NOT 0x1FF = st_Mode st AND NOT 0x1FF"
proof -
  have "((m AND NOT k) OR (n AND k)) AND NOT k = m AND NOT k" for m n k :: u32
    by (rule bit_word_eqI) (auto simp: bit_simps)
  from this [where k = "0x1FF"] show ?thesis by (simp add: wstat_apply_def Let_def)
qed

lemma wstat_apply_keeps:
  "st_Qid (wstat_apply st new) = st_Qid st" "st_Uid (wstat_apply st new) = st_Uid st"
  "st_Muid (wstat_apply st new) = st_Muid st" "st_Atime (wstat_apply st new) = st_Atime st"
  "st_Type (wstat_apply st new) = st_Type st" "st_Dev (wstat_apply st new) = st_Dev st"
  by (simp_all add: wstat_apply_def Let_def)

context fs_nodes
begin

lemma wstat_check_eq:
  assumes "valid s" "op_Stat ops (fi_n info) s = Some (st, s)"
    "relation = ugo_user \<longleftrightarrow> fi_uname info = st_Uid st"
  shows "wstat_check ops ig info st relation new s =
     Some (ig \<or> wstat_rights st (fi_uname info) new, s)"
  using openPermission_stat [OF assms(1,2)] assms(2,3)
  by (auto simp: wstat_check_def wstat_rights_def userInGroup_def)

lemma userRelation_eq:
  "op_Stat ops n s = Some (st, s') \<Longrightarrow>
     \<exists>r. userRelation ops user n s = Some (r, s') \<and> (r = ugo_user \<longleftrightarrow> user = st_Uid st)"
  by (simp add: userRelation_def)

text \<open>The handler of Twstat, as one decision on the rights and one write of the new stat.\<close>

lemma srv_Wstat_eq:
  assumes "valid s" "c_fids c (tws_Fid t) = Some info" "op_Stat ops (fi_n info) s = Some (st, s1)"
  shows "srv_Wstat ops fs t c s =
     (if fs_ignorePerms fs \<or> wstat_rights st (fi_uname info) (tws_Stat t)
      then case op_WriteStat ops (fi_n info) (wstat_apply st (tws_Stat t)) s1 of
             None \<Rightarrow> None
           | Some (Some e, s') \<Rightarrow> reply (mk_RError (h_Tag (tws_Header t)) (error_text e)) c s'
           | Some (None, s') \<Rightarrow> reply (F_RWstat \<lparr>rws_Header = mk_Header Rwstat (h_Tag (tws_Header t))\<rparr>) c s'
      else reply (mk_RError (h_Tag (tws_Header t)) ''Permission denied.'') c s1)"
proof -
  have s1: "valid s1" "op_Stat ops (fi_n info) s1 = Some (st, s1)"
    using Stat_stable [OF assms(1,3)] by auto
  obtain r where r: "userRelation ops (fi_uname info) (fi_n info) s1 = Some (r, s1)"
    "r = ugo_user \<longleftrightarrow> fi_uname info = st_Uid st"
    using userRelation_eq [OF s1(2)] by blast
  note check = wstat_check_eq [OF s1 r(2), of "fs_ignorePerms fs" "tws_Stat t"]
  show ?thesis
    using assms(2,3) r(1) check
    by (auto simp: srv_Wstat_def Let_def split: option.split bind_split)
qed

text \<open>The handler of Topen, as one decision on the permission bits.\<close>

lemma srv_Open_denied:
  assumes "valid s" "c_fids c (top_Fid t) = Some info" "fi_openMode info = ONone"
    "\<not> fs_ignorePerms fs" "op_Stat ops (fi_n info) s = Some (st, s1)"
    "\<not> permits st (fi_uname info) (top_Mode t AND 0x0F)"
  shows "srv_Open ops fs order t c s =
     reply (mk_RError (h_Tag (top_Header t)) ''Permission denied.'') c s1"
  using assms openPermission_stat [OF assms(1,5)] by (simp add: srv_Open_def Let_def)

lemma srv_Open_permitted:
  assumes "valid s" "srv_Open ops fs order t c s = Some (Inr (F_ROpen r), c', s')"
  obtains info i' where "c_fids c (top_Fid t) = Some info" "fi_openMode info = ONone"
    "fs_ignorePerms fs \<or> (\<exists>st. stat_at ops (fi_n info) s = Some st \<and>
       permits st (fi_uname info) (top_Mode t AND 0x0F))"
    "c_fids c' = (c_fids c)(top_Fid t \<mapsto> i')" "fi_openMode i' = top_Mode t"
    "fi_n i' = fi_n info" "fi_uname i' = fi_uname info"
proof -
  obtain info where info: "c_fids c (top_Fid t) = Some info" "fi_openMode info = ONone"
    using assms(2)
    by (auto simp: srv_Open_def mk_RError_def Let_def split: option.splits if_splits)
  obtain b s1 where b: "(if fs_ignorePerms fs then Some (True, s)
      else openPermission ops (fi_n info) (fi_uname info) (top_Mode t AND 0x0F) s) = Some (b, s1)"
    using assms(2) info by (auto simp: srv_Open_def Let_def split: bind_splits)
  have "b" using assms(2) info b by (auto simp: srv_Open_def mk_RError_def Let_def split: if_splits)
  obtain x s2 where x: "open_node ops order t (toConnFid c (top_Fid t)) info s1 = Some (x, s2)"
    using assms(2) info b \<open>b\<close> by (auto simp: srv_Open_def Let_def split: bind_splits)
  obtain i1 where i1: "x = Inr i1"
  proof (cases x)
    case (Inl m)
    then have "m = F_ROpen r" using assms(2) info b \<open>b\<close> x by (simp add: srv_Open_def Let_def)
    with x Inl show thesis
      by (auto simp: open_node_def mk_RError_def Let_def split: if_splits bind_splits option.splits)
  qed (use that in simp)
  have i1': "fi_n i1 = fi_n info" "fi_uname i1 = fi_uname info"
    using x i1 by (auto simp: open_node_def Let_def split: if_splits bind_splits option.splits)
  have perm: "fs_ignorePerms fs \<or> (\<exists>st. stat_at ops (fi_n info) s = Some st \<and>
       permits st (fi_uname info) (top_Mode t AND 0x0F))"
  proof (cases "fs_ignorePerms fs")
    case False
    with b have "openPermission ops (fi_n info) (fi_uname info) (top_Mode t AND 0x0F) s = Some (b, s1)"
      by simp
    from openPermission_cases [OF assms(1) this] \<open>b\<close> show ?thesis by (auto simp: stat_at_def)
  qed simp
  show thesis
    using assms(2) info b \<open>b\<close> x i1
    by (auto simp: srv_Open_def fids_Store_def Let_def i1' split: bind_splits
        intro!: that [OF info perm])
qed

end

context fs_updates
begin

lemma srv_Wstat_refused:
  assumes "valid s" "srv_Wstat ops fs t c s = Some (Inr (F_RError e), c', s')"
  shows "c' = c \<and> view s' = view s"
proof (cases "c_fids c (tws_Fid t)")
  case None
  then show ?thesis using assms(2) by (simp add: srv_Wstat_def Let_def)
next
  case (Some info)
  then obtain st s1 where st: "op_Stat ops (fi_n info) s = Some (st, s1)"
    using assms(2) by (auto simp: srv_Wstat_def Let_def split: bind_splits)
  have s1: "valid s1" "view s1 = view s" using Stat_stable [OF assms(1) st] by auto
  show ?thesis
    using assms(2) WriteStat_refused [OF s1(1)] s1(2)
    unfolding srv_Wstat_eq [OF assms(1) Some st] by (auto split: if_splits option.splits)
qed

lemma srv_Wstat_accepted:
  assumes "valid s" "srv_Wstat ops fs t c s = Some (Inr (F_RWstat r), c', s')"
  obtains info st s1 where "c_fids c (tws_Fid t) = Some info" "stat_at ops (fi_n info) s = Some st"
    "fs_ignorePerms fs \<or> wstat_rights st (fi_uname info) (tws_Stat t)"
    "view s1 = view s" "op_WriteStat ops (fi_n info) (wstat_apply st (tws_Stat t)) s1 = Some (None, s')"
    "c' = c"
proof -
  obtain info where info: "c_fids c (tws_Fid t) = Some info"
    using assms(2) by (auto simp: srv_Wstat_def mk_RError_def Let_def split: option.splits)
  then obtain st s1 where st: "op_Stat ops (fi_n info) s = Some (st, s1)"
    using assms(2) by (auto simp: srv_Wstat_def Let_def split: bind_splits)
  have s1: "view s1 = view s" using Stat_stable [OF assms(1) st] by auto
  from assms(2) show thesis
    unfolding srv_Wstat_eq [OF assms(1) info st] using info st s1
    by (intro that [of info st s1])
      (auto simp: stat_at_def mk_RError_def split: if_splits option.splits)
qed

end

end
