(* ===== verification/Server_Fids.thy ===== *)
theory Server_Fids
  imports Server_Rights
begin

text \<open>
  The fid table: which requests open a fid, and under which user names its entries act. The first
  gives that the permission checks of open and create cannot be bypassed, the second that with an
  authentication function only authenticated names reach the tree.
\<close>

section \<open>What holds of the connection after a handler\<close>

definition conn_post :: "('n conn \<Rightarrow> bool) \<Rightarrow> ((go_error + fcall) \<times> 'n conn \<times> 's) option \<Rightarrow> bool" where
  "conn_post P x = (case x of None \<Rightarrow> True | Some (_, c', _) \<Rightarrow> P c')"

lemma conn_post_simps [simp]:
  "conn_post P None" "conn_post P (Some (r, c', s)) \<longleftrightarrow> P c'"
  by (simp_all add: conn_post_def)

lemma conn_post_bind: "(\<And>x. m = Some x \<Longrightarrow> conn_post P (f x)) \<Longrightarrow> conn_post P (m \<bind> f)"
  by (cases m) simp_all

lemma conn_postD: "conn_post P x \<Longrightarrow> x = Some (r, c', s) \<Longrightarrow> P c'"
  by simp

lemmas conn_post_intros = conn_post_bind

lemma fids_Store_sel [simp]: "c_fids (fids_Store fid i c) = (c_fids c)(fid \<mapsto> i)"
  by (simp add: fids_Store_def)

lemma fids_Delete_sel [simp]: "c_fids (fids_Delete fid c) = (c_fids c)(fid := None)"
  by (simp add: fids_Delete_def)

lemma newFidInfo_sel [simp]:
  "fi_openMode (newFidInfo u n) = ONone" "fi_uname (newFidInfo u n) = u" "fi_extra (newFidInfo u n) = ExNil"
  by (simp_all add: newFidInfo_def)

lemma deriveInfo_sel [simp]:
  "fi_openMode (deriveInfo i n) = ONone" "fi_uname (deriveInfo i n) = fi_uname i"
  "fi_extra (deriveInfo i n) = ExNil"
  by (simp_all add: deriveInfo_def)

section \<open>Only open, create and auth open a fid\<close>

text \<open>Every open fid of \<open>c'\<close> outside \<open>X\<close> is open in \<open>c\<close> in the same mode.\<close>

definition opens_only :: "u32 set \<Rightarrow> 'n conn \<Rightarrow> 'n conn \<Rightarrow> bool" where
  "opens_only X c c' \<longleftrightarrow>
     (\<forall>f i'. c_fids c' f = Some i' \<longrightarrow> f \<notin> X \<longrightarrow> fi_openMode i' = ONone \<or>
        map_option fi_openMode (c_fids c f) = Some (fi_openMode i'))"

primrec opened_fids :: "fcall \<Rightarrow> u32 set" where
  "opened_fids (F_TRVersion t) = {}"
| "opened_fids (F_TAuth t) = {tau_Afid t}"
| "opened_fids (F_RAuth t) = {}"
| "opened_fids (F_TAttach t) = {}"
| "opened_fids (F_RAttach t) = {}"
| "opened_fids (F_RError t) = {}"
| "opened_fids (F_TFlush t) = {}"
| "opened_fids (F_RFlush t) = {}"
| "opened_fids (F_TWalk t) = {}"
| "opened_fids (F_RWalk t) = {}"
| "opened_fids (F_TOpen t) = {top_Fid t}"
| "opened_fids (F_ROpen t) = {}"
| "opened_fids (F_TCreate t) = {tcr_Fid t}"
| "opened_fids (F_RCreate t) = {}"
| "opened_fids (F_TRead t) = {}"
| "opened_fids (F_RRead t) = {}"
| "opened_fids (F_TWrite t) = {}"
| "opened_fids (F_RWrite t) = {}"
| "opened_fids (F_TClunk t) = {}"
| "opened_fids (F_RClunk t) = {}"
| "opened_fids (F_TRemove t) = {}"
| "opened_fids (F_RRemove t) = {}"
| "opened_fids (F_TStat t) = {}"
| "opened_fids (F_RStat t) = {}"
| "opened_fids (F_TWstat t) = {}"
| "opened_fids (F_RWstat t) = {}"

lemma opens_only_refl [simp]: "opens_only X c c"
  by (auto simp: opens_only_def)

lemma opens_only_msize [simp]: "opens_only X c (c\<lparr>c_msize := m\<rparr>)"
  by (auto simp: opens_only_def)

lemma opens_only_Delete [simp]: "opens_only X c (fids_Delete f c)"
  by (auto simp: opens_only_def)

lemma opens_only_Store [simp]:
  "f \<in> X \<or> fi_openMode i = ONone \<Longrightarrow> opens_only X c (fids_Store f i c)"
  by (auto simp: opens_only_def)

named_theorems fid_opens

lemma opens_Version [fid_opens]: "conn_post (opens_only {} c) (srv_Version t c s)"
  by (simp add: srv_Version_def Let_def)

lemma opens_Auth [fid_opens]: "conn_post (opens_only {tau_Afid t} c) (srv_Auth ops fs t c s)"
  by (auto simp: srv_Auth_def Let_def intro!: conn_post_intros split: answer_splits)

lemma opens_Attach [fid_opens]: "conn_post (opens_only {} c) (srv_Attach ops fs t c s)"
  by (auto simp: srv_Attach_def Let_def intro!: conn_post_intros split: answer_splits)

lemma opens_Walk [fid_opens]: "conn_post (opens_only {} c) (srv_Walk ops fs t c s)"
  by (auto simp: srv_Walk_def Let_def intro!: conn_post_intros split: answer_splits)

lemma opens_Open [fid_opens]: "conn_post (opens_only {top_Fid t} c) (srv_Open ops fs order t c s)"
  by (auto simp: srv_Open_def Let_def intro!: conn_post_intros split: answer_splits)

lemma opens_Create [fid_opens]: "conn_post (opens_only {tcr_Fid t} c) (srv_Create ops fs t c s)"
  by (auto simp: srv_Create_def Let_def intro!: conn_post_intros split: answer_splits)

lemma opens_Read [fid_opens]: "conn_post (opens_only {} c) (srv_Read ops t c s)"
  by (auto simp: srv_Read_def Let_def intro!: conn_post_intros split: answer_splits)

lemma opens_Write [fid_opens]: "conn_post (opens_only {} c) (srv_Write ops t c s)"
  by (auto simp: srv_Write_def Let_def intro!: conn_post_intros split: answer_splits)

lemma opens_Clunk [fid_opens]: "conn_post (opens_only {} c) (srv_Clunk ops t c s)"
  by (auto simp: srv_Clunk_def Let_def intro!: conn_post_intros split: answer_splits)

lemma opens_Remove [fid_opens]: "conn_post (opens_only {} c) (srv_Remove ops fs t c s)"
  by (auto simp: srv_Remove_def Let_def intro!: conn_post_intros split: answer_splits)

lemma opens_Stat [fid_opens]: "conn_post (opens_only {} c) (srv_Stat ops t c s)"
  by (auto simp: srv_Stat_def Let_def intro!: conn_post_intros split: answer_splits)

lemma opens_Wstat [fid_opens]: "conn_post (opens_only {} c) (srv_Wstat ops fs t c s)"
  by (auto simp: srv_Wstat_def Let_def intro!: conn_post_intros split: answer_splits)

lemma dispatch_opens:
  assumes "dispatch (fs_Srv ops fs order) call = Some h"
  shows "conn_post (opens_only (opened_fids call) c) (h (c, s))"
  using assms fid_opens
  by (cases call) (auto simp: dispatch_def fs_Srv_def)

section \<open>User names\<close>

text \<open>Every fid acts under a name of \<open>U\<close>, and the names left by authentications are in \<open>A\<close>.\<close>

definition names_ok :: "string set \<Rightarrow> string set \<Rightarrow> 'n conn \<Rightarrow> bool" where
  "names_ok U A c \<longleftrightarrow>
     (\<forall>f i. c_fids c f = Some i \<longrightarrow> fi_uname i \<in> U \<and> (\<forall>u. fi_extra i = ExString u \<longrightarrow> u \<in> A))"

lemma names_ok_msize [simp]: "names_ok U A (c\<lparr>c_msize := m\<rparr>) = names_ok U A c"
  by (simp add: names_ok_def)

lemma names_ok_Delete [simp]: "names_ok U A c \<Longrightarrow> names_ok U A (fids_Delete f c)"
  by (auto simp: names_ok_def)

lemma names_ok_Store [simp]:
  "names_ok U A c \<Longrightarrow> fi_uname i \<in> U \<Longrightarrow> (\<forall>u. fi_extra i = ExString u \<longrightarrow> u \<in> A) \<Longrightarrow>
     names_ok U A (fids_Store f i c)"
  by (auto simp: names_ok_def)

lemma names_okD:
  "names_ok U A c \<Longrightarrow> c_fids c f = Some i \<Longrightarrow> fi_uname i \<in> U"
  "names_ok U A c \<Longrightarrow> c_fids c f = Some i \<Longrightarrow> fi_extra i = ExString u \<Longrightarrow> u \<in> A"
  by (auto simp: names_ok_def)

lemma open_node_info:
  "open_node ops order t cf info s = Some (Inr i, s') \<Longrightarrow>
     fi_uname i = fi_uname info \<and> (\<forall>u. fi_extra i = ExString u \<longrightarrow> fi_extra info = ExString u)"
  by (auto simp: open_node_def Let_def split: if_splits bind_splits option.splits)

named_theorems naming

lemma names_Version [naming]: "names_ok U A c \<Longrightarrow> conn_post (names_ok U A) (srv_Version t c s)"
  by (simp add: srv_Version_def Let_def)

lemma names_Auth [naming]:
  "names_ok U A c \<Longrightarrow> [] \<in> U \<Longrightarrow> conn_post (names_ok U A) (srv_Auth ops fs t c s)"
  by (auto simp: srv_Auth_def Let_def intro!: conn_post_intros split: answer_splits)

lemma names_Attach [naming]:
  "names_ok U A c \<Longrightarrow> fs_authFile fs \<noteq> None \<Longrightarrow> A \<subseteq> U \<Longrightarrow>
     conn_post (names_ok U A) (srv_Attach ops fs t c s)"
  by (auto simp: srv_Attach_def Let_def intro!: conn_post_intros split: answer_splits
      dest: names_okD(2))

lemma names_Walk [naming]: "names_ok U A c \<Longrightarrow> conn_post (names_ok U A) (srv_Walk ops fs t c s)"
  by (auto simp: srv_Walk_def names_okD Let_def intro!: conn_post_intros split: answer_splits)

lemma names_Open [naming]:
  "names_ok U A c \<Longrightarrow> conn_post (names_ok U A) (srv_Open ops fs order t c s)"
  by (auto simp: srv_Open_def names_okD Let_def intro!: conn_post_intros split: answer_splits
      dest!: open_node_info)

lemma names_Create [naming]:
  "names_ok U A c \<Longrightarrow> conn_post (names_ok U A) (srv_Create ops fs t c s)"
  by (auto simp: srv_Create_def names_okD Let_def intro!: conn_post_intros split: answer_splits)

lemma names_Read [naming]: "names_ok U A c \<Longrightarrow> conn_post (names_ok U A) (srv_Read ops t c s)"
  by (auto simp: srv_Read_def Let_def intro!: conn_post_intros split: answer_splits)

lemma names_Write [naming]: "names_ok U A c \<Longrightarrow> conn_post (names_ok U A) (srv_Write ops t c s)"
  by (auto simp: srv_Write_def Let_def intro!: conn_post_intros split: answer_splits)

lemma names_Clunk [naming]: "names_ok U A c \<Longrightarrow> conn_post (names_ok U A) (srv_Clunk ops t c s)"
  by (auto simp: srv_Clunk_def Let_def intro!: conn_post_intros split: answer_splits)

lemma names_Remove [naming]: "names_ok U A c \<Longrightarrow> conn_post (names_ok U A) (srv_Remove ops fs t c s)"
  by (auto simp: srv_Remove_def Let_def intro!: conn_post_intros split: answer_splits)

lemma names_Stat [naming]: "names_ok U A c \<Longrightarrow> conn_post (names_ok U A) (srv_Stat ops t c s)"
  by (auto simp: srv_Stat_def Let_def intro!: conn_post_intros split: answer_splits)

lemma names_Wstat [naming]: "names_ok U A c \<Longrightarrow> conn_post (names_ok U A) (srv_Wstat ops fs t c s)"
  by (auto simp: srv_Wstat_def Let_def intro!: conn_post_intros split: answer_splits)

lemma dispatch_names:
  assumes "dispatch (fs_Srv ops fs order) call = Some h" "names_ok U A c"
    "[] \<in> U" "A \<subseteq> U" "fs_authFile fs \<noteq> None"
  shows "conn_post (names_ok U A) (h (c, s))"
  using assms naming [OF assms(2)] names_Attach [OF assms(2,5,4)]
  by (cases call) (auto simp: dispatch_def fs_Srv_def)

section \<open>Runs of a connection\<close>

lemma TagContext_sel [simp]:
  "c_fids (snd (TagContext tag c)) = c_fids c" "c_msize (snd (TagContext tag c)) = c_msize c"
  "c_connID (snd (TagContext tag c)) = c_connID c"
  by (simp_all add: TagContext_def Let_def split: option.split)

lemma DropContext_sel [simp]:
  "c_fids (DropContext tag c) = c_fids c" "c_msize (DropContext tag c) = c_msize c"
  "c_connID (DropContext tag c) = c_connID c"
  by (simp_all add: DropContext_def split: option.split)

lemma fs_TagContext:
  "Conn_TagContext (fs_Srv ops fs order) tag (c, s) = (fst (TagContext tag c), (snd (TagContext tag c), s))"
  by (simp add: fs_Srv_def case_prod_beta)

lemma fs_DropContext: "Conn_DropContext (fs_Srv ops fs order) tag (c, s) = (DropContext tag c, s)"
  by (simp add: fs_Srv_def)

lemma handleCall_fids:
  assumes "dispatch (fs_Srv ops fs order) call = Some h" "h (snd (TagContext (GetTag call) c), s) = Some (ret, (c2, s'))"
  shows "\<exists>res c'. handleCall (fs_Srv ops fs order) call (c, s) = Some (res, (c', s')) \<and> c_fids c' = c_fids c2"
  using assms by (auto simp: handleCall_def finish_call_def fs_TagContext fs_DropContext)

lemma handleCall_fs_cases:
  assumes "handleCall (fs_Srv ops fs order) call (c, s) = Some (res, (c', s'))"
  obtains (invalid) "dispatch (fs_Srv ops fs order) call = None" "c_fids c' = c_fids c" "s' = s"
  | (handled) h ret c2 where "dispatch (fs_Srv ops fs order) call = Some h"
    "h (snd (TagContext (GetTag call) c), s) = Some (ret, c2, s')" "c_fids c' = c_fids c2"
proof -
  obtain ctx c1 where c1: "TagContext (GetTag call) c = (ctx, c1)" by fastforce
  then have ctx: "Conn_TagContext (fs_Srv ops fs order) (GetTag call) (c, s) = (ctx, (c1, s))"
    by (simp add: fs_Srv_def)
  have fids: "c_fids c1 = c_fids c" using TagContext_sel(1) [of "GetTag call" c] c1 by simp
  show thesis
  proof (cases "dispatch (fs_Srv ops fs order) call")
    case None
    with assms ctx fids show thesis by (intro invalid) (auto simp: handleCall_def)
  next
    case (Some h)
    then obtain ret c2 s2 where h: "h (c1, s) = Some (ret, c2, s2)"
      "finish_call (fs_Srv ops fs order) call ctx ret (c2, s2) = (res, (c', s'))"
      using assms ctx by (auto simp: handleCall_def split: option.splits)
    then have "c_fids c' = c_fids c2 \<and> s2 = s'"
      by (auto simp: finish_call_def fs_Srv_def split: if_splits)
    with h Some c1 show thesis by (intro handled [of h ret c2]) auto
  qed
qed

text \<open>
  A connection from its first message on, one request at a time, with the results of the
  authentication function arriving in between; \<open>A\<close> collects the names it returned.
\<close>

inductive conn_run ::
    "('s, 'n) fsops \<Rightarrow> ('s, 'n) FS \<Rightarrow> ((string \<times> 'n) list \<Rightarrow> 'n list) \<Rightarrow> string set \<Rightarrow> 'n conn \<Rightarrow> 's \<Rightarrow> bool"
  for ops :: "('s, 'n) fsops" and fs :: "('s, 'n) FS" and order where
  connect: "conn_run ops fs order {} (fst (NewConn sv)) s"
| request: "conn_run ops fs order A c s \<Longrightarrow>
    handleCall (fs_Srv ops fs order) call (c, s) = Some (res, (c', s')) \<Longrightarrow>
    conn_run ops fs order A c' s'"
| auth_failed: "conn_run ops fs order A c s \<Longrightarrow> conn_run ops fs order A (auth_done afid (Inl e) c) s"
| auth_passed: "conn_run ops fs order A c s \<Longrightarrow>
    conn_run ops fs order (insert u A) (auth_done afid (Inr u) c) s"

lemma names_ok_mono: "names_ok U A c \<Longrightarrow> U \<subseteq> U' \<Longrightarrow> A \<subseteq> A' \<Longrightarrow> names_ok U' A' c"
  by (force simp: names_ok_def)

lemma names_ok_fids: "c_fids c' = c_fids c \<Longrightarrow> names_ok U A c' = names_ok U A c"
  by (simp add: names_ok_def)

lemma conn_run_names:
  assumes "conn_run ops fs order A c s" "fs_authFile fs \<noteq> None"
  shows "names_ok (insert [] A) A c"
  using assms(1)
proof induction
  case (connect sv s)
  then show ?case by (simp add: NewConn_def Let_def names_ok_def)
next
  case (request A c s call res c' s')
  from request.hyps(2) show ?case
  proof (cases rule: handleCall_fs_cases)
    case invalid
    then show ?thesis using request.IH names_ok_fids [of c' c] by simp
  next
    case (handled h ret c2)
    let ?c1 = "snd (TagContext (GetTag call) c)"
    have "names_ok (insert [] A) A ?c1" using request.IH names_ok_fids [of ?c1 c] by simp
    from dispatch_names [OF handled(1) this] assms(2) handled(2)
    have "names_ok (insert [] A) A c2" by (auto dest: conn_postD)
    then show ?thesis using handled(3) names_ok_fids [of c' c2] by simp
  qed
next
  case (auth_failed A c s afid e)
  then show ?case by (auto simp: auth_done_def names_ok_def split: option.split)
next
  case (auth_passed A c s u afid)
  have "names_ok (insert [] (insert u A)) (insert u A) c"
    using auth_passed.IH by (rule names_ok_mono) auto
  then show ?case by (auto simp: auth_done_def names_ok_def split: option.split)
qed

end
