(* ===== verification/Static_Props.thy ===== *)
theory Static_Props
  imports Static_Store Server_Fids
begin

text \<open>
  The behaviour of the in-memory nodes: reads and writes of a static file refine the reads and
  writes of an unbounded byte array, stats are stable, directories keep a well-formed tree, and
  the store satisfies the contract \<open>fs_nodes\<close> the server relies on.
\<close>

section \<open>Byte ranges\<close>

lemma unat_of_nat_len: "length xs < 2 ^ 63 \<Longrightarrow> unat (of_nat (length xs) :: u64) = length xs"
  by (simp add: unsigned_of_nat take_bit_nat_eq_self)

lemma read_range_eq:
  assumes len: "length data < 2 ^ 63" and cnt: "unat cnt \<le> 2 ^ 63"
  shows "read_range offset cnt data = Some (take (unat cnt) (drop (unat offset) data))"
proof (cases "offset \<ge> of_nat (length data)")
  case True
  then have "length data \<le> unat offset"
    using unat_of_nat_len [OF len] by (simp add: word_le_nat_alt)
  with True show ?thesis by (simp add: read_range_def)
next
  case False
  let ?flen = "of_nat (length data) :: u64"
  have flen: "unat ?flen = length data" by (rule unat_of_nat_len [OF len])
  have off: "unat offset < length data" using False flen by (simp add: word_le_nat_alt)
  have sum: "unat (offset + cnt) = unat offset + unat cnt"
    by (rule unat_add_lem [THEN iffD1]) (use off len cnt in simp)
  show ?thesis
  proof (cases "offset + cnt > ?flen")
    case True
    have "offset + (?flen - offset) = ?flen" by simp
    with True False off flen show ?thesis
      by (simp add: read_range_def Let_def go_slice_def word_le_nat_alt word_less_nat_alt sum)
  next
    case False
    then have "unat offset + unat cnt \<le> length data"
      using sum flen by (simp add: word_less_nat_alt)
    with False off sum flen show ?thesis
      by (simp add: read_range_def Let_def go_slice_def word_le_nat_alt word_less_nat_alt)
  qed
qed

text \<open>The write of a byte array: the gap up to the offset is filled with zeros.\<close>

definition write_at :: "nat \<Rightarrow> bytes \<Rightarrow> bytes \<Rightarrow> bytes" where
  "write_at off data xs =
     copy_at off data (xs @ replicate (off + length data - length xs) 0)"

lemma length_write_at [simp]: "length (write_at off data xs) = max (length xs) (off + length data)"
  by (auto simp: write_at_def copy_at_def)

lemma copy_at_nth:
  assumes "off + length data \<le> length ys" "i < length ys"
  shows "copy_at off data ys ! i =
     (if off \<le> i \<and> i < off + length data then data ! (i - off) else ys ! i)"
  using assms by (auto simp: copy_at_def nth_append)

lemma write_at_nth:
  assumes "i < length (write_at off data xs)"
  shows "write_at off data xs ! i =
     (if off \<le> i \<and> i < off + length data then data ! (i - off)
      else if i < length xs then xs ! i else 0)"
proof -
  let ?ys = "xs @ replicate (off + length data - length xs) 0"
  have i: "i < length ?ys" and fits: "off + length data \<le> length ?ys"
    using assms by (auto simp: max_def split: if_splits)
  have "?ys ! i = (if i < length xs then xs ! i else 0)"
    using i by (simp add: nth_append)
  then show ?thesis unfolding write_at_def copy_at_nth [OF fits i] by simp
qed

definition write_fits :: "nat \<Rightarrow> u64 \<Rightarrow> bytes \<Rightarrow> bytes \<Rightarrow> bool" where
  "write_fits mem offset data xs \<longleftrightarrow> unat offset + length data \<le> max (length xs) mem"

lemma copy_at_within: "off + length data \<le> length xs \<Longrightarrow> copy_at off data xs = write_at off data xs"
  by (simp add: write_at_def)

lemma StaticFile_Write_eq:
  assumes mem: "mem < 2 ^ 63" and len: "length (sf_Data f) < 2 ^ 63" and dl: "length data < 2 ^ 63"
  shows "StaticFile_Write mem offset data f =
    (if write_fits mem offset data (sf_Data f)
     then Some (of_nat (length data),
            f\<lparr>bf_fStat := (bf_fStat f)\<lparr>st_Length :=
                 (if unat offset + length data > length (sf_Data f)
                  then offset + of_nat (length data) else st_Length (bf_fStat f))\<rparr>,
              sf_Data := write_at (unat offset) data (sf_Data f)\<rparr>)
     else None)"
proof -
  let ?xs = "sf_Data f"
  let ?flen = "of_nat (length ?xs) :: u64" and ?cnt = "of_nat (length data) :: u64"
  have flen: "unat ?flen = length ?xs" and cnt: "unat ?cnt = length data"
    using unat_of_nat_len len dl by auto
  have offlt: "unat offset < 2 ^ 64" using unsigned_less [of offset] by simp
  show ?thesis
  proof (cases "unat offset + length data < 2 ^ 64")
    case True
    then have sum: "unat (offset + ?cnt) = unat offset + length data"
      using cnt by (simp add: unat_word_ariths)
    have diff: "unat (offset + ?cnt - ?flen) = unat offset + length data - length ?xs"
      if "length ?xs < unat offset + length data"
      using that sum flen by (simp add: unat_sub word_le_nat_alt)
    show ?thesis
      using sum flen diff len mem
      by (auto simp: StaticFile_Write_def Let_def go_slice_def word_less_nat_alt word_le_nat_alt
          write_fits_def write_at_def)
  next
    case False
    have "unat (offset + ?cnt) = unat offset + length data - 2 ^ 64"
      using False cnt dl offlt
      by (simp add: unat_word_ariths mod_if)
    then have "\<not> offset \<le> offset + ?cnt"
      using dl False offlt by (simp add: word_le_nat_alt)
    moreover have "\<not> write_fits mem offset data ?xs"
      using False mem len by (auto simp: write_fits_def)
    ultimately show ?thesis
      by (auto simp: StaticFile_Write_def Let_def go_slice_def split: bind_splits if_splits)
  qed
qed

section \<open>What a client can observe\<close>

text \<open>
  \<^verbatim>\<open>StaticFile.Stat\<close> refreshes the length cached in the object; normalising every cached
  length gives the observable store.
\<close>

primrec norm_node :: "node \<Rightarrow> node" where
  "norm_node (NBase f) = NBase f"
| "norm_node (NFile f) = NFile (snd (StaticFile_Stat f))"
| "norm_node (NDyn f) = NDyn f"
| "norm_node (NDir d) = NDir d"

primrec obs_stat :: "node \<Rightarrow> Stat" where
  "obs_stat (NBase f) = bf_fStat f"
| "obs_stat (NFile f) = fst (StaticFile_Stat f)"
| "obs_stat (NDyn f) = bf_fStat f"
| "obs_stat (NDir d) = sd_dStat d"

definition static_view :: "store \<Rightarrow> store" where
  "static_view s = s\<lparr>sto_nodes := (\<lambda>r. map_option norm_node (sto_nodes s r))\<rparr>"

primrec node_ok :: "nat \<Rightarrow> node \<Rightarrow> bool" where
  "node_ok mem (NBase f) \<longleftrightarrow> True"
| "node_ok mem (NFile f) \<longleftrightarrow> length (sf_Data f) \<le> mem"
| "node_ok mem (NDyn f) \<longleftrightarrow>
     (\<forall>fid d. df_fidContent f fid = Some d \<longrightarrow> length d \<le> mem) \<and> (\<forall>k. length (df_genContent f k) \<le> mem)"
| "node_ok mem (NDir d) \<longleftrightarrow> True"

text \<open>Every slice held by a node was allocated by the runtime, and free addresses are unused.\<close>

definition static_valid :: "store \<Rightarrow> bool" where
  "static_valid s \<longleftrightarrow> sto_mem s < 2 ^ 63 \<and>
     (\<forall>r v. sto_nodes s r = Some v \<longrightarrow> node_ok (sto_mem s) v) \<and>
     (\<forall>r \<ge> sto_next s. sto_nodes s r = None)"

lemma norm_node_idem [simp]: "norm_node (norm_node v) = norm_node v"
  by (cases v) (simp_all add: StaticFile_Stat_def)

lemma norm_NDir [simp]: "norm_node v = NDir d \<longleftrightarrow> v = NDir d"
  by (cases v) auto

lemma obs_stat_norm [simp]: "obs_stat (norm_node v) = obs_stat v"
  by (cases v) (simp_all add: StaticFile_Stat_def)

lemma node_ok_norm [simp]: "node_ok mem (norm_node v) = node_ok mem v"
  by (cases v) (simp_all add: StaticFile_Stat_def)

lemma set_node_sel [simp]:
  "sto_nodes (set_node r v s) = (sto_nodes s)(r \<mapsto> v)" "sto_next (set_node r v s) = sto_next s"
  "sto_uid (set_node r v s) = sto_uid s" "sto_mem (set_node r v s) = sto_mem s"
  "sto_clock (set_node r v s) = sto_clock s" "sto_reads (set_node r v s) = sto_reads s"
  by (simp_all add: set_node_def)

lemma set_node_same: "sto_nodes s r = Some v \<Longrightarrow> set_node r v s = s"
  by (simp add: set_node_def fun_upd_idem)

lemma node_Stat_eq:
  "node_Stat r s = map_option (\<lambda>v. (obs_stat v, set_node r (norm_node v) s)) (sto_nodes s r)"
  by (simp add: node_Stat_def set_node_same StaticFile_Stat_def Let_def split: option.split node.split)

lemma static_view_set:
  "sto_nodes s r = Some v \<Longrightarrow> norm_node w = norm_node v \<Longrightarrow> static_view (set_node r w s) = static_view s"
  by (auto simp: static_view_def set_node_def fun_eq_iff)

lemma node_kind_norm:
  "node_kind r s =
     (case map_option norm_node (sto_nodes s r) of Some (NDir _) \<Rightarrow> KModDir | _ \<Rightarrow> KFile)"
  by (cases "sto_nodes s r"; cases "the (sto_nodes s r)") (auto simp: node_kind_def)

lemma static_view_nodes:
  "static_view s = static_view s' \<Longrightarrow>
     map_option norm_node (sto_nodes s r) = map_option norm_node (sto_nodes s' r)"
  by (auto simp: static_view_def fun_eq_iff dest: arg_cong [where f = sto_nodes])

lemma static_view_obs:
  assumes "static_view s = static_view s'"
  shows "map_option obs_stat (sto_nodes s r) = map_option obs_stat (sto_nodes s' r)"
proof -
  have obs: "map_option obs_stat x = map_option obs_stat (map_option norm_node x)" for x
    by (cases x) simp_all
  show ?thesis by (subst (1 2) obs) (simp only: static_view_nodes [OF assms])
qed

lemma static_valid_set:
  "static_valid s \<Longrightarrow> sto_nodes s r = Some v \<Longrightarrow> node_ok (sto_mem s) w \<Longrightarrow> static_valid (set_node r w s)"
  by (force simp: static_valid_def)

lemma static_valid_node: "static_valid s \<Longrightarrow> sto_nodes s r = Some v \<Longrightarrow> node_ok (sto_mem s) v"
  by (simp add: static_valid_def)

lemma node_Stat_view:
  "node_Stat r s = Some (st, s') \<Longrightarrow> static_view s' = static_view s"
  by (auto simp: node_Stat_eq static_view_set)

lemma node_Stat_valid:
  "static_valid s \<Longrightarrow> node_Stat r s = Some (st, s') \<Longrightarrow> static_valid s'"
  by (auto simp: node_Stat_eq static_valid_set static_valid_node)

lemma children_map_view:
  "children_map ns ret s = Some (cs, s') \<Longrightarrow> static_view s' = static_view s"
  by (induction ns arbitrary: ret s) (simp, simp split: bind_splits prod.splits, metis node_Stat_view)

lemma children_map_valid:
  "static_valid s \<Longrightarrow> children_map ns ret s = Some (cs, s') \<Longrightarrow> static_valid s'"
  by (induction ns arbitrary: ret s) (simp, simp split: bind_splits prod.splits, metis node_Stat_valid)

lemma children_map_distinct:
  "children_map ns ret s = Some (cs, s') \<Longrightarrow> distinct (map fst ret) \<Longrightarrow> distinct (map fst cs)"
  by (induction ns arbitrary: ret s) (auto split: bind_splits simp: distinct_update)

lemma name_taken_view:
  "name_taken name ns s = Some (b, s') \<Longrightarrow> static_view s' = static_view s"
  by (induction ns arbitrary: s)
    (simp, simp split: bind_splits prod.splits if_splits, (metis node_Stat_view)+)

lemma name_taken_valid:
  "static_valid s \<Longrightarrow> name_taken name ns s = Some (b, s') \<Longrightarrow> static_valid s'"
  by (induction ns arbitrary: s)
    (simp, simp split: bind_splits prod.splits if_splits, (metis node_Stat_valid)+)

lemma static_mem: "static_valid s \<Longrightarrow> sto_mem s < 2 ^ 63"
  by (simp add: static_valid_def)

lemma unat_add_le: "unat (a + b :: u64) \<le> unat a + unat b"
  by (simp add: unat_word_ariths)

lemma length_read_range:
  assumes "length data < 2 ^ 63" "read_range offset cnt data = Some d"
  shows "length d \<le> unat cnt"
proof -
  let ?flen = "of_nat (length data) :: u64"
  have len: "unat ?flen = length data" by (rule unat_of_nat_len [OF assms(1)])
  consider "d = []"
    | hi where "unat hi - unat offset \<le> unat cnt" "go_slice offset hi data = Some d"
  proof (cases "offset \<ge> ?flen")
    case True
    then show ?thesis using assms(2) that(1) by (simp add: read_range_def)
  next
    case False
    show ?thesis
    proof (cases "offset + cnt > ?flen")
      case True
      then have "unat ?flen - unat offset \<le> unat cnt"
        using unat_add_le [of offset cnt] by (simp add: word_less_nat_alt)
      with True False assms(2) show ?thesis
        by (intro that(2) [of ?flen]) (simp_all add: read_range_def Let_def)
    next
      case fits: False
      then show ?thesis using False assms(2) unat_add_le [of offset cnt]
        by (intro that(2) [of "offset + cnt"]) (simp_all add: read_range_def Let_def)
    qed
  qed
  then show ?thesis by cases (auto simp: go_slice_def split: if_splits)
qed

section \<open>The static tree satisfies the contract of the server\<close>

lemma node_SetParent_valid:
  "static_valid s \<Longrightarrow> node_SetParent r p s = Some s' \<Longrightarrow> static_valid s'"
  by (auto simp: node_SetParent_def split: option.splits node.splits
      intro!: static_valid_set dest: static_valid_node)

lemma set_children_valid: "static_valid s \<Longrightarrow> static_valid (set_children d cs s)"
  by (auto simp: set_children_def split: option.split node.split intro!: static_valid_set)

lemma StaticDir_Children_view:
  assumes "static_valid s" "StaticDir_Children d s = Some (cs, s')"
  shows "static_valid s' \<and> static_view s' = static_view s \<and> distinct (map fst cs)"
proof -
  obtain ns where "children_map ns [] s = Some (cs, s')"
    using assms(2) by (auto simp: StaticDir_Children_def split: option.splits node.splits)
  with assms(1) show ?thesis
    by (metis children_map_valid children_map_view children_map_distinct distinct.simps(1)
        list.simps(8))
qed

lemma StaticDir_AddChild_valid:
  assumes "static_valid s" "StaticDir_AddChild d n s = Some (e, s')"
  shows "static_valid s'"
proof -
  obtain dir where dir: "sto_nodes s d = Some (NDir dir)"
    using assms(2) by (auto simp: StaticDir_AddChild_def split: option.splits node.splits)
  obtain st s1 where st: "node_Stat n s = Some (st, s1)"
    using assms(2) dir by (auto simp: StaticDir_AddChild_def split: bind_splits)
  obtain t s2 where t: "name_taken (st_Name st) (sd_children dir) s1 = Some (t, s2)"
    using assms(2) dir st by (auto simp: StaticDir_AddChild_def split: bind_splits)
  have valid: "static_valid s2" using assms(1) st t by (metis node_Stat_valid name_taken_valid)
  show ?thesis
    using assms(2) dir st t valid
    by (auto simp: StaticDir_AddChild_def Let_def split: bind_splits if_splits
        dest: node_SetParent_valid [OF set_children_valid [OF valid]])
qed

lemma node_Write_valid:
  assumes "static_valid s" "node_Write r fid off d s = Some (w, s')" "length d < 2 ^ 32"
  shows "static_valid s'"
proof (cases "sto_nodes s r")
  case (Some v)
  show ?thesis
  proof (cases v)
    case (NFile f)
    have ok: "sto_mem s < 2 ^ 63" "length (sf_Data f) \<le> sto_mem s"
      using assms(1) Some NFile by (auto dest: static_valid_node static_mem)
    then have "StaticFile_Write (sto_mem s) off d f = Some (n, g) \<Longrightarrow> length (sf_Data g) \<le> sto_mem s"
      for n g
      using assms(3) by (subst (asm) StaticFile_Write_eq) (auto simp: write_fits_def split: if_splits)
    then show ?thesis using assms Some NFile
      by (auto simp: node_Write_def split: bind_splits intro!: static_valid_set)
  qed (use assms Some in \<open>auto simp: node_Write_def\<close>)
qed (use assms in \<open>simp add: node_Write_def\<close>)

lemma node_Read_eq:
  "node_Read r fid off cnt s = Some (x, s') \<Longrightarrow> s' = s"
  by (auto simp: node_Read_def split: option.splits node.splits bind_splits)

lemma node_Read_bounded:
  assumes "static_valid s" "node_Read r fid off cnt s = Some (Inr d, s')"
  shows "length d \<le> unat cnt"
proof -
  have mem: "sto_mem s < 2 ^ 63" using assms(1) by (rule static_mem)
  show ?thesis
  proof (cases "sto_nodes s r")
    case (Some v)
    then have ok: "node_ok (sto_mem s) v" using assms(1) by (rule static_valid_node [rotated])
    have fits: "length xs \<le> sto_mem s \<Longrightarrow> read_range off cnt xs = Some d \<Longrightarrow> ?thesis" for xs
      using mem length_read_range [of xs off cnt d] by simp
    have s': "s' = s" using assms(2) by (rule node_Read_eq)
    show ?thesis
      using Some ok assms(2) unfolding s'
      by (cases v) (auto simp: node_Read_def StaticFile_Read_def DynamicFile_Read_def
          split: bind_splits option.splits intro: fits fits [of "[]"])
  qed (use assms in \<open>simp add: node_Read_def\<close>)
qed

interpretation static: fs_updates static_ops static_valid static_view
proof unfold_locales
  fix s n st s' assume "static_valid s" "op_Stat static_ops n s = Some (st, s')"
  then show "static_valid s' \<and> static_view s' = static_view s \<and> op_Stat static_ops n s' = Some (st, s')"
    by (auto dest: node_Stat_valid node_Stat_view) (auto simp: node_Stat_eq set_node_same)
next
  fix s s' n assume "static_view s = static_view s'"
  then show "map_option fst (op_Stat static_ops n s) = map_option fst (op_Stat static_ops n s')"
    using static_view_obs [of s s' n] by (simp add: node_Stat_eq option.map_comp comp_def)
next
  fix s s' n assume "static_view s = static_view s'"
  from static_view_nodes [OF this, of n] show "op_kind static_ops n s = op_kind static_ops n s'"
    by (simp add: node_kind_norm)
next
  fix s n fid m e s'
  assume s: "static_valid s" and op: "op_Open static_ops n fid m s = Some (e, s')"
  then show "static_valid s'"
    by (auto simp: node_Open_def StaticFile_Open_def DynamicFile_Open_def split: option.splits
        node.splits intro!: static_valid_set dest: static_valid_node)
next
  fix s n fid e s' assume "static_valid s" "op_Close static_ops n fid s = Some (e, s')"
  then show "static_valid s'"
    by (auto simp: node_Close_def DynamicFile_Close_def split: option.splits node.splits if_splits
        intro!: static_valid_set dest: static_valid_node)
next
  fix s n st err s' assume "op_WriteStat static_ops n st s = Some (Some err, s')"
  then show "static_view s' = static_view s"
    by (auto simp: node_WriteStat_def split: option.splits node.splits)
next
  fix s n st r s' assume "static_valid s" "op_WriteStat static_ops n st s = Some (r, s')"
  then show "static_valid s'"
    by (auto simp: node_WriteStat_def split: option.splits node.splits
        intro!: static_valid_set dest: static_valid_node)
next
  fix s n p s' assume "static_valid s" "op_Parent static_ops n s = Some (p, s')"
  then show "static_valid s' \<and> static_view s' = static_view s"
    by (auto simp: node_Parent_def split: option.splits node.splits)
qed (auto dest: node_Read_eq node_Read_bounded node_Write_valid StaticDir_Children_view
    StaticDir_AddChild_valid)

end
