(* ===== verification/Examples.thy ===== *)
theory Examples
  imports Static_Props Srv_Pipe
begin

text \<open>
  A small file system on which the properties of the file server are exercised: the tree that
  \<^verbatim>\<open>NewFS\<close> builds for the user glenda with the hooks for static files and directories,
  and a connection to it.
\<close>

definition ex_init :: "(store, ref) FS \<times> ref \<times> store" where
  "ex_init = NewFS ''glenda'' ''glenda'' 0x1FD
     [WithCreateFile CreateStaticFile, WithCreateDir CreateStaticDir, WithRemoveFile RMFile]
     (empty_store (\<lambda>_. 0) 1048576)"

definition ex_fs :: "(store, ref) FS" where
  "ex_fs = fst ex_init"

definition ex_store :: store where
  "ex_store = snd (snd ex_init)"

text \<open>\<^verbatim>\<open>range\<close> in the order of insertion, one of the orders Go allows.\<close>

definition ex_order :: "(string \<times> ref) list \<Rightarrow> ref list" where
  "ex_order cs = map snd cs"

definition ex_conn :: "ref conn" where
  "ex_conn = fst (NewConn \<lparr>sv_currConnId = 0\<rparr>)"

definition ex_srv :: "(ref conn \<times> store) Srv" where
  "ex_srv = fs_Srv static_ops ex_fs ex_order"

definition root_stat :: Stat where
  "root_stat =
     \<lparr>st_Type = 0, st_Dev = 0, st_Qid = \<lparr>q_Qtype = 0x80, q_Vers = 0, q_Uid = 0\<rparr>, st_Mode = 0x800001FD,
      st_Atime = 0, st_Mtime = 0, st_Length = 0, st_Name = ''/'', st_Uid = ''glenda'',
      st_Gid = ''glenda'', st_Muid = ''glenda''\<rparr>"

lemmas ex_defs = ex_init_def NewFS_def NewStat_def NewQid_def time_Now_def new_node_def NewStaticDir_def
  empty_store_def set_node_def Let_def

lemma ex_fs_eq:
  "ex_fs = \<lparr>fs_Root = 0, fs_CreateFile = Some CreateStaticFile, fs_CreateDir = Some CreateStaticDir,
     fs_WalkFail = None, fs_RemoveFile = Some RMFile, fs_ignorePerms = False, fs_authFile = None\<rparr>"
  by (simp add: ex_fs_def ex_defs WithCreateFile_def WithCreateDir_def WithRemoveFile_def)

lemma ex_store_eq:
  "ex_store = \<lparr>sto_nodes = [0 \<mapsto> NDir \<lparr>sd_dStat = root_stat, sd_children = [], sd_parent = None\<rparr>],
     sto_next = 1, sto_uid = 1, sto_clock = (\<lambda>_. 0), sto_reads = 2, sto_mem = 1048576\<rparr>"
  by (simp add: ex_store_def ex_defs root_stat_def)

lemma ex_store_valid: "static_valid ex_store"
  by (simp add: ex_store_eq static_valid_def)

lemma ex_conn_ok: "conn_ok ex_conn"
  by (simp add: ex_conn_def NewConn_ok)

end
