(* ===== verification/Loop_Claims.thy ===== *)
theory Loop_Claims
  imports Examples
begin

text \<open>
  The properties of the serving loops (server.go) when they serve the file server of package fs.
\<close>

section \<open>One request at a time\<close>

text \<open>
  A request handled on its own is answered with its own tag, and its context is gone
  afterwards: \<^verbatim>\<open>handleCall\<close> neither drops a reply nor leaves a context behind.
\<close>

theorem handleCall_answers:
  assumes "conn_ok c" "handleCall (fs_Srv ops fs order) call (c, s) = Some (Inr resp, (c', s'))"
  shows "\<exists>m. resp = Some m \<and> GetTag m = GetTag call \<and> conn_ok c' \<and>
     c_tags c' = (c_tags c)(GetTag call := None)"
  using fs.handleCall_tag [of "(c, s)" ops fs order call resp "(c', s')"] assms by auto

definition ex_flush :: fcall where
  "ex_flush = F_TFlush \<lparr>tfl_Header = \<lparr>h_Type = Tflush, h_Tag = 5\<rparr>, tfl_Oldtag = 4\<rparr>"

lemma ex_flush_handled:
  "\<exists>c'. handleCall ex_srv ex_flush (ex_conn, ex_store) =
     Some (Inr (Some (F_RFlush \<lparr>rfl_Header = \<lparr>h_Type = Rflush, h_Tag = 5\<rparr>\<rparr>)), (c', ex_store))"
  by (simp add: handleCall_def dispatch_def ex_flush_def ex_srv_def fs_Srv_def ex_conn_def NewConn_def
      TagContext_def DropContext_def finish_call_def GetTag_def Let_def)

theorem handleCall_answers_witness:
  "\<exists>c' m. handleCall ex_srv ex_flush (ex_conn, ex_store) = Some (Inr (Some m), (c', ex_store)) \<and>
     GetTag m = GetTag ex_flush"
  using handleCall_answers [OF ex_conn_ok, of static_ops ex_fs ex_order ex_flush ex_store]
    ex_flush_handled by (fastforce simp: ex_srv_def)





section \<open>The asynchronous loop\<close>

text \<open>
  C3: However the reader, the hundred workers and the writer interleave, every reply written or
  waiting to be written answers a request of its own: the tags of the replies form a sub-multiset
  of the tags of the requests read.
\<close>

theorem async_replies_answer_requests:
  assumes "conn_ok c" "(aio_step (fs_Srv ops fs order) rd uname)\<^sup>*\<^sup>* (aio_init r (c, s)) a"
  shows "mset (map GetTag (a_written a @ a_out a)) \<subseteq># mset (map GetTag (a_read a))"
proof -
  have "reply_tags a + open_tags a \<subseteq># read_tags a"
    using fs.aio_run_inv [OF assms(2) fs.aio_init_inv] assms(1) by (simp add: fs.aio_inv_def)
  then show ?thesis
    using subset_mset.order_trans mset_subset_eq_add_left unfolding reply_tags_def read_tags_def by metis
qed

definition ex_pipe :: pipe where
  "ex_pipe = \<lparr>p_in = [Some (fcall_bytes ex_flush)], p_inbs = []\<rparr>"

lemma ex_flush_wf: "wf_fcall ex_flush"
  by (simp add: ex_flush_def wf_fcall_def)

lemma ex_flush_read:
  "\<exists>a. aio_step ex_srv pipe_Read [] (aio_init ex_pipe (ex_conn, ex_store)) a \<and>
     a_status a = Serving \<and> a_read a = [ex_flush]"
  using pipe.aio_read_call [of "aio_init ex_pipe (ex_conn, ex_store)" ex_pipe ex_flush "[]" "[]" ex_srv]
    ex_flush_wf
  by (fastforce simp: aio_init_def ex_pipe_def pipe_pending_def attach_ok_def ex_flush_def)


theorem async_replies_answer_requests_witness:
  "\<exists>a. a_read a = [ex_flush] \<and> (aio_step ex_srv pipe_Read [])\<^sup>*\<^sup>* (aio_init ex_pipe (ex_conn, ex_store)) a \<and>
     mset (map GetTag (a_written a @ a_out a)) \<subseteq># mset (map GetTag (a_read a))"
proof -
  obtain a where a: "aio_step ex_srv pipe_Read [] (aio_init ex_pipe (ex_conn, ex_store)) a"
    "a_read a = [ex_flush]" using ex_flush_read by blast
  then have "(aio_step ex_srv pipe_Read [])\<^sup>*\<^sup>* (aio_init ex_pipe (ex_conn, ex_store)) a" by blast
  with a async_replies_answer_requests [OF ex_conn_ok, of static_ops ex_fs ex_order pipe_Read "[]" ex_pipe
      ex_store a] show ?thesis by (auto simp: ex_srv_def)
qed



text \<open>
  C29: Over a connection whose client certificate names a user, every attach that reaches the
  workers is for that user.
\<close>

theorem async_attach_under_certificate:
  assumes "(aio_step (fs_Srv ops fs order) rd uname)\<^sup>*\<^sup>* (aio_init r (c, s)) a" "uname \<noteq> []"
    "F_TAttach t \<in> set (a_in a) \<or> Got (F_TAttach t) ctx \<in> set (a_workers a)"
  shows "tat_Uname t = uname"
  using attaches_run [OF assms(1) attaches_init] assms(2,3)
  by (auto simp: attaches_ok_def list_all_iff attach_ok_def)

definition ex_attach :: TAttach where
  "ex_attach = \<lparr>tat_Header = \<lparr>h_Type = Tattach, h_Tag = 1\<rparr>, tat_Fid = 0, tat_Afid = -1,
     tat_Uname = ''glenda'', tat_Aname = []\<rparr>"

theorem async_attach_under_certificate_witness:
  "\<exists>a. (aio_step ex_srv pipe_Read ''glenda'')\<^sup>*\<^sup>*
       (aio_init \<lparr>p_in = [Some (fcall_bytes (F_TAttach ex_attach))], p_inbs = []\<rparr> (ex_conn, ex_store)) a \<and>
     F_TAttach ex_attach \<in> set (a_in a) \<and> tat_Uname ex_attach = ''glenda''"
proof -
  let ?p = "\<lparr>p_in = [Some (fcall_bytes (F_TAttach ex_attach))], p_inbs = []\<rparr>"
  let ?a = "aio_init ?p (ex_conn, ex_store)"
  have "wf_fcall (F_TAttach ex_attach)" "attach_ok ''glenda'' (F_TAttach ex_attach)"
    by (simp_all add: wf_fcall_def attach_ok_def ex_attach_def)
  then obtain r' where "aio_step ex_srv pipe_Read ''glenda'' ?a
      (?a\<lparr>a_reader := Some r', a_in := [F_TAttach ex_attach], a_read := [F_TAttach ex_attach]\<rparr>)"
    using pipe.aio_read_call [of ?a ?p "F_TAttach ex_attach" "[]" "''glenda''" ex_srv]
    by (auto simp: aio_init_def pipe_pending_def)
  then have run: "(aio_step ex_srv pipe_Read ''glenda'')\<^sup>*\<^sup>* ?a
      (?a\<lparr>a_reader := Some r', a_in := [F_TAttach ex_attach], a_read := [F_TAttach ex_attach]\<rparr>)" by blast
  from async_attach_under_certificate [OF run [unfolded ex_srv_def], of ex_attach] run show ?thesis
    by (fastforce simp: aio_init_def)
qed

text \<open>
  A client can crash the server: if more than a hundred messages arrive before the workers
  take the first of them, the reader finds the queue full and panics, and the process dies.
\<close>

theorem async_queue_overflow_crashes:
  assumes "io_reader rd pending rank" "pending r = concat (map fcall_bytes ms) @ rest"
    "list_all wf_fcall ms" "list_all (attach_ok uname) ms" "100 < length ms"
  shows "\<exists>a. (aio_step srv rd uname)\<^sup>*\<^sup>* (aio_init r c) a \<and> a_status a = Dying"
  by (rule io_reader.aio_overflow [OF assms])

theorem async_queue_overflow_crashes_witness:
  "\<exists>a. (aio_step ex_srv pipe_Read [])\<^sup>*\<^sup>*
      (aio_init \<lparr>p_in = [Some (concat (map fcall_bytes (replicate 101 ex_flush)))], p_inbs = []\<rparr>
        (ex_conn, ex_store)) a \<and> a_status a = Dying"
  by (rule async_queue_overflow_crashes [OF pipe.io_reader_axioms, of _ "replicate 101 ex_flush" "[]"])
    (simp_all add: pipe_pending_def list_all_iff ex_flush_wf, simp add: attach_ok_def ex_flush_def)

text \<open>
  A hundred messages that are no requests silence a connection: each makes a worker return, the
  connection stays open and is read, and no later request is ever answered.
\<close>

theorem async_invalid_calls_silence:
  assumes "io_reader rd pending rank" "pending r = concat (map fcall_bytes ms) @ rest"
    "list_all wf_fcall ms" "list_all (\<lambda>m. dispatch srv m = None) ms" "length ms = 100"
  shows "\<exists>a r'. (aio_step srv rd [])\<^sup>*\<^sup>* (aio_init r c) a \<and> a_status a = Serving \<and>
     a_reader a = Some r' \<and> pending r' = rest \<and>
     (\<forall>b. (aio_step srv rd [])\<^sup>*\<^sup>* a b \<longrightarrow> a_written b = [] \<and> a_out b = [])"
proof -
  obtain a r' where a: "(aio_step srv rd [])\<^sup>*\<^sup>* (aio_init r c) a" "all_dead a" "a_status a = Serving"
    "a_reader a = Some r'" "pending r' = rest" "a_written a @ a_out a = []"
    using io_reader.aio_workers_die [OF assms(1), of "aio_init r c" r ms rest srv 0] assms(2-5)
    by (auto simp: aio_init_def)
  have "a_written b = [] \<and> a_out b = []" if "(aio_step srv rd [])\<^sup>*\<^sup>* a b" for b
    using all_dead_run [OF that a(2)] a(6) by simp
  with a show ?thesis by blast
qed

definition ex_rclunk :: fcall where
  "ex_rclunk = F_RClunk \<lparr>rcl_Header = \<lparr>h_Type = Rclunk, h_Tag = 1\<rparr>\<rparr>"

theorem async_invalid_calls_silence_witness:
  "\<exists>a. (aio_step ex_srv pipe_Read [])\<^sup>*\<^sup>*
      (aio_init \<lparr>p_in = [Some (concat (map fcall_bytes (replicate 100 ex_rclunk))), Some (fcall_bytes ex_flush)],
          p_inbs = []\<rparr> (ex_conn, ex_store)) a \<and> a_status a = Serving \<and>
     (\<forall>b. (aio_step ex_srv pipe_Read [])\<^sup>*\<^sup>* a b \<longrightarrow> a_written b = [] \<and> a_out b = [])"
proof -
  have "wf_fcall ex_rclunk" "dispatch ex_srv ex_rclunk = None"
    by (simp_all add: ex_rclunk_def wf_fcall_def dispatch_def)
  then show ?thesis
    using async_invalid_calls_silence [OF pipe.io_reader_axioms,
        of "\<lparr>p_in = [Some (concat (map fcall_bytes (replicate 100 ex_rclunk))), Some (fcall_bytes ex_flush)],
              p_inbs = []\<rparr>" "replicate 100 ex_rclunk" "fcall_bytes ex_flush" ex_srv "(ex_conn, ex_store)"]
    by (simp add: pipe_pending_def list_all_iff) blast
qed

end
