(* ===== verification/Static_Tree.thy ===== *)
theory Static_Tree
  imports Static_Props
begin

text \<open>
  The shape of the tree of static files, fs/static.go: which nodes a directory lists, which parent
  a node names and which qid it carries. The invariant \<open>tree_ok\<close> says that the two directions of
  the links agree, that parents are older than their children (so that there is no cycle) and that
  every qid path is unique. The theory shows which operations keep the shape, that none of them
  panics on a node that exists, and that the create and remove hooks maintain the invariant.
\<close>

section \<open>The shape of a store\<close>

text \<open>The children if the node is a directory, the parent, and the path of the qid.\<close>

type_synonym skeleton = "ref list option \<times> ref option \<times> u64"

primrec node_skel :: "node \<Rightarrow> skeleton" where
  "node_skel (NBase f) = (None, bf_parent f, q_Uid (st_Qid (bf_fStat f)))"
| "node_skel (NFile f) = (None, bf_parent f, q_Uid (st_Qid (bf_fStat f)))"
| "node_skel (NDyn f) = (None, bf_parent f, q_Uid (st_Qid (bf_fStat f)))"
| "node_skel (NDir d) = (Some (sd_children d), sd_parent d, q_Uid (st_Qid (sd_dStat d)))"

definition skel :: "store \<Rightarrow> ref \<Rightarrow> skeleton option" where
  "skel s r = map_option node_skel (sto_nodes s r)"

definition links_ok :: "(ref \<Rightarrow> skeleton option) \<Rightarrow> bool" where
  "links_ok k \<longleftrightarrow>
     (\<forall>d cs p u. k d = Some (Some cs, p, u) \<longrightarrow>
        distinct cs \<and> (\<forall>n\<in>set cs. \<exists>x w. k n = Some (x, Some d, w))) \<and>
     (\<forall>r x p u. k r = Some (x, Some p, u) \<longrightarrow>
        p < r \<and> (\<exists>cs q w. k p = Some (Some cs, q, w) \<and> r \<in> set cs))"

definition qids_ok :: "(ref \<Rightarrow> skeleton option) \<Rightarrow> ref \<Rightarrow> u64 \<Rightarrow> bool" where
  "qids_ok k next uid \<longleftrightarrow>
     (\<forall>r x p u. k r = Some (x, p, u) \<longrightarrow> r < next \<and> u = of_nat r) \<and> uid = of_nat next"

definition tree_ok :: "store \<Rightarrow> bool" where
  "tree_ok s \<longleftrightarrow> static_valid s \<and> links_ok (skel s) \<and> qids_ok (skel s) (sto_next s) (sto_uid s)"

lemma skel_None: "skel s r = None \<longleftrightarrow> sto_nodes s r = None"
  by (simp add: skel_def)

lemma skel_set_node [simp]: "skel (set_node r v s) = (skel s)(r \<mapsto> node_skel v)"
  by (auto simp: skel_def fun_eq_iff)

lemma node_skel_norm [simp]: "node_skel (norm_node v) = node_skel v"
  by (cases v) (simp_all add: StaticFile_Stat_def)

lemma node_kind_skel:
  "node_kind r s = (case skel s r of Some (Some cs, _) \<Rightarrow> KModDir | _ \<Rightarrow> KFile)"
  by (auto simp: node_kind_def skel_def split: option.split node.split)

lemma node_Parent_skel: "node_Parent r s = map_option (\<lambda>(_, p, _). (p, s)) (skel s r)"
  by (auto simp: node_Parent_def skel_def split: option.split node.split)

lemma skel_dir: "skel s d = Some (Some cs, p, u) \<Longrightarrow>
    \<exists>dir. sto_nodes s d = Some (NDir dir) \<and> sd_children dir = cs"
  by (cases "the (sto_nodes s d)") (auto simp: skel_def)

lemma tree_okD:
  assumes "tree_ok s"
  shows "static_valid s"
    and "skel s d = Some (Some cs, q, u) \<Longrightarrow> distinct cs"
    and "skel s d = Some (Some cs, q, u) \<Longrightarrow> n \<in> set cs \<Longrightarrow> \<exists>x w. skel s n = Some (x, Some d, w)"
    and "skel s r = Some (x, Some p, w) \<Longrightarrow> p < r \<and> (\<exists>cs q v. skel s p = Some (Some cs, q, v) \<and> r \<in> set cs)"
    and "skel s r = Some (x, q, w) \<Longrightarrow> r < sto_next s \<and> w = of_nat r"
    and "sto_uid s = of_nat (sto_next s)"
  using assms by (auto simp: tree_ok_def links_ok_def qids_ok_def)

section \<open>Operations that keep the shape\<close>

definition keeps :: "store \<Rightarrow> store \<Rightarrow> bool" where
  "keeps s s' \<longleftrightarrow> skel s' = skel s \<and> sto_next s' = sto_next s \<and> sto_uid s' = sto_uid s \<and>
     (static_valid s \<longrightarrow> static_valid s')"

lemma keeps_refl [simp, intro]: "keeps s s"
  by (simp add: keeps_def)

lemma keeps_trans [trans]: "keeps s1 s2 \<Longrightarrow> keeps s2 s3 \<Longrightarrow> keeps s1 s3"
  by (simp add: keeps_def)

lemma keeps_tree: "keeps s s' \<Longrightarrow> tree_ok s \<Longrightarrow> tree_ok s'"
  by (simp add: keeps_def tree_ok_def)

lemma keeps_skel: "keeps s s' \<Longrightarrow> skel s' = skel s"
  by (simp add: keeps_def)

lemma keeps_valid: "keeps s s' \<Longrightarrow> static_valid s \<Longrightarrow> static_valid s'"
  by (simp add: keeps_def)

lemma keeps_kind: "keeps s s' \<Longrightarrow> node_kind r s' = node_kind r s"
  by (simp add: node_kind_skel keeps_def)

lemma keeps_set_node:
  assumes "sto_nodes s r = Some v" "node_skel w = node_skel v"
    "node_ok (sto_mem s) v \<Longrightarrow> node_ok (sto_mem s) w"
  shows "keeps s (set_node r w s)"
proof -
  have "skel s r = Some (node_skel v)" using assms(1) by (simp add: skel_def)
  then have "skel (set_node r w s) = skel s" using assms(2) by (simp add: fun_upd_idem)
  then show ?thesis using assms by (auto simp: keeps_def dest: static_valid_node intro: static_valid_set)
qed

lemma Stat_total:
  assumes "skel s r \<noteq> None"
  shows "\<exists>st s'. node_Stat r s = Some (st, s') \<and> keeps s s' \<and> (\<exists>v. sto_nodes s r = Some v \<and> st = obs_stat v)"
  using assms keeps_set_node [of s r _ "norm_node _"] by (auto simp: node_Stat_eq skel_None)

lemma Parent_total:
  "skel s r \<noteq> None \<Longrightarrow> \<exists>p. node_Parent r s = Some (p, s)"
  by (cases "skel s r") (auto simp: node_Parent_skel)

lemma children_map_total:
  assumes "\<forall>n\<in>set ns. skel s n \<noteq> None"
  shows "\<exists>cs s'. children_map ns ret s = Some (cs, s') \<and> keeps s s' \<and>
    snd ` set cs \<subseteq> set ns \<union> snd ` set ret"
  using assms
proof (induction ns arbitrary: ret s)
  case (Cons n ns)
  obtain st s1 where st: "node_Stat n s = Some (st, s1)" "keeps s s1" using Stat_total Cons.prems by force
  have "\<forall>n\<in>set ns. skel s1 n \<noteq> None" using Cons.prems keeps_skel [OF st(2)] by simp
  from Cons.IH [OF this, of "AList.update (st_Name st) n ret"]
  obtain cs s' where cs: "children_map ns (AList.update (st_Name st) n ret) s1 = Some (cs, s')"
    "keeps s1 s'" "snd ` set cs \<subseteq> set ns \<union> snd ` set (AList.update (st_Name st) n ret)" by blast
  have "snd ` set (AList.update (st_Name st) n ret) \<subseteq> insert n (snd ` set ret)"
    by (induction ret) auto
  with st cs show ?case by (auto intro: keeps_trans)
qed auto

lemma name_taken_total:
  assumes "\<forall>n\<in>set ns. skel s n \<noteq> None"
  shows "\<exists>b s'. name_taken name ns s = Some (b, s') \<and> keeps s s'"
  using assms
proof (induction ns arbitrary: s)
  case (Cons n ns)
  obtain st s1 where st: "node_Stat n s = Some (st, s1)" "keeps s s1" using Stat_total Cons.prems by force
  have "\<forall>n\<in>set ns. skel s1 n \<noteq> None" using Cons.prems keeps_skel [OF st(2)] by simp
  from Cons.IH [OF this] st show ?case by (auto intro: keeps_trans)
qed auto

lemma Children_total:
  assumes "tree_ok s" "node_kind d s = KModDir"
  shows "\<exists>cs s'. StaticDir_Children d s = Some (cs, s') \<and> keeps s s' \<and> (\<forall>n\<in>snd ` set cs. skel s n \<noteq> None)"
proof -
  obtain ns p u where d: "skel s d = Some (Some ns, p, u)"
    using assms(2) by (auto simp: node_kind_skel split: option.splits)
  obtain dir where dir: "sto_nodes s d = Some (NDir dir)" "sd_children dir = ns" using skel_dir [OF d] by blast
  have ns: "\<forall>n\<in>set ns. skel s n \<noteq> None" using tree_okD(3) [OF assms(1) d] by fastforce
  from children_map_total [OF this, of "[]"] dir show ?thesis
    using ns by (force simp: StaticDir_Children_def)
qed

lemma FullPath_total:
  assumes "tree_ok s" "skel s r \<noteq> None"
  shows "\<exists>p s'. FullPath static_ops (Some r) s = Some (p, s') \<and> keeps s s'"
  using assms
proof (induction r arbitrary: s rule: less_induct)
  case (less r)
  obtain x p u where r: "skel s r = Some (x, p, u)" using less.prems(2) by (metis not_None_eq prod_cases3)
  then have par: "node_Parent r s = Some (p, s)" by (simp add: node_Parent_skel)
  show ?case
  proof (cases p)
    case None
    then show ?thesis
      using par Stat_total [OF less.prems(2)] by (subst FullPath.simps) auto
  next
    case (Some q)
    have q: "q < r" "skel s q \<noteq> None" using tree_okD(4) [OF less.prems(1) r [unfolded Some]] by auto
    obtain fp s1 where fp: "FullPath static_ops (Some q) s = Some (fp, s1)" "keeps s s1"
      using less.IH [OF q(1) less.prems(1) q(2)] by blast
    have "skel s1 r \<noteq> None" using keeps_skel [OF fp(2)] less.prems(2) by simp
    then obtain st s2 where st: "node_Stat r s1 = Some (st, s2)" "keeps s1 s2" using Stat_total by blast
    show ?thesis
      using par Some fp st keeps_trans [OF fp(2) st(2)] by (subst FullPath.simps) simp
  qed
qed

lemma WriteStat_total:
  assumes "sto_nodes s r = Some v" "q_Uid (st_Qid st) = q_Uid (st_Qid (obs_stat v))"
  shows "\<exists>s'. node_WriteStat r st s = Some (None, s') \<and> keeps s s'"
  using assms
  by (cases v) (auto simp: node_WriteStat_def StaticFile_Stat_def Let_def intro!: keeps_set_node)

lemma Open_total:
  assumes "skel s r \<noteq> None" "node_kind r s = KFile"
  shows "\<exists>s'. node_Open r fid m s = Some (None, s') \<and> keeps s s'"
  using assms
  by (auto simp: skel_None node_Open_def node_kind_def StaticFile_Open_def DynamicFile_Open_def
      split: node.splits intro!: keeps_set_node)

lemma Close_total:
  assumes "skel s r \<noteq> None" "node_kind r s = KFile"
  shows "\<exists>s'. node_Close r fid s = Some (None, s') \<and> keeps s s'"
  using assms
  by (auto simp: skel_None node_Close_def node_kind_def DynamicFile_Close_def
      split: node.splits intro!: keeps_set_node split: if_splits)

section \<open>Operations that change the links\<close>

definition orphan :: "skeleton \<Rightarrow> skeleton" where
  "orphan k = (case k of (x, p, u) \<Rightarrow> (x, None, u))"

lemma links_orphan:
  assumes "links_ok k" "k n = None" "x = None \<or> x = Some []"
  shows "links_ok (k(n \<mapsto> (x, None, w)))"
proof -
  let ?k = "k(n \<mapsto> (x, None, w))"
  have "distinct cs \<and> (\<forall>m\<in>set cs. \<exists>y z. ?k m = Some (y, Some e, z))"
    if "?k e = Some (Some cs, q, v)" for e cs q v
  proof (cases "e = n")
    case False
    then have "distinct cs \<and> (\<forall>m\<in>set cs. \<exists>y z. k m = Some (y, Some e, z))"
      using assms(1) that unfolding links_ok_def by auto
    then show ?thesis using assms(2) by fastforce
  qed (use assms(3) that in auto)
  moreover have "q < r \<and> (\<exists>cs q' v. ?k q = Some (Some cs, q', v) \<and> r \<in> set cs)"
    if "?k r = Some (y, Some q, z)" for r y q z
  proof -
    have "k r = Some (y, Some q, z)" using that by (auto split: if_splits)
    then obtain cs q' v where "q < r" "k q = Some (Some cs, q', v)" "r \<in> set cs"
      using assms(1) unfolding links_ok_def by blast
    then show ?thesis using assms(2) by auto
  qed
  ultimately show ?thesis unfolding links_ok_def by blast
qed

lemma links_add:
  assumes k: "links_ok k" and d: "k d = Some (Some cs, p, u)" and n: "k n = Some (x, None, w)" and lt: "d < n"
  shows "links_ok (k(d \<mapsto> (Some (cs @ [n]), p, u), n \<mapsto> (x, Some d, w)))"
proof -
  have nocs: "n \<notin> set cs'" if "k e = Some (Some cs', q, v)" for e cs' q v
    using k n that unfolding links_ok_def by fastforce
  have ch: "distinct cs' \<and> (\<forall>m\<in>set cs'. \<exists>y z. k m = Some (y, Some e, z))" if "k e = Some (Some cs', q, v)" for e cs' q v
    using k that unfolding links_ok_def by blast
  have pa: "q < r \<and> (\<exists>cs q' v. k q = Some (Some cs, q', v) \<and> r \<in> set cs)" if "k r = Some (y, Some q, z)" for r y q z
    using k that unfolding links_ok_def by blast
  let ?k = "k(d \<mapsto> (Some (cs @ [n]), p, u), n \<mapsto> (x, Some d, w))"
  have "distinct cs' \<and> (\<forall>m\<in>set cs'. \<exists>y z. ?k m = Some (y, Some e, z))"
    if e: "?k e = Some (Some cs', q, v)" for e cs' q v
  proof -
    consider "e = d" "cs' = cs @ [n]" "q = p" | "e = n" "k n = Some (Some cs', None, w)" | "e \<noteq> d" "e \<noteq> n" "k e = Some (Some cs', q, v)"
      using e n lt by (auto split: if_splits)
    then show ?thesis
    proof cases
      case 1
      then show ?thesis using ch [OF d] nocs [OF d] d by fastforce
    next
      case 2
      then show ?thesis using ch [OF 2(2)] nocs [OF 2(2)] d 2 by fastforce
    next
      case 3
      then show ?thesis using ch [OF 3(3)] nocs [OF 3(3)] d by fastforce
    qed
  qed
  moreover have "q < r \<and> (\<exists>cs q' v. ?k q = Some (Some cs, q', v) \<and> r \<in> set cs)"
    if r: "?k r = Some (y, Some q, z)" for r y q z
  proof (cases "r = n")
    case True
    then show ?thesis using r lt by auto
  next
    case False
    then obtain y' where "k r = Some (y', Some q, z)" using r d by (auto split: if_splits)
    from pa [OF this] False n d show ?thesis by auto
  qed
  ultimately show ?thesis unfolding links_ok_def by blast
qed

lemma links_remove:
  assumes k: "links_ok k" and d: "k d = Some (Some cs, p, u)" and R: "R \<subseteq> set cs"
  shows "links_ok (\<lambda>r. if r = d then Some (Some [c\<leftarrow>cs. c \<notin> R], p, u)
                       else if r \<in> R then map_option orphan (k r) else k r)" (is "links_ok ?k")
proof -
  have ch: "distinct cs' \<and> (\<forall>m\<in>set cs'. \<exists>y z. k m = Some (y, Some e, z))" if "k e = Some (Some cs', q, v)" for e cs' q v
    using k that unfolding links_ok_def by blast
  have pa: "q < r \<and> (\<exists>cs q' v. k q = Some (Some cs, q', v) \<and> r \<in> set cs)" if "k r = Some (y, Some q, z)" for r y q z
    using k that unfolding links_ok_def by blast
  have Rd: "\<exists>y z. k r = Some (y, Some d, z)" if "r \<in> R" for r using ch [OF d] R that by blast
  have dd: "k d \<noteq> Some (y, Some d, z)" for y z
  proof
    assume "k d = Some (y, Some d, z)"
    from pa [OF this] show False by simp
  qed
  have dR: "d \<notin> R" using Rd dd by blast
  have kd: "?k d = Some (Some [c\<leftarrow>cs. c \<notin> R], p, u)" by simp
  have kR: "?k r = map_option orphan (k r)" if "r \<in> R" for r using that dR by auto
  have kk: "?k r = k r" if "r \<noteq> d" "r \<notin> R" for r using that by simp
  have "distinct cs' \<and> (\<forall>m\<in>set cs'. \<exists>y z. ?k m = Some (y, Some e, z))"
    if e: "?k e = Some (Some cs', q, v)" for e cs' q v
  proof (cases "e = d")
    case True
    with e have cs': "cs' = [c\<leftarrow>cs. c \<notin> R]" by simp
    have "\<exists>y z. ?k m = Some (y, Some e, z)" if m: "m \<in> set cs" "m \<notin> R" for m
    proof -
      obtain y z where y: "k m = Some (y, Some d, z)" using ch [OF d] m(1) by blast
      then have "m \<noteq> d" using dd by blast
      with y kk [OF _ m(2)] True show ?thesis by metis
    qed
    then show ?thesis using ch [OF d] cs' by simp
  next
    case False
    then obtain q' where ke: "k e = Some (Some cs', q', v)"
      using e by (auto simp: orphan_def split: if_splits)
    have "\<exists>y z. ?k m = Some (y, Some e, z)" if m': "m \<in> set cs'" for m
    proof -
      obtain y z where m: "k m = Some (y, Some e, z)" using ch [OF ke] m' by blast
      with Rd [of m] False have mR: "m \<notin> R" by auto
      show ?thesis
      proof (cases "m = d")
        case True
        then show ?thesis using m d kd by simp
      qed (use m mR in simp)
    qed
    then show ?thesis using ch [OF ke] by blast
  qed
  moreover have "q < r \<and> (\<exists>cs q' v. ?k q = Some (Some cs, q', v) \<and> r \<in> set cs)"
    if r: "?k r = Some (y, Some q, z)" for r y q z
  proof -
    have rR: "r \<notin> R"
    proof
      assume "r \<in> R"
      from r [unfolded kR [OF this]] show False by (auto simp: orphan_def)
    qed
    obtain y' where kr: "k r = Some (y', Some q, z)" using r d rR by (cases "r = d") auto
    obtain cs1 q' v where q: "q < r" "k q = Some (Some cs1, q', v)" "r \<in> set cs1" using pa [OF kr] by blast
    consider "q = d" | "q \<noteq> d" "q \<in> R" | "q \<noteq> d" "q \<notin> R" by blast
    then have "\<exists>cs q' v. ?k q = Some (Some cs, q', v) \<and> r \<in> set cs"
    proof cases
      case 1
      then show ?thesis using q d rR by simp
    next
      case 2
      then show ?thesis using q by (simp add: orphan_def)
    next
      case 3
      then show ?thesis using q by simp
    qed
    with q(1) show ?thesis by blast
  qed
  ultimately show ?thesis unfolding links_ok_def by blast
qed

text \<open>Nodes are never freed and never change their kind.\<close>

definition grows :: "store \<Rightarrow> store \<Rightarrow> bool" where
  "grows s s' \<longleftrightarrow> (\<forall>r. skel s r \<noteq> None \<longrightarrow> skel s' r \<noteq> None \<and> node_kind r s' = node_kind r s)"

lemma grows_refl [simp, intro]: "grows s s"
  by (simp add: grows_def)

lemma grows_trans [trans]: "grows s1 s2 \<Longrightarrow> grows s2 s3 \<Longrightarrow> grows s1 s3"
  unfolding grows_def by metis

lemma keeps_grows: "keeps s s' \<Longrightarrow> grows s s'"
  unfolding grows_def using keeps_skel keeps_kind by metis

lemma growsD: "grows s s' \<Longrightarrow> skel s r \<noteq> None \<Longrightarrow> skel s' r \<noteq> None"
  "grows s s' \<Longrightarrow> skel s r \<noteq> None \<Longrightarrow> node_kind r s' = node_kind r s"
  unfolding grows_def by blast+

lemma SetParent_skel:
  assumes "skel s r = Some (x, p, u)"
  shows "\<exists>s'. node_SetParent r q s = Some s' \<and> skel s' = (skel s)(r \<mapsto> (x, q, u)) \<and>
    sto_next s' = sto_next s \<and> sto_uid s' = sto_uid s \<and> (static_valid s \<longrightarrow> static_valid s')"
proof -
  obtain v where v: "sto_nodes s r = Some v" "node_skel v = (x, p, u)"
    using assms by (auto simp: skel_def)
  then obtain w where w: "node_SetParent r q s = Some (set_node r w s)" "node_skel w = (x, q, u)"
    by (cases v) (auto simp: node_SetParent_def)
  then show ?thesis using node_SetParent_valid by auto
qed

lemma set_children_skel:
  assumes "skel s d = Some (Some cs, p, u)"
  shows "skel (set_children d cs' s) = (skel s)(d \<mapsto> (Some cs', p, u))"
    "sto_next (set_children d cs' s) = sto_next s" "sto_uid (set_children d cs' s) = sto_uid s"
proof -
  obtain dir where "sto_nodes s d = Some (NDir dir)" using skel_dir [OF assms] by blast
  moreover from this assms have "sd_parent dir = p" "q_Uid (st_Qid (sd_dStat dir)) = u"
    by (simp_all add: skel_def)
  ultimately show "skel (set_children d cs' s) = (skel s)(d \<mapsto> (Some cs', p, u))"
    "sto_next (set_children d cs' s) = sto_next s" "sto_uid (set_children d cs' s) = sto_uid s"
    by (simp_all add: set_children_def)
qed

text \<open>Adding a fresh node gives a larger tree, whether or not the directory takes it.\<close>

lemma AddChild_fresh:
  assumes s: "tree_ok s" and n: "skel s n = Some (x, None, w)" and d: "skel s d = Some (Some cs, p, u)" "d < n"
  shows "\<exists>e s'. StaticDir_AddChild d n s = Some (e, s') \<and> tree_ok s' \<and> grows s s'"
proof -
  obtain dir where dir: "sto_nodes s d = Some (NDir dir)" "sd_children dir = cs" using skel_dir [OF d(1)] by blast
  obtain st s1 where st: "node_Stat n s = Some (st, s1)" "keeps s s1" using Stat_total [of s n] n by auto
  have "\<forall>m\<in>set cs. skel s1 m \<noteq> None" using tree_okD(3) [OF s d(1)] keeps_skel [OF st(2)] by fastforce
  then obtain b s2 where b: "name_taken (st_Name st) cs s1 = Some (b, s2)" "keeps s1 s2"
    using name_taken_total by blast
  have k: "keeps s s2" using st b keeps_trans by blast
  note s2 = keeps_tree [OF k s] and sk = keeps_skel [OF k]
  show ?thesis
  proof (cases b)
    case True
    then show ?thesis using dir st b s2 keeps_grows [OF k] by (auto simp: StaticDir_AddChild_def)
  next
    case False
    have d2: "skel s2 d = Some (Some cs, p, u)" using d sk by simp
    let ?s3 = "set_children d (cs @ [n]) s2"
    have n3: "skel ?s3 n = Some (x, None, w)" using set_children_skel(1) [OF d2] n sk d(2) by simp
    obtain s4 where s4: "node_SetParent n (Some d) ?s3 = Some s4"
      "skel s4 = (skel s)(d \<mapsto> (Some (cs @ [n]), p, u), n \<mapsto> (x, Some d, w))"
      "sto_next s4 = sto_next s2" "sto_uid s4 = sto_uid s2" "static_valid ?s3 \<longrightarrow> static_valid s4"
      using SetParent_skel [OF n3, of "Some d"] set_children_skel [OF d2] sk by auto
    have "StaticDir_AddChild d n s = Some (None, s4)"
      using dir st b False d(2) s4(1) by (simp add: StaticDir_AddChild_def)
    moreover have "tree_ok s4"
      using s2 s4 links_add [OF _ d(1) n d(2)] d(1) n sk
      by (auto simp: tree_ok_def qids_ok_def set_children_valid)
    moreover have "grows s s4"
      using s4(2) d(1) n by (auto simp: grows_def node_kind_skel)
    ultimately show ?thesis by blast
  qed
qed

lemma tree_new_node:
  assumes "tree_ok s" "node_skel v = (x, None, sto_uid s)" "x = None \<or> x = Some []" "node_ok (sto_mem s) v"
    and "s1 = s\<lparr>sto_uid := sto_uid s + 1, sto_reads := k\<rparr>" "new_node v s1 = (n, s2)"
  shows "tree_ok s2" "grows s s2" "skel s2 n = Some (x, None, of_nat n)" "n = sto_next s"
proof -
  have n: "n = sto_next s" and s2: "skel s2 = (skel s)(n \<mapsto> (x, None, of_nat n))" "sto_next s2 = Suc n"
    "sto_uid s2 = of_nat (Suc n)" "sto_nodes s2 = (sto_nodes s)(n \<mapsto> v)" "sto_mem s2 = sto_mem s"
    using assms tree_okD(6) [OF assms(1)] by (auto simp: new_node_def skel_def fun_eq_iff)
  have free: "skel s n = None"
    using tree_okD(1) [OF assms(1)] n by (auto simp: skel_None static_valid_def)
  show "n = sto_next s" "skel s2 n = Some (x, None, of_nat n)" using n s2 by auto
  show "grows s s2" using s2(1) free by (auto simp: grows_def node_kind_skel)
  have "static_valid s2"
    using tree_okD(1) [OF assms(1)] s2 n assms(4) by (auto simp: static_valid_def)
  moreover have "links_ok (skel s2)"
    unfolding s2(1) using assms(1,3) free by (intro links_orphan) (auto simp: tree_ok_def)
  moreover have "qids_ok (skel s2) (sto_next s2) (sto_uid s2)"
    using assms(1) n s2 by (auto simp: tree_ok_def qids_ok_def split: if_splits intro: less_SucI)
  ultimately show "tree_ok s2" by (simp add: tree_ok_def)
qed

section \<open>The hooks keep the tree\<close>

text \<open>
  A create hook either fails or returns a node that exists; in both cases the tree stays well
  formed and no node is lost. A remove hook does the same without a node.
\<close>

definition create_ok :: "(store, ref) create_hook \<Rightarrow> bool" where
  "create_ok hook \<longleftrightarrow>
     (\<forall>d user name perm mode s. tree_ok s \<longrightarrow> node_kind d s = KModDir \<longrightarrow>
        (\<exists>r s'. hook d user name perm mode s = Some (r, s') \<and> tree_ok s' \<and> grows s s' \<and>
           (case r of Inl e \<Rightarrow> True | Inr n \<Rightarrow> n \<noteq> None \<and> skel s' (the n) \<noteq> None)))"

definition remove_ok :: "(ref \<Rightarrow> store \<Rightarrow> (go_error option \<times> store) option) \<Rightarrow> bool" where
  "remove_ok hook \<longleftrightarrow>
     (\<forall>r s. tree_ok s \<longrightarrow> skel s r \<noteq> None \<longrightarrow>
        (\<exists>e s'. hook r s = Some (e, s') \<and> tree_ok s' \<and> grows s s'))"

lemma dir_skel: "node_kind d s = KModDir \<Longrightarrow> \<exists>cs p u. skel s d = Some (Some cs, p, u)"
  by (auto simp: node_kind_skel split: option.splits)

lemma create_child:
  assumes s: "tree_ok s" "node_kind d s = KModDir"
    and v: "\<And>st. q_Uid (st_Qid st) = sto_uid s \<Longrightarrow> node_skel (v st) = (x, None, sto_uid s) \<and> node_ok (sto_mem s) (v st)"
    and x: "x = None \<or> x = Some []"
    and st: "NewStat name user user perm s = (st, s1)" and n: "new_node (v st) s1 = (n, s2)"
  shows "\<exists>e s'. StaticDir_AddChild d n s2 = Some (e, s') \<and> tree_ok s' \<and> grows s s' \<and> skel s' n \<noteq> None"
proof -
  have st1: "q_Uid (st_Qid st) = sto_uid s" and s1: "s1 = s\<lparr>sto_uid := sto_uid s + 1, sto_reads := Suc (Suc (sto_reads s))\<rparr>"
    using st by (auto simp: NewStat_def NewQid_def time_Now_def Let_def)
  note v = v [OF st1]
  note new = tree_new_node [OF s(1) conjunct1 [OF v] x conjunct2 [OF v] s1 n]
  obtain cs p u where d: "skel s2 d = Some (Some cs, p, u)" "d < n"
  proof -
    obtain cs p u where d: "skel s d = Some (Some cs, p, u)" using dir_skel [OF s(2)] by blast
    have "node_kind d s2 = KModDir" using growsD(2) [OF new(2)] d s(2) by simp
    moreover have "d < n" using tree_okD(5) [OF s(1) d] new(4) by simp
    ultimately show thesis using dir_skel that by blast
  qed
  obtain e s' where "StaticDir_AddChild d n s2 = Some (e, s')" "tree_ok s'" "grows s2 s'"
    using AddChild_fresh [OF new(1,3) d] by blast
  then show ?thesis using new(2,3) grows_trans growsD(1) by blast
qed

lemma CreateStaticFile_ok: "create_ok CreateStaticFile"
  unfolding create_ok_def
proof (intro allI impI)
  fix d user name perm mode s assume s: "tree_ok s" "node_kind d s = KModDir"
  obtain st s1 where st: "NewStat name user user perm s = (st, s1)" by fastforce
  obtain n s2 where n: "new_node (NFile (NewStaticFile st [])) s1 = (n, s2)" by fastforce
  from create_child [OF s, where v = "\<lambda>st. NFile (NewStaticFile st [])", OF _ _ st n]
  show "\<exists>r s'. CreateStaticFile d user name perm mode s = Some (r, s') \<and> tree_ok s' \<and> grows s s' \<and>
      (case r of Inl e \<Rightarrow> True | Inr n \<Rightarrow> n \<noteq> None \<and> skel s' (the n) \<noteq> None)"
    using s(2) st n by (fastforce simp: CreateStaticFile_def NewStaticFile_def split: option.splits)
qed

lemma CreateStaticDir_ok: "create_ok CreateStaticDir"
  unfolding create_ok_def
proof (intro allI impI)
  fix d user name perm mode s assume s: "tree_ok s" "node_kind d s = KModDir"
  obtain st s1 where st: "NewStat name user user perm s = (st, s1)" by fastforce
  obtain n s2 where n: "new_node (NDir (NewStaticDir st)) s1 = (n, s2)" by fastforce
  from create_child [OF s, where v = "\<lambda>st. NDir (NewStaticDir st)", OF _ _ st n]
  show "\<exists>r s'. CreateStaticDir d user name perm mode s = Some (r, s') \<and> tree_ok s' \<and> grows s s' \<and>
      (case r of Inl e \<Rightarrow> True | Inr n \<Rightarrow> n \<noteq> None \<and> skel s' (the n) \<noteq> None)"
    using s(2) st n by (fastforce simp: CreateStaticDir_def NewStaticDir_def Let_def split: option.splits)
qed

lemma delete_named_skel:
  assumes "distinct cs" "\<forall>c\<in>set cs. skel s c \<noteq> None"
  shows "\<exists>R s'. delete_named name cs kept s = Some (kept @ [c\<leftarrow>cs. c \<notin> R], s') \<and> R \<subseteq> set cs \<and>
    skel s' = (\<lambda>r. if r \<in> R then map_option orphan (skel s r) else skel s r) \<and>
    sto_next s' = sto_next s \<and> sto_uid s' = sto_uid s \<and> (static_valid s \<longrightarrow> static_valid s')"
  using assms
proof (induction cs arbitrary: kept s)
  case (Cons c cs)
  obtain st s1 where st: "node_Stat c s = Some (st, s1)" "keeps s s1" using Stat_total [of s c] Cons.prems by force
  note sk = keeps_skel [OF st(2)]
  have filt: "R \<subseteq> set cs \<Longrightarrow> [d\<leftarrow>cs. d \<notin> insert c R] = [d\<leftarrow>cs. d \<notin> R]" for R
    using Cons.prems(1) by (auto intro!: filter_cong)
  show ?case
  proof (cases "st_Name st = name")
    case False
    have "\<forall>c\<in>set cs. skel s1 c \<noteq> None" using Cons.prems(2) sk by simp
    then obtain R s' where R: "delete_named name cs (kept @ [c]) s1 = Some ((kept @ [c]) @ [d\<leftarrow>cs. d \<notin> R], s')"
      "R \<subseteq> set cs" "skel s' = (\<lambda>r. if r \<in> R then map_option orphan (skel s1 r) else skel s1 r)"
      "sto_next s' = sto_next s1" "sto_uid s' = sto_uid s1" "static_valid s1 \<longrightarrow> static_valid s'"
      using Cons.IH [of s1 "kept @ [c]"] Cons.prems(1) by auto
    moreover from R(2) Cons.prems(1) have "c \<notin> R" by auto
    ultimately show ?thesis using st False sk by (intro exI [of _ R] exI [of _ s']) (auto simp: keeps_def)
  next
    case True
    obtain x p u where c: "skel s1 c = Some (x, p, u)" using Cons.prems(2) sk by (cases "skel s c") auto
    obtain s2 where s2: "node_SetParent c None s1 = Some s2" "skel s2 = (skel s1)(c \<mapsto> (x, None, u))"
      "sto_next s2 = sto_next s1" "sto_uid s2 = sto_uid s1" "static_valid s1 \<longrightarrow> static_valid s2"
      using SetParent_skel [OF c, of None] by blast
    have "\<forall>c\<in>set cs. skel s2 c \<noteq> None" using Cons.prems(2) sk s2(2) by simp
    then obtain R s' where R: "delete_named name cs kept s2 = Some (kept @ [d\<leftarrow>cs. d \<notin> R], s')"
      "R \<subseteq> set cs" "skel s' = (\<lambda>r. if r \<in> R then map_option orphan (skel s2 r) else skel s2 r)"
      "sto_next s' = sto_next s2" "sto_uid s' = sto_uid s2" "static_valid s2 \<longrightarrow> static_valid s'"
      using Cons.IH [of s2 kept] Cons.prems(1) by auto
    have "c \<notin> R" using R(2) Cons.prems(1) by auto
    then have "skel s' = (\<lambda>r. if r \<in> insert c R then map_option orphan (skel s r) else skel s r)"
      using R(3) s2(2) sk c by (auto simp: fun_eq_iff orphan_def)
    then show ?thesis using st True s2 R filt
      by (intro exI [of _ "insert c R"] exI [of _ s']) (auto simp: keeps_def)
  qed
qed (auto intro!: exI [of _ "{}"])

lemma DeleteChild_total:
  assumes "tree_ok s" "skel s d = Some (Some cs, p, u)"
  shows "\<exists>s'. StaticDir_DeleteChild d name s = Some (None, s') \<and> tree_ok s' \<and> grows s s'"
proof -
  obtain dir where dir: "sto_nodes s d = Some (NDir dir)" "sd_children dir = cs" using skel_dir [OF assms(2)] by blast
  have cs: "distinct cs" "\<forall>c\<in>set cs. skel s c \<noteq> None" "d \<notin> set cs"
    using tree_okD(2,3,4) [OF assms(1)] assms(2) by fastforce+
  from delete_named_skel [OF cs(1,2), of name "[]"] obtain R s' where
    R: "delete_named name cs [] s = Some ([c\<leftarrow>cs. c \<notin> R], s')" "R \<subseteq> set cs"
      "skel s' = (\<lambda>r. if r \<in> R then map_option orphan (skel s r) else skel s r)"
      "sto_next s' = sto_next s" "sto_uid s' = sto_uid s" "static_valid s \<longrightarrow> static_valid s'" by auto
  have d': "skel s' d = Some (Some cs, p, u)" using R(2,3) cs(3) assms(2) by auto
  let ?s = "set_children d [c\<leftarrow>cs. c \<notin> R] s'"
  have sk: "skel ?s = (\<lambda>r. if r = d then Some (Some [c\<leftarrow>cs. c \<notin> R], p, u)
      else if r \<in> R then map_option orphan (skel s r) else skel s r)"
    unfolding set_children_skel(1) [OF d'] R(3) by auto
  have "StaticDir_DeleteChild d name s = Some (None, ?s)" using dir R(1) by (simp add: StaticDir_DeleteChild_def)
  moreover have "tree_ok ?s"
    using assms(1) R(4-6) set_children_skel(2,3) [OF d'] links_remove [where k = "skel s", OF _ assms(2) R(2)] assms(2)
    by (auto simp: tree_ok_def sk set_children_valid qids_ok_def orphan_def split: if_splits)
  moreover have "grows s ?s"
    unfolding grows_def node_kind_skel sk using assms(2) by (auto simp: orphan_def split: option.splits)
  ultimately show ?thesis by blast
qed

lemma RMFile_ok: "remove_ok RMFile"
  unfolding remove_ok_def
proof (intro allI impI)
  fix r s assume s: "tree_ok s" "skel s r \<noteq> None"
  then obtain x p u where r: "skel s r = Some (x, p, u)" by (cases "skel s r") auto
  then have par: "node_Parent r s = Some (p, s)" by (simp add: node_Parent_skel)
  show "\<exists>e s'. RMFile r s = Some (e, s') \<and> tree_ok s' \<and> grows s s'"
  proof (cases p)
    case None
    then show ?thesis using par s(1) by (auto simp: RMFile_def FullPath.simps)
  next
    case (Some q)
    obtain st s1 where st: "node_Stat r s = Some (st, s1)" "keeps s s1" using Stat_total [OF s(2)] by blast
    obtain cs q' w where q: "skel s q = Some (Some cs, q', w)" using tree_okD(4) [OF s(1)] r Some by blast
    then have "skel s1 q = Some (Some cs, q', w)" using keeps_skel [OF st(2)] by simp
    from DeleteChild_total [OF keeps_tree [OF st(2) s(1)] this] q show ?thesis
      using par Some st keeps_grows [OF st(2)] grows_trans
      by (fastforce simp: RMFile_def node_kind_skel)
  qed
qed

end
