(* ===== verification/Static_Server.thy ===== *)
theory Static_Server
  imports Static_Tree
begin

text \<open>
  The request handlers of fs/server.go on the tree of static files, composed with the hooks of
  fs/static.go: on a well-formed tree, with fids that refer to existing nodes, every handler
  returns and leaves such a state behind. The exceptions, requests that can crash the process, are
  made explicit by \<open>crash_risk\<close>.
\<close>

section \<open>The state of a connection and the configuration\<close>

definition hooks_ok :: "(store, ref) FS \<Rightarrow> bool" where
  "hooks_ok fs \<longleftrightarrow> (\<forall>h. fs_CreateFile fs = Some h \<longrightarrow> create_ok h) \<and>
     (\<forall>h. fs_CreateDir fs = Some h \<longrightarrow> create_ok h) \<and> (\<forall>h. fs_RemoveFile fs = Some h \<longrightarrow> remove_ok h) \<and>
     fs_WalkFail fs = None \<and> fs_authFile fs = None"

text \<open>\<^verbatim>\<open>range\<close> visits every entry of a map once.\<close>

definition order_ok :: "((string \<times> ref) list \<Rightarrow> ref list) \<Rightarrow> bool" where
  "order_ok order \<longleftrightarrow> (\<forall>cs. mset (order cs) = mset (map snd cs))"

definition info_ok :: "store \<Rightarrow> ref fidInfo \<Rightarrow> bool" where
  "info_ok s i \<longleftrightarrow> skel s (fi_n i) \<noteq> None \<and>
     (\<forall>ns. fi_extra i = ExNodes ns \<longrightarrow> (\<forall>n\<in>set ns. skel s n \<noteq> None))"

definition fids_ok :: "ref conn \<Rightarrow> store \<Rightarrow> bool" where
  "fids_ok c s \<longleftrightarrow> (\<forall>f i. c_fids c f = Some i \<longrightarrow> info_ok s i)"

lemma info_ok_grows: "info_ok s i \<Longrightarrow> grows s s' \<Longrightarrow> info_ok s' i"
  unfolding info_ok_def using growsD(1) by blast

lemma fids_ok_grows: "fids_ok c s \<Longrightarrow> grows s s' \<Longrightarrow> fids_ok c s'"
  unfolding fids_ok_def using info_ok_grows by blast

lemma fids_ok_Store: "fids_ok c s \<Longrightarrow> info_ok s i \<Longrightarrow> fids_ok (fids_Store f i c) s"
  by (auto simp: fids_ok_def)

lemma fids_ok_Delete: "fids_ok c s \<Longrightarrow> fids_ok (fids_Delete f c) s"
  by (auto simp: fids_ok_def)

lemma fids_ok_fids: "c_fids c' = c_fids c \<Longrightarrow> fids_ok c' s = fids_ok c s"
  by (simp add: fids_ok_def)

lemma info_ok_new: "skel s n \<noteq> None \<Longrightarrow> info_ok s (newFidInfo u n)" "skel s n \<noteq> None \<Longrightarrow> info_ok s (deriveInfo i n)"
  by (simp_all add: info_ok_def newFidInfo_def deriveInfo_def)

lemma order_ok_nodes: "order_ok order \<Longrightarrow> \<forall>n\<in>snd ` set cs. P n \<Longrightarrow> \<forall>n\<in>set (order cs). P n"
  unfolding order_ok_def by (metis list.set_map mset_eq_setD)

text \<open>What every handler leaves behind.\<close>

definition fine :: "store \<Rightarrow> ref conn \<Rightarrow> store \<Rightarrow> bool" where
  "fine s c' s' \<longleftrightarrow> tree_ok s' \<and> grows s s' \<and> fids_ok c' s'"

lemma fine_keeps:
  "tree_ok s \<Longrightarrow> fids_ok c s \<Longrightarrow> keeps s s' \<Longrightarrow> fine s c s'"
  using keeps_tree keeps_grows fids_ok_grows by (simp add: fine_def)

lemma fine_grows:
  "tree_ok s' \<Longrightarrow> grows s s' \<Longrightarrow> fids_ok c s \<Longrightarrow> fine s c s'"
  using fids_ok_grows by (simp add: fine_def)

lemma fine_Store: "fine s c s' \<Longrightarrow> info_ok s' i \<Longrightarrow> fine s (fids_Store f i c) s'"
  by (simp add: fine_def fids_ok_Store)

lemma has_keeps: "keeps s s' \<Longrightarrow> skel s n \<noteq> None \<Longrightarrow> skel s' n \<noteq> None"
  by (simp add: keeps_skel)

lemma node_kind_file: "node_kind r s \<noteq> KModDir \<longleftrightarrow> node_kind r s = KFile"
  by (simp add: node_kind_def split: option.split node.split)

section \<open>Permissions and walks\<close>

lemma openPermission_total:
  assumes "skel s n \<noteq> None"
  shows "\<exists>b s'. openPermission static_ops n user m s = Some (b, s') \<and> keeps s s'"
proof -
  obtain st s1 where st: "node_Stat n s = Some (st, s1)" "keeps s s1" using Stat_total [OF assms] by blast
  obtain st2 s2 where st2: "node_Stat n s1 = Some (st2, s2)" "keeps s1 s2"
    using Stat_total [OF has_keeps [OF st(2) assms]] by blast
  show ?thesis using st(1) st2(1) keeps_trans [OF st(2) st2(2)]
    by (simp add: openPermission_def userRelation_def)
qed

lemma allowed_total:
  assumes "skel s n \<noteq> None"
  shows "\<exists>b s'. (if ig then Some (True, s) else openPermission static_ops n user m s) = Some (b, s') \<and> keeps s s'"
  using openPermission_total [OF assms] by auto

lemma walk_names_total:
  assumes "tree_ok s" "skel s f \<noteq> None" "k \<le> length names" "fs_WalkFail fs = None"
  shows "\<exists>r s'. walk_names static_ops fs tag k names f qids s = Some (r, s') \<and> keeps s s' \<and>
    (case r of Inl m \<Rightarrow> True | Inr (f', _) \<Rightarrow> skel s' f' \<noteq> None)"
  using assms
proof (induction k arbitrary: names f qids s)
  case (Suc k)
  then obtain name rest where names: "names = name # rest" by (cases names) auto
  show ?case
  proof (cases "node_kind f s = KModDir")
    case True
    obtain cs s1 where cs: "StaticDir_Children f s = Some (cs, s1)" "keeps s s1" "\<forall>n\<in>snd ` set cs. skel s n \<noteq> None"
      using Children_total [OF Suc.prems(1) True] by blast
    show ?thesis
    proof (cases "map_of cs name")
      case None
      then show ?thesis using True cs names Suc.prems(4) by (auto simp: walk_child_def)
    next
      case (Some f')
      have f': "skel s1 f' \<noteq> None" using cs(3) keeps_skel [OF cs(2)] map_of_SomeD [OF Some] by force
      obtain st s2 where st: "node_Stat f' s1 = Some (st, s2)" "keeps s1 s2" using Stat_total [OF f'] by blast
      have k2: "keeps s s2" using cs st keeps_trans by blast
      have "walk_names static_ops fs tag (Suc k) names f qids s =
          walk_names static_ops fs tag k rest f' (qids @ [st_Qid st]) s2"
        using True cs names Some st by (simp add: walk_child_def)
      moreover have "\<exists>r s'. walk_names static_ops fs tag k rest f' (qids @ [st_Qid st]) s2 = Some (r, s') \<and>
          keeps s2 s' \<and> (case r of Inl m \<Rightarrow> True | Inr (f', _) \<Rightarrow> skel s' f' \<noteq> None)"
        using Suc.prems names has_keeps [OF st(2) f'] keeps_tree [OF k2]
        by (intro Suc.IH) auto
      ultimately show ?thesis using keeps_trans [OF k2] by auto
    qed
  next
    case False
    then show ?thesis by (auto simp: node_kind_file)
  qed
qed auto

lemma Walk_fine:
  assumes "tree_ok s" "fids_ok c s" "fs_WalkFail fs = None" "length (twk_Wname t) = unat (twk_Nwname t)"
  shows "\<exists>ret c' s'. srv_Walk static_ops fs t c s = Some (ret, c', s') \<and> fine s c' s'"
proof (cases "c_fids c (twk_Fid t)")
  case None
  then show ?thesis using assms by (auto simp: srv_Walk_def fine_keeps)
next
  case (Some info)
  let ?n = "fi_n info"
  have n: "skel s ?n \<noteq> None" using assms(2) Some by (auto simp: fids_ok_def info_ok_def)
  have names: "\<not> (twk_Nwname t > 0 \<and> twk_Wname t = [])" using assms(4) by (auto simp: word_less_nat_alt)
  have store: "\<exists>ret c' s'. (do { let c = fids_Store (twk_Newfid t) (deriveInfo info p) c;
        (st, s) \<leftarrow> node_Stat p s; reply (mk_RWalk (h_Tag (twk_Header t)) [st_Qid st]) c s }) = Some (ret, c', s') \<and> fine s c' s'"
    if p: "skel s p \<noteq> None" for p
  proof -
    obtain st s1 where st: "node_Stat p s = Some (st, s1)" "keeps s s1" using Stat_total [OF p] by blast
    then show ?thesis using assms p by (auto intro!: fine_Store fine_keeps info_ok_new dest: has_keeps)
  qed
  consider "twk_Nwname t > 0" "hd (twk_Wname t) = ''..''" | "twk_Nwname t > 0" "hd (twk_Wname t) = ''.''"
    | "\<not> (twk_Nwname t > 0 \<and> hd (twk_Wname t) = ''..'')" "\<not> (twk_Nwname t > 0 \<and> hd (twk_Wname t) = ''.'')"
    by blast
  then show ?thesis
  proof cases
    case 1
    obtain x q u where sk: "skel s ?n = Some (x, q, u)" using n by (cases "skel s ?n") auto
    then have par: "node_Parent ?n s = Some (q, s)" by (simp add: node_Parent_skel)
    show ?thesis
    proof (cases q)
      case None
      then show ?thesis using 1 Some names par assms by (auto simp: srv_Walk_def fine_keeps Let_def)
    next
      case (Some p)
      have "skel s p \<noteq> None" using tree_okD(4) [OF assms(1)] sk Some by blast
      from store [OF this] 1 \<open>c_fids c (twk_Fid t) = Some info\<close> names par Some show ?thesis
        by (simp add: srv_Walk_def Let_def)
    qed
  next
    case 2
    from store [OF n] 2 Some names show ?thesis by (simp add: srv_Walk_def Let_def)
  next
    case 3
    obtain r s1 where r: "walk_names static_ops fs (h_Tag (twk_Header t)) (unat (twk_Nwname t)) (twk_Wname t) ?n [] s = Some (r, s1)"
      "keeps s s1" "case r of Inl m \<Rightarrow> True | Inr (f', _) \<Rightarrow> skel s1 f' \<noteq> None"
      using walk_names_total [OF assms(1) n eq_imp_le [OF assms(4) [symmetric]] assms(3)] by blast
    have "srv_Walk static_ops fs t c s = (case r of Inl m \<Rightarrow> reply m c s1
        | Inr (file, qids) \<Rightarrow> reply (mk_RWalk (h_Tag (twk_Header t)) qids) (fids_Store (twk_Newfid t) (deriveInfo info file) c) s1)"
      using 3 Some names r(1) by (auto simp: srv_Walk_def Let_def)
    then show ?thesis using r assms
      by (auto split: sum.splits prod.splits intro!: fine_Store fine_keeps info_ok_new)
  qed
qed

section \<open>Opening, creating, clunking and removing\<close>

lemma Open_fine:
  assumes "tree_ok s" "fids_ok c s" "order_ok order"
  shows "\<exists>ret c' s'. srv_Open static_ops fs order t c s = Some (ret, c', s') \<and> fine s c' s'"
proof (cases "c_fids c (top_Fid t)")
  case None
  then show ?thesis using assms by (auto simp: srv_Open_def fine_keeps)
next
  case (Some info)
  let ?n = "fi_n info"
  have i: "info_ok s info" and n: "skel s ?n \<noteq> None" using assms(2) Some by (auto simp: fids_ok_def info_ok_def)
  obtain b s1 where b: "(if fs_ignorePerms fs then Some (True, s)
      else openPermission static_ops ?n (fi_uname info) (top_Mode t AND 0x0F) s) = Some (b, s1)" "keeps s s1"
    using allowed_total [OF n] by blast
  have n1: "skel s1 ?n \<noteq> None" using has_keeps [OF b(2) n] .
  have i1: "info_ok s1 info" using info_ok_grows [OF i keeps_grows [OF b(2)]] .
  have "\<exists>r s2. open_node static_ops order t (toConnFid c (top_Fid t)) info s1 = Some (r, s2) \<and> keeps s1 s2 \<and>
      (case r of Inl m \<Rightarrow> True | Inr i' \<Rightarrow> info_ok s2 i' \<and> fi_n i' = ?n)"
  proof (cases "node_kind ?n s1 = KModDir")
    case True
    obtain cs s2 where cs: "StaticDir_Children ?n s1 = Some (cs, s2)" "keeps s1 s2" "\<forall>n\<in>snd ` set cs. skel s1 n \<noteq> None"
      using Children_total [OF keeps_tree [OF b(2) assms(1)] True] by blast
    have "\<forall>n\<in>set (order cs). skel s2 n \<noteq> None"
      using order_ok_nodes [OF assms(3) cs(3)] keeps_skel [OF cs(2)] by simp
    then show ?thesis using True cs n1 has_keeps [OF cs(2) n1]
      by (auto simp: open_node_def Let_def info_ok_def)
  next
    case False
    then have k: "node_kind ?n s1 = KFile" by (simp add: node_kind_file)
    from Open_total [OF n1 k, of "toConnFid c (top_Fid t)" "top_Mode t"] show ?thesis
      using k i1 info_ok_grows [OF i1] keeps_grows by (fastforce simp: open_node_def Let_def)
  qed
  then obtain r s2 where r: "open_node static_ops order t (toConnFid c (top_Fid t)) info s1 = Some (r, s2)" "keeps s1 s2"
    "case r of Inl m \<Rightarrow> True | Inr i' \<Rightarrow> info_ok s2 i' \<and> fi_n i' = ?n" by blast
  note k2 = keeps_trans [OF b(2) r(2)]
  show ?thesis
  proof (cases r)
    case (Inl m)
    then show ?thesis using Some b r fine_keeps [OF assms(1,2) b(2)] fine_keeps [OF assms(1,2) k2]
      by (cases "fi_openMode info = ONone"; cases b) (auto simp: srv_Open_def Let_def fine_keeps assms)
  next
    case (Inr i')
    have i': "info_ok s2 i'" "fi_n i' = ?n" using r(3) Inr by auto
    obtain st s3 where st: "node_Stat ?n s2 = Some (st, s3)" "keeps s2 s3" using Stat_total [OF has_keeps [OF k2 n]] by blast
    note k3 = keeps_trans [OF k2 st(2)]
    obtain st' s4 where st': "node_Stat ?n s3 = Some (st', s4)" "keeps s3 s4" using Stat_total [OF has_keeps [OF k3 n]] by blast
    note k4 = keeps_trans [OF k3 st'(2)]
    have "info_ok s4 (i'\<lparr>fi_openMode := m, fi_openOffset := o'\<rparr>)" for m o'
      using info_ok_grows [OF i'(1) keeps_grows [OF keeps_trans [OF st(2) st'(2)]]] by (simp add: info_ok_def)
    then have "fine s (fids_Store f (i'\<lparr>fi_openMode := m, fi_openOffset := o'\<rparr>) c) s4" for f m o'
      by (intro fine_Store fine_keeps [OF assms(1,2) k4])
    then show ?thesis using Some b r Inr i'(2) st st' fine_keeps [OF assms(1,2) b(2)]
      by (cases "fi_openMode info = ONone"; cases b) (auto simp: srv_Open_def Let_def fine_keeps assms)
  qed
qed

lemma Clunk_fine:
  assumes "tree_ok s" "fids_ok c s"
  shows "\<exists>ret c' s'. srv_Clunk static_ops t c s = Some (ret, c', s') \<and> fine s c' s'"
proof (cases "c_fids c (tcl_Fid t)")
  case None
  then show ?thesis using assms by (auto simp: srv_Clunk_def Let_def fine_keeps fids_ok_Delete)
next
  case (Some info)
  have n: "skel s (fi_n info) \<noteq> None" using assms(2) Some by (auto simp: fids_ok_def info_ok_def)
  note d = fids_ok_Delete [OF assms(2), of "tcl_Fid t"]
  show ?thesis
  proof (cases "fi_openMode info \<noteq> ONone \<and> node_kind (fi_n info) s = KFile")
    case True
    obtain s1 where "node_Close (fi_n info) (toConnFid (fids_Delete (tcl_Fid t) c) (tcl_Fid t)) s = Some (None, s1)" "keeps s s1"
      using Close_total [OF n conjunct2 [OF True]] by blast
    then show ?thesis using Some True fine_keeps [OF assms(1) d] by (auto simp: srv_Clunk_def Let_def)
  next
    case False
    then show ?thesis using Some fine_keeps [OF assms(1) d keeps_refl] by (auto simp: srv_Clunk_def Let_def)
  qed
qed

lemma Remove_fine:
  assumes "tree_ok s" "fids_ok c s" "hooks_ok fs"
  shows "\<exists>ret c' s'. srv_Remove static_ops fs t c s = Some (ret, c', s') \<and> fine s c' s'"
proof (cases "c_fids c (trm_Fid t)")
  case None
  then show ?thesis using assms by (auto simp: srv_Remove_def Let_def fine_keeps fids_ok_Delete)
next
  case (Some info)
  let ?n = "fi_n info"
  have n: "skel s ?n \<noteq> None" using assms(2) Some by (auto simp: fids_ok_def info_ok_def)
  note d = fids_ok_Delete [OF assms(2), of "trm_Fid t"]
  obtain b s1 where b: "(if fs_ignorePerms fs then Some (True, s)
      else openPermission static_ops ?n (fi_uname info) Owrite s) = Some (b, s1)" "keeps s s1"
    using allowed_total [OF n] by blast
  note s1 = keeps_tree [OF b(2) assms(1)] has_keeps [OF b(2) n]
  have "\<exists>e s2. (case fs_RemoveFile fs of Some remove \<Rightarrow> remove ?n s1
      | None \<Rightarrow> Some (Some (ErrorString ''Cannot delete files.''), s1)) = Some (e, s2) \<and> tree_ok s2 \<and> grows s1 s2"
    using assms(3) s1 by (auto simp: hooks_ok_def remove_ok_def split: option.split)
  then obtain e s2 where e: "(case fs_RemoveFile fs of Some remove \<Rightarrow> remove ?n s1
      | None \<Rightarrow> Some (Some (ErrorString ''Cannot delete files.''), s1)) = Some (e, s2)" "tree_ok s2" "grows s1 s2" by blast
  have "fine s (fids_Delete (trm_Fid t) c) s2"
    using fine_grows [OF e(2) grows_trans [OF keeps_grows [OF b(2)] e(3)] d] .
  then show ?thesis using Some b e(1) fine_keeps [OF assms(1) d b(2)]
    by (cases b; cases e) (auto simp: srv_Remove_def Let_def)
qed

lemma Create_fine:
  assumes "tree_ok s" "fids_ok c s" "hooks_ok fs"
  shows "\<exists>ret c' s'. srv_Create static_ops fs t c s = Some (ret, c', s') \<and> fine s c' s'"
proof (cases "c_fids c (tcr_Fid t)")
  case None
  then show ?thesis using assms by (auto simp: srv_Create_def Let_def fine_keeps)
next
  case (Some info)
  let ?n = "fi_n info" and ?tag = "h_Tag (tcr_Header t)"
  have n: "skel s ?n \<noteq> None" using assms(2) Some by (auto simp: fids_ok_def info_ok_def)
  obtain b s1 where b: "(if fs_ignorePerms fs then Some (True, s)
      else openPermission static_ops ?n (fi_uname info) Owrite s) = Some (b, s1)" "keeps s s1"
    using allowed_total [OF n] by blast
  note s1 = keeps_tree [OF b(2) assms(1)] has_keeps [OF b(2) n]
  note f1 = fine_keeps [OF assms(1,2) b(2)]
  show ?thesis
  proof (cases "b \<and> node_kind ?n s1 = KModDir")
    case False
    obtain st s2 where "node_Stat ?n s1 = Some (st, s2)" "keeps s1 s2" using Stat_total [OF s1(2)] by blast
    then show ?thesis using Some b f1 False fine_keeps [OF assms(1,2) keeps_trans [OF b(2)]]
      by (cases b) (auto simp: srv_Create_def Let_def node_kind_skel split: option.splits)
  next
    case True
    let ?hook = "if tcr_Perm t AND DMDIR \<noteq> 0
                  then case fs_CreateDir fs of
                         Some create \<Rightarrow>
                           create ?n (fi_uname info) (tcr_Name t) (tcr_Perm t) (tcr_Mode t) s1
                       | None \<Rightarrow> Some (Inl (ErrorString ''Cannot create directories.''), s1)
                  else case fs_CreateFile fs of
                         Some create \<Rightarrow>
                           create ?n (fi_uname info) (tcr_Name t) (tcr_Perm t) (tcr_Mode t) s1
                       | None \<Rightarrow> Some (Inl (ErrorString ''Cannot create files.''), s1)"
    have "\<exists>r s2. ?hook = Some (r, s2) \<and> tree_ok s2 \<and> grows s1 s2 \<and>
        (case r of Inl e \<Rightarrow> True | Inr m \<Rightarrow> m \<noteq> None \<and> skel s2 (the m) \<noteq> None)"
      using assms(3) s1 True unfolding hooks_ok_def create_ok_def by (auto split: option.split)
    then obtain r s2 where r: "?hook = Some (r, s2)" "tree_ok s2" "grows s1 s2"
      "case r of Inl e \<Rightarrow> True | Inr m \<Rightarrow> m \<noteq> None \<and> skel s2 (the m) \<noteq> None" by blast
    have g: "grows s s2" using grows_trans [OF keeps_grows [OF b(2)] r(3)] .
    have step: "srv_Create static_ops fs t c s =
       (case r of
                  Inl e \<Rightarrow> reply (mk_RError ?tag (error_text e)) c s2
                | Inr None \<Rightarrow> None
                | Inr (Some new) \<Rightarrow> do {
                    let info = (deriveInfo info new)\<lparr>fi_openMode := tcr_Mode t, fi_openOffset := 0\<rparr>;
                    let c = fids_Store (tcr_Fid t) info c;
                    (e, s) \<leftarrow> (if isFile static_ops new s2
                                then op_Open static_ops new (toConnFid c (tcr_Fid t)) (tcr_Mode t) s2
                                else Some (None, s2));
                    (case e of
                       Some e \<Rightarrow> reply (mk_RError ?tag (error_text e)) c s
                     | None \<Rightarrow> do {
                         (st, s) \<leftarrow> op_Stat static_ops new s;
                         reply (F_RCreate \<lparr>rcr_Header = mk_Header Rcreate ?tag, rcr_Qid = st_Qid st,
                                           rcr_Iounit = IOUnit\<rparr>) c s
                       })
                  })"
      unfolding srv_Create_def Let_def Some option.case b(1) using True r(1) by simp
    show ?thesis
    proof (cases r)
      case (Inl e)
      then show ?thesis using step fine_grows [OF r(2) g assms(2)] by simp
    next
      case (Inr m)
      then obtain new where new: "m = Some new" "skel s2 new \<noteq> None" using r(4) by auto
      have "\<exists>s3. (if isFile static_ops new s2 then op_Open static_ops new x y s2 else Some (None, s2)) = Some (None, s3) \<and> keeps s2 s3" for x y
        using Open_total [OF new(2), of x y] by auto
      then obtain s3 where s3: "(if isFile static_ops new s2 then op_Open static_ops new (toConnFid
            (fids_Store (tcr_Fid t) ((deriveInfo info new)\<lparr>fi_openMode := tcr_Mode t, fi_openOffset := 0\<rparr>) c) (tcr_Fid t)) (tcr_Mode t) s2
          else Some (None, s2)) = Some (None, s3)" "keeps s2 s3" by blast
      obtain st s4 where st: "node_Stat new s3 = Some (st, s4)" "keeps s3 s4" using Stat_total [OF has_keeps [OF s3(2) new(2)]] by blast
      note k = keeps_trans [OF s3(2) st(2)]
      have "fine s (fids_Store (tcr_Fid t) ((deriveInfo info new)\<lparr>fi_openMode := tcr_Mode t, fi_openOffset := 0\<rparr>) c) s4"
        using fine_grows [OF keeps_tree [OF k r(2)] grows_trans [OF g keeps_grows [OF k]] assms(2)] has_keeps [OF k new(2)]
        by (intro fine_Store) (simp_all add: info_ok_def deriveInfo_def)
      then show ?thesis unfolding step Inr new(1) sum.case option.case Let_def s3(1) using st(1) by simp
    qed
  qed
qed

section \<open>Versions, attaching, stats and their changes\<close>

lemma Version_fine:
  assumes "tree_ok s" "fids_ok c s"
  shows "\<exists>ret c' s'. srv_Version t c s = Some (ret, c', s') \<and> fine s c' s'"
  using assms fids_ok_fids [of "c\<lparr>c_msize := m\<rparr>" c s for m]
  by (auto simp: srv_Version_def Let_def intro!: fine_keeps)

lemma Auth_fine:
  assumes "tree_ok s" "fids_ok c s" "hooks_ok fs"
  shows "\<exists>ret c' s'. srv_Auth static_ops fs t c s = Some (ret, c', s') \<and> fine s c' s'"
  using assms by (auto simp: srv_Auth_def hooks_ok_def Let_def fine_keeps)

lemma Attach_fine:
  assumes "tree_ok s" "fids_ok c s" "hooks_ok fs" "skel s (fs_Root fs) \<noteq> None"
  shows "\<exists>ret c' s'. srv_Attach static_ops fs t c s = Some (ret, c', s') \<and> fine s c' s'"
proof -
  obtain st s1 where st: "node_Stat (fs_Root fs) s = Some (st, s1)" "keeps s s1" using Stat_total [OF assms(4)] by blast
  have "fine s (fids_Store f (newFidInfo u (fs_Root fs)) c) s1" for f u
    using has_keeps [OF st(2) assms(4)] by (intro fine_Store fine_keeps [OF assms(1,2) st(2)] info_ok_new)
  with st assms(3) show ?thesis by (auto simp: srv_Attach_def hooks_ok_def Let_def)
qed

lemma Stat_fine:
  assumes "tree_ok s" "fids_ok c s"
  shows "\<exists>ret c' s'. srv_Stat static_ops t c s = Some (ret, c', s') \<and> fine s c' s'"
proof (cases "c_fids c (tst_Fid t)")
  case (Some info)
  then have "skel s (fi_n info) \<noteq> None" using assms(2) by (auto simp: fids_ok_def info_ok_def)
  from Stat_total [OF this] Some show ?thesis using fine_keeps [OF assms] by (fastforce simp: srv_Stat_def)
qed (use assms in \<open>auto simp: srv_Stat_def fine_keeps\<close>)

lemma Wstat_fine:
  assumes "tree_ok s" "fids_ok c s"
  shows "\<exists>ret c' s'. srv_Wstat static_ops fs t c s = Some (ret, c', s') \<and> fine s c' s'"
proof (cases "c_fids c (tws_Fid t)")
  case (Some info)
  then have n: "skel s (fi_n info) \<noteq> None" using assms(2) by (auto simp: fids_ok_def info_ok_def)
  obtain v s1 where st: "node_Stat (fi_n info) s = Some (obs_stat v, s1)" "keeps s s1" "sto_nodes s (fi_n info) = Some v"
    using Stat_total [OF n] by blast
  have v1: "sto_nodes s1 (fi_n info) = Some (norm_node v)" using st by (auto simp: node_Stat_eq)
  have "q_Uid (st_Qid (wstat_apply (obs_stat v) new)) = q_Uid (st_Qid (obs_stat (norm_node v)))" for new
    by (simp add: wstat_apply_keeps)
  from WriteStat_total [OF v1 this, of "tws_Stat t"] obtain s2 where
    s2: "node_WriteStat (fi_n info) (wstat_apply (obs_stat v) (tws_Stat t)) s1 = Some (None, s2)" "keeps s1 s2" by blast
  have op: "op_Stat static_ops (fi_n info) s = Some (obs_stat v, s1)" using st(1) by simp
  show ?thesis
    unfolding static.srv_Wstat_eq [OF tree_okD(1) [OF assms(1)] Some op]
    using s2 fine_keeps [OF assms st(2)] fine_keeps [OF assms keeps_trans [OF st(2) s2(2)]] by auto
qed (use assms in \<open>auto simp: srv_Wstat_def fine_keeps\<close>)

section \<open>Reading and writing\<close>

lemma view_keeps:
  assumes "static_view s' = static_view s" "static_valid s'"
  shows "keeps s s'"
proof -
  have "sto_next s' = sto_next s" "sto_uid s' = sto_uid s"
    using arg_cong [OF assms(1), of sto_next] arg_cong [OF assms(1), of sto_uid] by (simp_all add: static_view_def)
  moreover have "skel s' = skel s"
  proof
    fix r
    have n: "map_option node_skel x = map_option node_skel (map_option norm_node x)" for x
      by (cases x) simp_all
    show "skel s' r = skel s r"
      unfolding skel_def n [of "sto_nodes s' r"] n [of "sto_nodes s r"] static_view_nodes [OF assms(1)] ..
  qed
  ultimately show ?thesis using assms(2) by (simp add: keeps_def)
qed

lemma Read_keeps:
  assumes "tree_ok s" "fids_ok c s" "srv_Read static_ops t c s = Some (ret, c', s')"
  shows "fine s c' s'"
proof -
  have "keeps s s'" using static.srv_Read_view [OF tree_okD(1) [OF assms(1)] assms(3)] view_keeps by blast
  moreover have "c' = c"
    using assms(3) by (auto simp: srv_Read_def Let_def split: option.splits if_splits bind_splits sum.splits)
  ultimately show ?thesis using fine_keeps [OF assms(1,2)] by simp
qed

lemma srv_Write_cases:
  assumes "srv_Write ops t c s = Some (ret, c', s')"
  shows "c' = c \<and> (s' = s \<or> (\<exists>n st. op_Stat ops n s = Some (st, s')) \<or>
    (\<exists>n st s1 fid off x. op_Stat ops n s = Some (st, s1) \<and> op_Write ops n fid off (twr_Data t) s1 = Some (x, s')))"
  using assms
  by (auto simp: srv_Write_def Let_def split: option.splits if_splits bind_splits sum.splits) blast+

lemma Stat_keeps: "node_Stat n s = Some (st, s') \<Longrightarrow> keeps s s'"
  using Stat_total [of s n] by (force simp: node_Stat_eq skel_None)

lemma Write_fine:
  assumes "tree_ok s" "fids_ok c s" "srv_Write static_ops t c s = Some (ret, c', s')" "length (twr_Data t) < 2 ^ 32"
  shows "fine s c' s'"
proof -
  have w: "keeps s1 s2" if "node_Write r fid off (twr_Data t) s1 = Some (x, s2)" for r fid off s1 s2 x
  proof -
    have "skel s2 = skel s1 \<and> sto_next s2 = sto_next s1 \<and> sto_uid s2 = sto_uid s1"
      using that by (auto simp: node_Write_def skel_def fun_eq_iff StaticFile_Write_def Let_def
          split: option.splits node.splits bind_splits if_splits)
    then show ?thesis using node_Write_valid [OF _ that assms(4)] by (auto simp: keeps_def)
  qed
  note cases = srv_Write_cases [OF assms(3), unfolded static_ops_sel]
  have "keeps s s'" using conjunct2 [OF cases] by (meson Stat_keeps w keeps_trans keeps_refl)
  then show ?thesis using fine_keeps [OF assms(1,2)] cases by simp
qed

section \<open>Requests that can crash the server\<close>

text \<open>
  A read of a directory panics if the fid was opened by the request that created the directory (it
  has no listing), or if an entry is too long for its encoding; a write panics if the file would
  outgrow what the runtime can allocate.
\<close>

definition long_entry :: "store \<Rightarrow> ref \<Rightarrow> bool" where
  "long_entry s n \<longleftrightarrow> (case sto_nodes s n of None \<Rightarrow> True | Some v \<Rightarrow> \<not> stat_ok (obs_stat v))"

definition crash_risk :: "fcall \<Rightarrow> ref conn \<Rightarrow> store \<Rightarrow> bool" where
  "crash_risk call c s =
     (case call of
        F_TRead t \<Rightarrow>
          (case c_fids c (trd_Fid t) of
             None \<Rightarrow> False
           | Some i \<Rightarrow> node_kind (fi_n i) s = KModDir \<and>
               (case fi_extra i of ExNodes ns \<Rightarrow> \<exists>n\<in>set ns. long_entry s n | _ \<Rightarrow> True))
      | F_TWrite t \<Rightarrow>
          (case c_fids c (twr_Fid t) of
             None \<Rightarrow> False
           | Some i \<Rightarrow> (case sto_nodes s (fi_n i) of
               Some (NFile f) \<Rightarrow> \<not> write_fits (sto_mem s) (twr_Offset t) (twr_Data t) (sf_Data f)
             | _ \<Rightarrow> False))
      | _ \<Rightarrow> False)"

lemma long_entry_view:
  assumes "static_view s' = static_view s"
  shows "long_entry s' n = long_entry s n"
  using static_view_obs [OF assms, of n]
  by (cases "sto_nodes s' n"; cases "sto_nodes s n") (simp_all add: long_entry_def)

lemma readDir_start_total:
  assumes "\<forall>n\<in>set ns. \<not> long_entry s n"
  shows "\<exists>r s'. readDir_start static_ops len off ns s = Some (r, s') \<and> static_view s' = static_view s \<and>
    (\<forall>rest. r = Some rest \<longrightarrow> set rest \<subseteq> set ns)"
  using assms
proof (induction ns arbitrary: len s)
  case (Cons n ns)
  obtain st s1 where st: "node_Stat n s = Some (st, s1)"
    using Cons.prems by (auto simp: long_entry_def node_Stat_eq split: option.splits)
  have v: "static_view s1 = static_view s" using node_Stat_view [OF st] .
  have "\<forall>n\<in>set ns. \<not> long_entry s1 n" using Cons.prems long_entry_view [OF v] by simp
  from Cons.IH [OF this, of "len + ucast (Stat_ComposeLength st)"] st v show ?case by (auto simp: Let_def)
qed auto

lemma readDir_fill_total:
  assumes "\<forall>n\<in>set ns. \<not> long_entry s n"
  shows "\<exists>bs s'. readDir_fill static_ops cnt acc ns s = Some (bs, s')"
  using assms
proof (induction ns arbitrary: acc s)
  case (Cons n ns)
  obtain st s1 where st: "node_Stat n s = Some (st, s1)" "stat_ok st"
    using Cons.prems by (auto simp: long_entry_def node_Stat_eq split: option.splits)
  have "\<forall>n\<in>set ns. \<not> long_entry s1 n" using Cons.prems long_entry_view [OF node_Stat_view [OF st(1)]] by simp
  from Cons.IH [OF this] st show ?case by (simp add: Let_def Stat_Compose_iff)
qed auto

lemma node_Read_total:
  assumes "static_valid s" "skel s n \<noteq> None" "node_kind n s = KFile" "unat cnt \<le> 2 ^ 63"
  shows "\<exists>d. node_Read n fid off cnt s = Some (Inr d, s)"
proof -
  obtain v where v: "sto_nodes s n = Some v" using assms(2) by (auto simp: skel_None)
  have ok: "node_ok (sto_mem s) v" "sto_mem s < 2 ^ 63" using assms(1) v
    by (auto dest: static_valid_node static_mem)
  have rr: "\<exists>d. read_range off cnt xs = Some d" if "length xs \<le> sto_mem s" for xs
    using read_range_eq [OF _ assms(4), of xs off] that ok(2) by auto
  show ?thesis
  proof (cases v)
    case (NFile f)
    then show ?thesis using v ok rr [of "sf_Data f"] by (auto simp: node_Read_def StaticFile_Read_def)
  next
    case (NDyn f)
    have "length (case df_fidContent f fid of Some d \<Rightarrow> d | None \<Rightarrow> []) \<le> sto_mem s"
      using ok NDyn by (auto split: option.split)
    from rr [OF this] show ?thesis using v NDyn by (auto simp: node_Read_def DynamicFile_Read_def)
  qed (use v assms(3) in \<open>auto simp: node_Read_def node_kind_def\<close>)
qed

lemma Read_returns:
  assumes "tree_ok s" "fids_ok c s" "\<not> crash_risk (F_TRead t) c s"
  shows "\<exists>ret c' s'. srv_Read static_ops t c s = Some (ret, c', s')"
proof (cases "c_fids c (trd_Fid t)")
  case (Some i)
  let ?n = "fi_n i" and ?t = "if trd_Count t > c_msize c - 11 then t\<lparr>trd_Count := c_msize c - 11\<rparr> else t"
  have n: "skel s ?n \<noteq> None" using assms(2) Some by (auto simp: fids_ok_def info_ok_def)
  show ?thesis
  proof (cases "node_kind ?n s = KModDir")
    case True
    then obtain ns where ns: "fi_extra i = ExNodes ns" "\<forall>n\<in>set ns. \<not> long_entry s n"
      using assms(3) Some by (auto simp: crash_risk_def split: extra.splits)
    obtain r s1 where r: "readDir_start static_ops 0 (trd_Offset ?t) ns s = Some (r, s1)" "static_view s1 = static_view s"
      "\<forall>rest. r = Some rest \<longrightarrow> set rest \<subseteq> set ns"
      using readDir_start_total [OF ns(2)] by blast
    have "\<exists>bs s2. readDir_fill static_ops (trd_Count ?t) [] rest s1 = Some (bs, s2)" if "r = Some rest" for rest
      using r(3) that ns(2) long_entry_view [OF r(2)] by (intro readDir_fill_total) auto
    then have "\<exists>m s2. readDir static_ops ?t i s = Some (m, s2)"
      using ns(1) r(1) by (cases r) (auto simp: readDir_def)
    then show ?thesis using Some True by (auto simp: srv_Read_def Let_def)
  next
    case False
    then have k: "node_kind ?n s = KFile" by (simp add: node_kind_file)
    have cnt: "unat (ucast (trd_Count ?t) :: u64) \<le> 2 ^ 63"
      using unsigned_less [of "trd_Count ?t", where ?'a = nat] unfolding unat_u32_u64 by simp
    obtain d where "node_Read ?n (toConnFid c (trd_Fid ?t)) (trd_Offset ?t) (ucast (trd_Count ?t)) s = Some (Inr d, s)"
      using node_Read_total [OF tree_okD(1) [OF assms(1)] n k cnt] by blast
    then show ?thesis using Some k by (auto simp: srv_Read_def Let_def)
  qed
qed (auto simp: srv_Read_def)

lemma Write_returns:
  assumes "tree_ok s" "fids_ok c s" "\<not> crash_risk (F_TWrite t) c s" "length (twr_Data t) < 2 ^ 32"
  shows "\<exists>ret c' s'. srv_Write static_ops t c s = Some (ret, c', s')"
proof (cases "c_fids c (twr_Fid t)")
  case (Some i)
  let ?n = "fi_n i"
  have n: "skel s ?n \<noteq> None" using assms(2) Some by (auto simp: fids_ok_def info_ok_def)
  obtain v s1 where st: "node_Stat ?n s = Some (obs_stat v, s1)" "keeps s s1" "sto_nodes s ?n = Some v"
    using Stat_total [OF n] by blast
  have v1: "sto_nodes s1 ?n = Some (norm_node v)" "sto_mem s1 = sto_mem s" using st by (auto simp: node_Stat_eq)
  have ok: "node_ok (sto_mem s) v" "sto_mem s < 2 ^ 63" using tree_okD(1) [OF assms(1)] st(3)
    by (auto dest: static_valid_node static_mem)
  have "\<exists>x s2. node_Write ?n fid (twr_Offset t) (twr_Data t) s1 = Some (x, s2)" if "node_kind ?n s1 = KFile" for fid
    using v1 that ok assms(3,4) Some st(3)
    by (cases v) (auto simp: node_Write_def node_kind_def crash_risk_def StaticFile_Stat_def StaticFile_Write_eq)
  then obtain x s2 where "node_kind ?n s1 = KFile \<Longrightarrow>
      node_Write ?n (toConnFid c (twr_Fid t)) (twr_Offset t) (twr_Data t) s1 = Some (x, s2)" by blast
  then show ?thesis using Some st(1) by (auto simp: srv_Write_def Let_def split: sum.splits)
qed (auto simp: srv_Write_def)

end
