(* ===== verification/Server_World.thy ===== *)
theory Server_World
  imports Static_Server
begin

text \<open>
  A whole server: the tree of static files shared by any number of connections. The connections
  open one after the other, as \<^verbatim>\<open>NewConn\<close> of fs/server.go numbers them, and their requests
  arrive in any order. The theory shows by induction over such runs that the tree stays well formed,
  that fids refer to existing nodes, and that the connections' numbers are distinct.
\<close>

section \<open>Messages the parser accepts\<close>

text \<open>What the handlers rely on of a parsed message.\<close>

definition parsed_ok :: "fcall \<Rightarrow> bool" where
  "parsed_ok call =
     (case call of
        F_TWalk t \<Rightarrow> length (twk_Wname t) = unat (twk_Nwname t)
      | F_TWrite t \<Rightarrow> length (twr_Data t) < 2 ^ 32
      | _ \<Rightarrow> True)"

lemma length_get_each: "length (fst (get_each get n b)) = n"
  by (induction n arbitrary: b) (simp_all add: Let_def split: prod.splits, metis fst_conv)

lemma parse_TWalk_ok:
  assumes "TWalk_parse w b = Ok (t, b')"
  shows "length (twk_Wname t) = unat (twk_Nwname t)"
  using assms length_get_each [of fromString] by (auto simp: TWalk_parse_def split: prod.splits) (metis fst_conv)

lemma parse_TWrite_ok:
  assumes "TWrite_parse w b = Ok (t, b')"
  shows "length (twr_Data t) < 2 ^ 32"
proof -
  have "length (twr_Data t) \<le> unat (twr_Count t)"
    using assms by (auto simp: TWrite_parse_def split: prod.splits if_splits)
  then show ?thesis using unsigned_less [of "twr_Count t", where ?'a = nat] by simp
qed

lemma as_fcall_ok: "as_fcall F x = Ok m \<longleftrightarrow> (\<exists>t b. x = Ok (t, b) \<and> m = F t)"
  by (cases "(F, x)" rule: as_fcall.cases) auto

lemma parse_message_ok: "parse_message h b = Ok m \<Longrightarrow> parsed_ok m"
  unfolding parse_message_def
  by (auto simp: as_fcall_ok parsed_ok_def parse_TWalk_ok dest: parse_TWrite_ok split: if_splits)

lemma ParseCall_ok: "ParseCall rd r = Some (Ok m, r') \<Longrightarrow> parsed_ok m"
  by (auto simp: ParseCall_def Let_def split: option.splits sum.splits prod.splits if_splits res.splits
      dest: parse_message_ok)

section \<open>Handling one request\<close>

text \<open>The handlers, all at once: those that always return, and those that may crash.\<close>

lemma handlers_fine:
  assumes "tree_ok s" "fids_ok c s" "hooks_ok fs" "skel s (fs_Root fs) \<noteq> None" "order_ok order"
    "dispatch (fs_Srv static_ops fs order) call = Some h" "parsed_ok call"
  obtains ret c' s' where "h (c, s) = Some (ret, (c', s'))" "fine s c' s'"
  | t where "call = F_TRead t" "h (c, s) = srv_Read static_ops t c s"
  | t where "call = F_TWrite t" "h (c, s) = srv_Write static_ops t c s"
proof -
  have wf: "fs_WalkFail fs = None" using assms(3) by (simp add: hooks_ok_def)
  note all = Version_fine [OF assms(1,2)] Auth_fine [OF assms(1-3)] Attach_fine [OF assms(1-4)]
    Walk_fine [OF assms(1,2) wf] Open_fine [OF assms(1,2,5)] Create_fine [OF assms(1-3)]
    Clunk_fine [OF assms(1,2)] Remove_fine [OF assms(1-3)] Stat_fine [OF assms(1,2)] Wstat_fine [OF assms(1,2)]
  have "(\<exists>ret c' s'. h (c, s) = Some (ret, (c', s')) \<and> fine s c' s') \<or>
      (\<exists>t. call = F_TRead t \<and> h (c, s) = srv_Read static_ops t c s) \<or>
      (\<exists>t. call = F_TWrite t \<and> h (c, s) = srv_Write static_ops t c s)"
    using assms(6,7) fine_keeps [OF assms(1,2) keeps_refl]
    by (cases call) (auto simp: dispatch_def fs_Srv_def parsed_ok_def all)
  then show thesis using that by blast
qed

lemma dispatch_fine:
  assumes "tree_ok s" "fids_ok c s" "hooks_ok fs" "skel s (fs_Root fs) \<noteq> None" "order_ok order"
    "dispatch (fs_Srv static_ops fs order) call = Some h" "parsed_ok call"
    "h (c, s) = Some (ret, (c', s'))"
  shows "fine s c' s'"
  using assms(1-7)
proof (cases rule: handlers_fine)
  case (2 t)
  then show ?thesis using Read_keeps [OF assms(1,2), of t] assms(8) by metis
next
  case (3 t)
  then show ?thesis using Write_fine [OF assms(1,2), of t ret c' s'] assms(7,8) by (simp add: parsed_ok_def)
qed (use assms(8) in auto)

lemma dispatch_returns:
  assumes "tree_ok s" "fids_ok c s" "hooks_ok fs" "skel s (fs_Root fs) \<noteq> None" "order_ok order"
    "dispatch (fs_Srv static_ops fs order) call = Some h" "parsed_ok call" "\<not> crash_risk call c s"
  shows "\<exists>ret c' s'. h (c, s) = Some (ret, (c', s'))"
  using assms(1-7)
proof (cases rule: handlers_fine)
  case (2 t)
  then show ?thesis using Read_returns [OF assms(1,2)] assms(8) by simp
next
  case (3 t)
  then show ?thesis using Write_returns [OF assms(1,2)] assms(7,8) by (simp add: parsed_ok_def)
qed auto

section \<open>Runs of a server\<close>

record world =
  w_server :: server
  w_conns :: "ref conn list"
  w_store :: store

inductive world_step ::
    "(store, ref) FS \<Rightarrow> ((string \<times> ref) list \<Rightarrow> ref list) \<Rightarrow> world \<Rightarrow> world \<Rightarrow> bool"
  for fs order where
  connect: "NewConn (w_server w) = (c, sv) \<Longrightarrow>
    world_step fs order w (w\<lparr>w_server := sv, w_conns := w_conns w @ [c]\<rparr>)"
| request: "i < length (w_conns w) \<Longrightarrow> parsed_ok call \<Longrightarrow>
    handleCall (fs_Srv static_ops fs order) call (w_conns w ! i, w_store w) = Some (res, (c', s')) \<Longrightarrow>
    world_step fs order w (w\<lparr>w_conns := (w_conns w)[i := c'], w_store := s'\<rparr>)"

definition world_init :: "store \<Rightarrow> world" where
  "world_init s = \<lparr>w_server = \<lparr>sv_currConnId = 0\<rparr>, w_conns = [], w_store = s\<rparr>"

text \<open>Connection \<open>i\<close> has the number \<open>i + 1\<close>, modulo the width of the counter.\<close>

definition world_ok :: "(store, ref) FS \<Rightarrow> world \<Rightarrow> bool" where
  "world_ok fs w \<longleftrightarrow> tree_ok (w_store w) \<and> skel (w_store w) (fs_Root fs) \<noteq> None \<and>
     (\<forall>c\<in>set (w_conns w). fids_ok c (w_store w) \<and> conn_ok c) \<and>
     map c_connID (w_conns w) = map (\<lambda>i. of_nat (Suc i)) [0..<length (w_conns w)] \<and>
     sv_currConnId (w_server w) = of_nat (length (w_conns w))"

lemma handleCall_fine:
  assumes "tree_ok s" "fids_ok c s" "hooks_ok fs" "skel s (fs_Root fs) \<noteq> None" "order_ok order"
    "parsed_ok call" "conn_ok c"
    "handleCall (fs_Srv static_ops fs order) call (c, s) = Some (res, (c', s'))"
  shows "fine s c' s' \<and> c_connID c' = c_connID c \<and> conn_ok c'"
proof -
  let ?c = "snd (TagContext (GetTag call) c)"
  have t: "c_fids ?c = c_fids c" "c_connID ?c = c_connID c" by simp_all
  have id: "c_connID (DropContext tag x) = c_connID x" for tag and x :: "ref conn" by simp
  have ok: "conn_ok ?c" using conn_ok_TagContext [OF assms(7)] .
  note ctx = fs_TagContext [of static_ops fs order "GetTag call" c s]
  show ?thesis
  proof (cases "dispatch (fs_Srv static_ops fs order) call")
    case None
    then have "c' = ?c" "s' = s" using assms(8) by (auto simp: handleCall_def ctx)
    then show ?thesis using fine_keeps [OF assms(1), of ?c s] assms(2) fids_ok_fids [OF t(1)] ok by simp
  next
    case (Some h)
    obtain ret c2 where h: "h (?c, s) = Some (ret, (c2, s'))" "c' = c2 \<or> c' = DropContext (GetTag call) c2"
      using assms(8) Some
      by (auto simp: handleCall_def ctx finish_call_def fs_DropContext split: option.splits if_splits)
    have fine: "fine s c2 s'"
      using dispatch_fine [OF assms(1) _ assms(3-5) Some assms(6) h(1)] fids_ok_fids [OF t(1)] assms(2) by simp
    have core: "conn_core c2 = conn_core ?c"
      using dispatch_answers [OF Some, of ?c s] h(1) by (cases ret) auto
    have "conn_ok c2" using ok conn_ok_core [OF core] by simp
    moreover have "c_connID c2 = c_connID c" using core t(2) by (simp add: conn_core_def)
    moreover have "fids_ok (DropContext (GetTag call) c2) s' = fids_ok c2 s'" by (rule fids_ok_fids) simp
    ultimately show ?thesis using fine h(2) conn_ok_DropContext [of c2] id by (auto simp: fine_def)
  qed
qed

lemma world_step_ok:
  assumes "hooks_ok fs" "order_ok order" "world_step fs order w w'" "world_ok fs w"
  shows "world_ok fs w'"
  using assms(3)
proof cases
  case (connect c sv)
  then have "c_fids c = Map.empty" "c_connID c = of_nat (Suc (length (w_conns w)))" "conn_ok c"
    "sv_currConnId sv = of_nat (Suc (length (w_conns w)))"
    using assms(4) NewConn_ok [of "w_server w"]
    by (auto simp: NewConn_def Let_def world_ok_def add.commute)
  then show ?thesis using assms(4) connect(1) by (auto simp: world_ok_def fids_ok_def)
next
  case (request i call res c' s')
  let ?c = "w_conns w ! i"
  have c: "fids_ok ?c (w_store w)" "conn_ok ?c" using assms(4) request(2) by (auto simp: world_ok_def)
  have s: "tree_ok (w_store w)" "skel (w_store w) (fs_Root fs) \<noteq> None" using assms(4) by (auto simp: world_ok_def)
  have post: "fine (w_store w) c' s'" "c_connID c' = c_connID ?c" "conn_ok c'"
    using handleCall_fine [OF s(1) c(1) assms(1) s(2) assms(2) request(3) c(2) request(4)] by auto
  have "map c_connID ((w_conns w)[i := c']) = map c_connID (w_conns w)"
    using request(2) post(2) by (simp add: map_update list_update_same_conv)
  moreover have "fids_ok d s' \<and> conn_ok d" if "d \<in> set ((w_conns w)[i := c'])" for d
  proof -
    have "d \<in> insert c' (set (w_conns w))" using that set_update_subset_insert by fast
    then show ?thesis using post fids_ok_grows assms(4) by (auto simp: world_ok_def fine_def)
  qed
  ultimately show ?thesis
    using assms(4) post growsD(1) [of "w_store w" s'] request(1) by (auto simp: world_ok_def fine_def)
qed

lemma world_run_ok:
  assumes "hooks_ok fs" "order_ok order" "(world_step fs order)\<^sup>*\<^sup>* w w'" "world_ok fs w"
  shows "world_ok fs w'"
  using assms(3,4) by induction (auto intro: world_step_ok [OF assms(1,2)])

lemma world_init_ok:
  "tree_ok s \<Longrightarrow> skel s (fs_Root fs) \<noteq> None \<Longrightarrow> world_ok fs (world_init s)"
  by (simp add: world_ok_def world_init_def)

text \<open>The tree \<^verbatim>\<open>NewFS\<close> builds, with any options, in an empty store.\<close>

lemma NewFS_tree:
  assumes "NewFS user grp perm opts (empty_store clock mem) = (fs, d, s)" "mem < 2 ^ 63"
  shows "tree_ok s" "skel s d \<noteq> None" "d = 0"
  using assms
  by (auto simp: NewFS_def NewStat_def NewQid_def time_Now_def new_node_def NewStaticDir_def empty_store_def
      Let_def tree_ok_def static_valid_def links_ok_def qids_ok_def skel_def split: if_splits)

end
