(* ===== verification/Fs_Claims.thy ===== *)
theory Fs_Claims
  imports Server_World Examples
begin

text \<open>
  The properties of the file server: its permission checks, the effect of its handlers on fids and
  files, the invariants of the tree it serves, and the requests that can crash it.
\<close>

section \<open>The example server, attached\<close>

lemma ex_hooks: "hooks_ok ex_fs"
  by (simp add: hooks_ok_def ex_fs_eq CreateStaticFile_ok CreateStaticDir_ok RMFile_ok)

lemma ex_order_ok: "order_ok ex_order"
  by (simp add: order_ok_def ex_order_def)

lemma ex_tree: "tree_ok ex_store" "skel ex_store (fs_Root ex_fs) \<noteq> None" "fs_Root ex_fs = 0"
  by (auto simp: ex_fs_eq ex_store_eq skel_def tree_ok_def static_valid_def links_ok_def qids_ok_def
      root_stat_def split: if_splits)

text \<open>The connection once the user has attached fid 0 to the root.\<close>

definition ex_attached :: "string \<Rightarrow> ref conn" where
  "ex_attached user = fids_Store 0 (newFidInfo user 0) (ex_conn\<lparr>c_msize := 8192\<rparr>)"

lemma ex_attached_fid: "c_fids (ex_attached user) 0 = Some (newFidInfo user 0)"
  by (simp add: ex_attached_def)

lemma ex_root_stat: "node_Stat 0 ex_store = Some (root_stat, ex_store)"
  by (simp add: ex_store_eq node_Stat_def)

section \<open>Permissions\<close>

text \<open>
  The permission check is the Unix check: for the stat of the node, \<^verbatim>\<open>openPermission\<close>
  looks at the read, write and execute bits of the triple that the user's relation to the file
  selects.
\<close>

theorem openPermission_is_unix:
  assumes "static_valid s" "node_Stat n s = Some (st, s')"
  shows "openPermission static_ops n user omode s = Some (permits st user omode, s')"
  using static.openPermission_stat [OF assms(1), of n st s' user omode] assms(2) by simp

theorem openPermission_is_unix_witness:
  "openPermission static_ops 0 ''rob'' Owrite ex_store = Some (permits root_stat ''rob'' Owrite, ex_store) \<and>
   permits root_stat ''glenda'' Owrite \<and> \<not> permits root_stat ''rob'' Owrite"
  using openPermission_is_unix [OF ex_store_valid ex_root_stat, of "''rob''" Owrite]
  by (simp add: permits_omodePermits omodePermits_def class_shift_def root_stat_def)

text \<open>
  C12: An open succeeds only on a fid that is not open, for a user the mode bits of the file permit
  it (unless permissions are ignored), and it changes that fid only.
\<close>

theorem Open_permitted:
  assumes "static_valid s" "srv_Open static_ops fs order t c s = Some (Inr (F_ROpen r), c', s')"
  shows "\<exists>info i'. c_fids c (top_Fid t) = Some info \<and> fi_openMode info = ONone \<and>
    (fs_ignorePerms fs \<or>
      (\<exists>st. stat_at static_ops (fi_n info) s = Some st \<and> permits st (fi_uname info) (top_Mode t AND 0x0F))) \<and>
    c_fids c' = (c_fids c)(top_Fid t \<mapsto> i') \<and> fi_openMode i' = top_Mode t \<and> fi_n i' = fi_n info \<and>
    fi_uname i' = fi_uname info"
  using static.srv_Open_permitted [OF assms] by metis

definition ex_open :: TOpen where
  "ex_open = \<lparr>top_Header = \<lparr>h_Type = Topen, h_Tag = 2\<rparr>, top_Fid = 0, top_Mode = Oread\<rparr>"

lemma ex_open_root:
  "\<exists>r c'. srv_Open static_ops ex_fs ex_order ex_open (ex_attached ''glenda'') ex_store = Some (Inr (F_ROpen r), c', ex_store)"
proof -
  have "openPermission static_ops 0 ''glenda'' Oread ex_store = Some (True, ex_store)"
    using static.openPermission_stat [OF ex_store_valid, of 0 root_stat ex_store "''glenda''" Oread] ex_root_stat
    by (simp add: permits_omodePermits omodePermits_def class_shift_def root_stat_def)
  moreover have "StaticDir_Children 0 ex_store = Some ([], ex_store)" "node_kind 0 ex_store = KModDir"
    by (simp_all add: ex_store_eq StaticDir_Children_def node_kind_def)
  ultimately show ?thesis
    using ex_root_stat
    by (simp add: srv_Open_def ex_open_def ex_attached_fid newFidInfo_def ex_fs_eq open_node_def Let_def)
qed

theorem Open_permitted_witness:
  "\<exists>r c'. srv_Open static_ops ex_fs ex_order ex_open (ex_attached ''glenda'') ex_store = Some (Inr (F_ROpen r), c', ex_store) \<and>
     (\<exists>i'. c_fids c' = (c_fids (ex_attached ''glenda''))(0 \<mapsto> i') \<and> fi_openMode i' = Oread)"
proof -
  obtain r c' where o: "srv_Open static_ops ex_fs ex_order ex_open (ex_attached ''glenda'') ex_store = Some (Inr (F_ROpen r), c', ex_store)"
    using ex_open_root by blast
  from Open_permitted [OF ex_store_valid o] o show ?thesis by (auto simp: ex_open_def)
qed

text \<open>
  C32: No request but an open, a create or an authentication opens a fid: after any other request,
  and for all other fids, a fid that is open had the same mode before.
\<close>

theorem only_open_requests_open:
  assumes "dispatch (fs_Srv ops fs order) call = Some h" "h (c, s) = Some (ret, (c', s'))"
    "c_fids c' f = Some i'" "fi_openMode i' \<noteq> ONone" "f \<notin> opened_fids call"
  shows "\<exists>i. c_fids c f = Some i \<and> fi_openMode i = fi_openMode i'"
  using conn_postD [OF dispatch_opens [OF assms(1), of c s] assms(2)] assms(3-5)
  by (auto simp: opens_only_def)

text \<open>A connection with an open fid.\<close>

definition ex_opened :: "ref extra \<Rightarrow> ref conn" where
  "ex_opened ex = fids_Store 1 ((newFidInfo ''glenda'' 0)\<lparr>fi_openMode := Oread, fi_extra := ex\<rparr>) (ex_attached ''glenda'')"

lemma ex_opened_fid:
  "c_fids (ex_opened ex) 1 = Some ((newFidInfo ''glenda'' 0)\<lparr>fi_openMode := Oread, fi_extra := ex\<rparr>)"
  by (simp add: ex_opened_def)

definition ex_flush_call :: fcall where
  "ex_flush_call = F_TFlush \<lparr>tfl_Header = \<lparr>h_Type = Tflush, h_Tag = 5\<rparr>, tfl_Oldtag = 4\<rparr>"

theorem only_open_requests_open_witness:
  "\<exists>h r. dispatch ex_srv ex_flush_call = Some h \<and>
     h (ex_opened ExNil, ex_store) = Some (r, (ex_opened ExNil, ex_store)) \<and>
     (\<exists>i. c_fids (ex_opened ExNil) 1 = Some i \<and> fi_openMode i = Oread)"
proof -
  obtain h r where h: "dispatch ex_srv ex_flush_call = Some h"
    "h (ex_opened ExNil, ex_store) = Some (r, (ex_opened ExNil, ex_store))"
    by (simp add: dispatch_def ex_flush_call_def)
  from only_open_requests_open [OF h(1) [unfolded ex_srv_def] h(2) ex_opened_fid] h show ?thesis
    by (simp add: ex_flush_call_def newFidInfo_def)
qed

text \<open>
  C30: A refused change of a stat changes nothing: neither the connection nor anything a client can
  observe of the files.
\<close>

theorem Wstat_refused_changes_nothing:
  assumes "static_valid s" "srv_Wstat static_ops fs t c s = Some (Inr (F_RError e), c', s')"
  shows "c' = c \<and> static_view s' = static_view s"
  by (rule static.srv_Wstat_refused [OF assms])

definition ex_wstat :: "Stat \<Rightarrow> TWstat" where
  "ex_wstat st = \<lparr>tws_Header = \<lparr>h_Type = Twstat, h_Tag = 3\<rparr>, tws_Fid = 0, tws_Stat = st\<rparr>"

definition keep_stat :: Stat where
  "keep_stat =
     \<lparr>st_Type = -1, st_Dev = -1, st_Qid = Qid_zero, st_Mode = -1, st_Atime = -1, st_Mtime = -1,
      st_Length = -1, st_Name = [], st_Uid = [], st_Gid = [], st_Muid = []\<rparr>"

lemma ex_wstat_eq:
  "srv_Wstat static_ops ex_fs (ex_wstat st) (ex_attached user) ex_store =
     (if wstat_rights root_stat user st
      then case node_WriteStat 0 (wstat_apply root_stat st) ex_store of
             None \<Rightarrow> None
           | Some (Some e, s') \<Rightarrow> reply (mk_RError 3 (error_text e)) (ex_attached user) s'
           | Some (None, s') \<Rightarrow> reply (F_RWstat \<lparr>rws_Header = mk_Header Rwstat 3\<rparr>) (ex_attached user) s'
      else reply (mk_RError 3 ''Permission denied.'') (ex_attached user) ex_store)"
  using static.srv_Wstat_eq [OF ex_store_valid, of "ex_attached user" "ex_wstat st" "newFidInfo user 0" root_stat ex_store ex_fs]
    ex_root_stat
  by (simp add: ex_attached_fid ex_wstat_def newFidInfo_def ex_fs_eq split: option.split)

theorem Wstat_refused_changes_nothing_witness:
  "\<exists>e s'. srv_Wstat static_ops ex_fs (ex_wstat (keep_stat\<lparr>st_Name := ''new''\<rparr>)) (ex_attached ''rob'') ex_store =
       Some (Inr (F_RError e), ex_attached ''rob'', s') \<and> static_view s' = static_view ex_store"
proof -
  obtain e s' where e: "srv_Wstat static_ops ex_fs (ex_wstat (keep_stat\<lparr>st_Name := ''new''\<rparr>)) (ex_attached ''rob'') ex_store =
       Some (Inr (F_RError e), ex_attached ''rob'', s')"
    by (simp add: ex_wstat_eq wstat_rights_def keep_stat_def root_stat_def mk_RError_def)
  from Wstat_refused_changes_nothing [OF ex_store_valid e] e show ?thesis by blast
qed



section \<open>Reads\<close>

text \<open>
  C31: Once a size between 11 and the maximum is negotiated, the reply to a read fits into it, has
  at most the bytes asked for and announces exactly the bytes it carries.
\<close>

theorem Read_reply_fits:
  assumes "static_valid s" "11 \<le> c_msize c" "c_msize c \<le> 65535"
    "srv_Read static_ops t c s = Some (Inr (F_RRead m), c', s')"
  shows "11 + length (rrd_Data m) \<le> unat (c_msize c) \<and> length (rrd_Data m) \<le> unat (trd_Count t) \<and>
    unat (rrd_Count m) = length (rrd_Data m)"
  by (rule static.srv_Read_fits [OF assms])

definition ex_read :: TRead where
  "ex_read = \<lparr>trd_Header = \<lparr>h_Type = Tread, h_Tag = 4\<rparr>, trd_Fid = 1, trd_Offset = 0, trd_Count = 65535\<rparr>"

text \<open>The directory as a client that opened it sees it: two entries for the root itself.\<close>

abbreviation ex_listing :: "ref conn" where
  "ex_listing \<equiv> ex_opened (ExNodes [0, 0])"

lemma ex_msize: "c_msize (ex_opened ex) = 8192"
  by (simp add: ex_opened_def ex_attached_def fids_Store_def)

lemma ex_stat_ok: "stat_ok root_stat" "stat_size root_stat = 68"
  by (simp_all add: stat_ok_def stat_size_def root_stat_def)

lemma ex_read_dir:
  "\<exists>s'. srv_Read static_ops ex_read ex_listing ex_store =
     Some (Inr (mk_RRead 4 (concat (map enc_stat [root_stat, root_stat]))), ex_listing, s')"
proof -
  have k: "node_kind 0 ex_store = KModDir" by (simp add: ex_store_eq node_kind_def)
  let ?t = "ex_read\<lparr>trd_Count := 8181\<rparr>"
  have "stat_at static_ops 0 ex_store = Some root_stat" by (simp add: stat_at_def ex_root_stat)
  from static.readDir_eq [OF ex_store_valid, of "[0, 0]" "[root_stat, root_stat]" ?t
      "(newFidInfo ''glenda'' 0)\<lparr>fi_openMode := Oread, fi_extra := ExNodes [0, 0]\<rparr>"] this
  obtain s' where "readDir static_ops ?t ((newFidInfo ''glenda'' 0)\<lparr>fi_openMode := Oread, fi_extra := ExNodes [0, 0]\<rparr>) ex_store =
      Some (mk_RRead 4 (concat (map enc_stat [root_stat, root_stat])), s')"
    by (auto simp: ex_stat_ok ex_read_def dir_bytes_def)
  then show ?thesis
    using k by (simp add: srv_Read_def ex_read_def ex_opened_fid ex_msize newFidInfo_def Let_def word_less_nat_alt)
qed

theorem Read_reply_fits_witness:
  "\<exists>m s'. srv_Read static_ops ex_read ex_listing ex_store = Some (Inr (F_RRead m), ex_listing, s') \<and>
     11 + length (rrd_Data m) \<le> 8192"
proof -
  obtain m s' where m: "srv_Read static_ops ex_read ex_listing ex_store = Some (Inr (F_RRead m), ex_listing, s')"
    using ex_read_dir by (auto simp: mk_RRead_def)
  from Read_reply_fits [OF ex_store_valid _ _ m] m show ?thesis by (auto simp: ex_msize)
qed

text \<open>
  C11: A directory can be read in pages: a read at an offset where an entry begins returns whole
  entries, those that follow in the listing, which \<^verbatim>\<open>ParseStats\<close> decodes to their stats; it
  makes progress whenever the next entry fits, and it changes nothing.
\<close>

theorem directory_pages:
  assumes "static_valid s" "11 \<le> c_msize c" "c_msize c \<le> 65535"
    "c_fids c (trd_Fid t) = Some info" "fi_openMode info AND 0x0F = Oread" "node_kind (fi_n info) s = KModDir"
    "fi_extra info = ExNodes ns" "list_all2 (\<lambda>n st. stat_at static_ops n s = Some st) ns sts"
    "list_all stat_ok sts" "sizes sts < 2 ^ 64" "k \<le> length sts" "unat (trd_Offset t) = sizes (take k sts)"
  shows "\<exists>m s' j. srv_Read static_ops t c s = Some (Inr (F_RRead m), c, s') \<and>
    ParseStats (rrd_Data m) = Ok (take j (drop k sts)) \<and> length (rrd_Data m) = sizes (take j (drop k sts)) \<and>
    (k < length sts \<longrightarrow> stat_size (sts ! k) \<le> unat (clamp (c_msize c) (trd_Count t)) \<longrightarrow> 0 < j) \<and>
    static_view s' = static_view s"
proof -
  let ?t = "t\<lparr>trd_Count := clamp (c_msize c) (trd_Count t)\<rparr>"
  obtain s' where s': "readDir static_ops ?t info s = Some (mk_RRead (h_Tag (trd_Header t))
      (dir_bytes (sizes (take k sts)) (unat (clamp (c_msize c) (trd_Count t))) sts), s')" "static_view s' = static_view s"
    using static.readDir_eq [OF assms(1,8-10) _ assms(7), of ?t] clamp_bound(2) [OF assms(2,3)] assms(12) by auto
  obtain j where j: "dir_bytes (sizes (take k sts)) (unat (clamp (c_msize c) (trd_Count t))) sts =
      concat (map enc_stat (take j (drop k sts)))"
    "k < length sts \<Longrightarrow> stat_size (sts ! k) \<le> unat (clamp (c_msize c) (trd_Count t)) \<Longrightarrow> 0 < j"
    using dir_bytes_aligned [OF assms(11)] by metis
  have ok: "list_all stat_ok (take j (drop k sts))"
    using assms(9) by (auto simp: list_all_iff dest!: in_set_takeD in_set_dropD)
  have t: "(if trd_Count t > c_msize c - 11 then t\<lparr>trd_Count := c_msize c - 11\<rparr> else t) = ?t"
    by (simp add: clamp_def)
  have r: "srv_Read static_ops t c s = Some (Inr (mk_RRead (h_Tag (trd_Header t)) (concat (map enc_stat (take j (drop k sts))))), c, s')"
    using assms(4-6) s'(1) j(1) unfolding srv_Read_def Let_def t by simp
  have len: "length (concat (map enc_stat (take j (drop k sts)))) = sizes (take j (drop k sts))"
    by (rule length_enc_stats)
  show ?thesis
    unfolding r mk_RRead_def
    by (rule exI, rule exI [of _ s'], rule exI [of _ j], rule conjI [OF refl])
      (simp add: ParseStats_enc [OF ok] len s'(2) j(2) del: take_drop length_concat)
qed

theorem directory_pages_witness:
  "\<exists>m s' j. srv_Read static_ops (ex_read\<lparr>trd_Offset := 68\<rparr>) ex_listing ex_store = Some (Inr (F_RRead m), ex_listing, s') \<and>
     ParseStats (rrd_Data m) = Ok (take j [root_stat]) \<and> 0 < j"
proof -
  have st: "list_all2 (\<lambda>n st. stat_at static_ops n ex_store = Some st) [0, 0] [root_stat, root_stat]"
    by (simp add: stat_at_def ex_root_stat)
  have k: "node_kind 0 ex_store = KModDir" by (simp add: ex_store_eq node_kind_def)
  show ?thesis
    using directory_pages [OF ex_store_valid _ _ _ _ _ _ st, where t = "ex_read\<lparr>trd_Offset := 68\<rparr>"
        and c = ex_listing and k = 1 and info = "(newFidInfo ''glenda'' 0)\<lparr>fi_openMode := Oread, fi_extra := ExNodes [0, 0]\<rparr>"] k
    by (simp add: ex_msize ex_read_def ex_opened_fid newFidInfo_def ex_stat_ok clamp_def word_less_nat_alt) blast
qed

section \<open>Authentication\<close>







end
