(* ===== verification/World_Claims.thy ===== *)
theory World_Claims
  imports Fs_Claims
begin

text \<open>
  The properties of whole runs of the file server on the tree of static files, of the files
  themselves, and the defects that modelling them showed.
\<close>

section \<open>Runs\<close>

text \<open>The server of the example after a client has connected.\<close>

definition ex_world :: world where
  "ex_world = \<lparr>w_server = \<lparr>sv_currConnId = 1\<rparr>, w_conns = [ex_conn], w_store = ex_store\<rparr>"

lemma ex_world_run: "(world_step ex_fs ex_order)\<^sup>*\<^sup>* (world_init ex_store) ex_world"
proof -
  have "world_step ex_fs ex_order (world_init ex_store) ex_world"
    using world_step.connect [of "world_init ex_store" ex_conn "\<lparr>sv_currConnId = 1\<rparr>" ex_fs ex_order]
    by (simp add: world_init_def ex_world_def ex_conn_def NewConn_def Let_def)
  then show ?thesis ..
qed

lemma ex_world_conn: "w_conns ex_world ! 0 = ex_conn" "length (w_conns ex_world) = 1" "w_store ex_world = ex_store"
  by (simp_all add: ex_world_def)




text \<open>A tree with two files in the root, readable by everyone and writable by their owner.\<close>

definition file_stat :: Stat where
  "file_stat =
     \<lparr>st_Type = 0, st_Dev = 0, st_Qid = \<lparr>q_Qtype = 0, q_Vers = 0, q_Uid = 1\<rparr>, st_Mode = 0x1A4,
      st_Atime = 0, st_Mtime = 0, st_Length = 3, st_Name = ''a'', st_Uid = ''glenda'',
      st_Gid = ''sys'', st_Muid = ''glenda''\<rparr>"

definition ex_file :: StaticFile where
  "ex_file = \<lparr>bf_fStat = file_stat, bf_parent = Some 0, sf_Data = [1, 2, 3]\<rparr>"

definition file_stat2 :: Stat where
  "file_stat2 = file_stat\<lparr>st_Qid := \<lparr>q_Qtype = 0, q_Vers = 0, q_Uid = 2\<rparr>, st_Name := ''b''\<rparr>"

definition ex_store2 :: store where
  "ex_store2 =
     \<lparr>sto_nodes = [0 \<mapsto> NDir \<lparr>sd_dStat = root_stat, sd_children = [1, 2], sd_parent = None\<rparr>, 1 \<mapsto> NFile ex_file,
                   2 \<mapsto> NFile (ex_file\<lparr>bf_fStat := file_stat2\<rparr>)],
      sto_next = 3, sto_uid = 3, sto_clock = (\<lambda>_. 0), sto_reads = 0, sto_mem = 1048576\<rparr>"

lemma ex_tree2: "tree_ok ex_store2" "skel ex_store2 (fs_Root ex_fs) \<noteq> None" "static_valid ex_store2"
  by (auto simp: ex_fs_eq ex_store2_def ex_file_def file_stat_def file_stat2_def skel_def tree_ok_def static_valid_def links_ok_def
      qids_ok_def root_stat_def split: if_splits)

lemma ex_file_stat: "node_Stat 1 ex_store2 = Some (file_stat, ex_store2)"
  by (auto simp: node_Stat_def ex_store2_def ex_file_def StaticFile_Stat_def file_stat_def set_node_def)



text \<open>
  C6: No request that arrives on the wire makes a handler of the server of static files panic,
  unless it is one of those \<open>crash_risk\<close> names: a read of a directory without a listing or with an
  entry that is too long, or a write beyond the memory.
\<close>

theorem requests_never_panic:
  assumes "hooks_ok fs" "order_ok order" "tree_ok s" "skel s (fs_Root fs) \<noteq> None"
    "(world_step fs order)\<^sup>*\<^sup>* (world_init s) w" "i < length (w_conns w)"
    "ParseCall rd r = Some (Ok call, r')" "\<not> crash_risk call (w_conns w ! i) (w_store w)"
  shows "handleCall (fs_Srv static_ops fs order) call (w_conns w ! i, w_store w) \<noteq> None"
proof -
  let ?c = "w_conns w ! i" and ?s = "w_store w"
  let ?c1 = "snd (TagContext (GetTag call) ?c)"
  have w: "tree_ok ?s" "skel ?s (fs_Root fs) \<noteq> None" "fids_ok ?c ?s"
    using world_run_ok [OF assms(1,2,5) world_init_ok [OF assms(3,4)]] assms(6) by (auto simp: world_ok_def)
  have c1: "fids_ok ?c1 ?s" "\<not> crash_risk call ?c1 ?s"
    using w(3) assms(8) fids_ok_fids [of ?c1 ?c] by (auto simp: crash_risk_def split: fcall.splits)
  show ?thesis
  proof (cases "dispatch (fs_Srv static_ops fs order) call")
    case None
    then show ?thesis by (simp add: handleCall_def fs_TagContext)
  next
    case (Some h)
    from dispatch_returns [OF w(1) c1(1) assms(1) w(2) assms(2) Some ParseCall_ok [OF assms(7)] c1(2)]
    show ?thesis using handleCall_fids [OF Some] by fastforce
  qed
qed

lemma ex_flush_call_wf: "wf_fcall ex_flush_call"
  by (simp add: ex_flush_call_def wf_fcall_def)

theorem requests_never_panic_witness:
  "\<exists>r'. ParseCall pipe_Read (Some \<lparr>p_in = [Some (fcall_bytes ex_flush_call)], p_inbs = []\<rparr>) = Some (Ok ex_flush_call, r') \<and>
     handleCall (fs_Srv static_ops ex_fs ex_order) ex_flush_call (ex_conn, ex_store) \<noteq> None"
proof -
  obtain r' where r: "ParseCall pipe_Read (Some \<lparr>p_in = [Some (fcall_bytes ex_flush_call)], p_inbs = []\<rparr>) = Some (Ok ex_flush_call, r')"
    using pipe.ParseCall_message [OF ex_flush_call_wf, of "\<lparr>p_in = [Some (fcall_bytes ex_flush_call)], p_inbs = []\<rparr>" "[]"]
    by (auto simp: pipe_pending_def)
  from requests_never_panic [OF ex_hooks ex_order_ok ex_tree(1,2) ex_world_run _ r, of 0] r show ?thesis
    by (simp add: ex_world_conn crash_risk_def ex_flush_call_def)
qed

text \<open>
  C35: The numbers under which a node sees the fids of its clients are unique: as long as fewer than
  \<open>2\<^sup>3\<^sup>2\<close> connections have been made, two fids, of the same connection or of different ones, have
  the same number only if they are the same fid.
\<close>

theorem connection_fids_unique:
  assumes "hooks_ok fs" "order_ok order" "tree_ok s" "skel s (fs_Root fs) \<noteq> None"
    "(world_step fs order)\<^sup>*\<^sup>* (world_init s) w" "length (w_conns w) < 2 ^ 32"
    "i < length (w_conns w)" "j < length (w_conns w)" "toConnFid (w_conns w ! i) f = toConnFid (w_conns w ! j) g"
  shows "i = j \<and> f = g"
proof -
  have ids: "map c_connID (w_conns w) = map (\<lambda>i. of_nat (Suc i)) [0..<length (w_conns w)]"
    using world_run_ok [OF assms(1,2,5) world_init_ok [OF assms(3,4)]] by (simp add: world_ok_def)
  have id: "c_connID (w_conns w ! k) = of_nat (Suc k)" if "k < length (w_conns w)" for k
    using that arg_cong [OF ids, of "\<lambda>xs. xs ! k"] by (simp del: of_nat_Suc)
  have u: "unat (of_nat (Suc k) :: u32) = Suc k" if "k < length (w_conns w)" for k
    using that assms(6) by (intro unat_word_of_nat) simp
  have "(of_nat (Suc i) :: u32) = of_nat (Suc j)"
    using toConnFid_inj [OF assms(9)] id [OF assms(7)] id [OF assms(8)] by (simp del: of_nat_Suc)
  from arg_cong [OF this, of unat] have "i = j" unfolding u [OF assms(7)] u [OF assms(8)] by simp
  then show ?thesis using toConnFid_inj [OF assms(9)] by simp
qed

theorem connection_fids_unique_witness:
  "length (w_conns ex_world) = 1 \<and> toConnFid (w_conns ex_world ! 0) 4 \<noteq> toConnFid (w_conns ex_world ! 0) 5"
  using connection_fids_unique [OF ex_hooks ex_order_ok ex_tree(1,2) ex_world_run, of 0 0 4 5]
  by (auto simp: ex_world_conn)

section \<open>Files\<close>

text \<open>
  C7: A static file is a byte array: a write that the runtime can allocate stores its bytes at the
  offset, fills a gap with zeros and keeps all other bytes, a later read returns the requested range
  of the result, and the stat reports its length.
\<close>

theorem StaticFile_is_byte_array:
  assumes "mem < 2 ^ 63" "length (sf_Data f) \<le> mem" "length data < 2 ^ 32" "unat cnt \<le> 2 ^ 63"
    "unat offset + length data \<le> mem"
  shows "\<exists>f'. StaticFile_Write mem offset data f = Some (of_nat (length data), f') \<and>
    length (sf_Data f') = max (length (sf_Data f)) (unat offset + length data) \<and>
    (\<forall>i < length (sf_Data f'). sf_Data f' ! i =
       (if unat offset \<le> i \<and> i < unat offset + length data then data ! (i - unat offset)
        else if i < length (sf_Data f) then sf_Data f ! i else 0)) \<and>
    StaticFile_Read from cnt f' = Some (take (unat cnt) (drop (unat from) (sf_Data f'))) \<and>
    st_Length (fst (StaticFile_Stat f')) = of_nat (length (sf_Data f'))"
proof -
  let ?xs = "write_at (unat offset) data (sf_Data f)"
  obtain f' where f': "StaticFile_Write mem offset data f = Some (of_nat (length data), f')" "sf_Data f' = ?xs"
    using StaticFile_Write_eq [of mem f data offset] assms by (auto simp: write_fits_def)
  have "length ?xs < 2 ^ 63" using assms by simp
  from read_range_eq [OF this assms(4)] f' show ?thesis
    by (auto simp: write_at_nth StaticFile_Read_def StaticFile_Stat_def simp del: length_write_at) simp
qed

theorem StaticFile_is_byte_array_witness:
  "\<exists>f'. StaticFile_Write 100 4 [9] ex_file = Some (1, f') \<and> length (sf_Data f') = 5 \<and> sf_Data f' ! 3 = 0 \<and>
     StaticFile_Read 2 3 f' = Some (take 3 (drop 2 (sf_Data f')))"
proof -
  obtain f' where f': "StaticFile_Write 100 4 [9] ex_file = Some (1, f')" "length (sf_Data f') = 5"
    "\<forall>i < 5. sf_Data f' ! i = (if 4 \<le> i \<and> i < 5 then [9] ! (i - 4) else if i < 3 then sf_Data ex_file ! i else 0)"
    "StaticFile_Read 2 3 f' = Some (take 3 (drop 2 (sf_Data f')))"
    using StaticFile_is_byte_array [of 100 ex_file "[9]" 3 4 2] by (auto simp: ex_file_def)
  then show ?thesis by auto
qed

section \<open>Defects\<close>

text \<open>
  Opening a file with the truncate bit needs no write permission: a user who may only read it
  empties it.
\<close>

theorem open_truncates_without_write_permission:
  assumes "static_valid s" "c_fids c (top_Fid t) = Some info" "fi_openMode info = ONone"
    "top_Mode t = Oread OR Otrunc" "sto_nodes s (fi_n info) = Some (NFile f)"
    "permits (bf_fStat f) (fi_uname info) Oread" "\<not> permits (bf_fStat f) (fi_uname info) Owrite"
  shows "\<exists>r c' s' f'. srv_Open static_ops fs order t c s = Some (Inr (F_ROpen r), c', s') \<and>
    sto_nodes s' (fi_n info) = Some (NFile f') \<and> sf_Data f' = []"
proof -
  let ?n = "fi_n info" and ?st = "fst (StaticFile_Stat f)" and ?s = "set_node (fi_n info) (NFile (snd (StaticFile_Stat f))) s"
  have st: "node_Stat ?n s = Some (?st, ?s)" using assms(5) by (simp add: node_Stat_eq)
  have "permits ?st u m = permits (bf_fStat f) u m" for u m
    by (simp add: permits_def class_shift_def StaticFile_Stat_def split: option.split)
  then have perm: "openPermission static_ops ?n (fi_uname info) Oread s = Some (True, ?s)"
    using static.openPermission_stat [OF assms(1), of ?n ?st ?s "fi_uname info" Oread] st assms(6) by simp
  have m: "top_Mode t AND 0x0F = Oread" "top_Mode t AND Otrunc > 0" using assms(4) by simp_all
  show ?thesis
    using assms(2-5) perm m
    by (auto simp: srv_Open_def open_node_def Let_def node_kind_def node_Open_def node_Stat_eq StaticFile_Open_def
        StaticFile_Stat_def)
qed

definition ex_reader :: "ref conn" where
  "ex_reader = fids_Store 0 (newFidInfo ''rob'' 1) ex_conn"

theorem open_truncates_without_write_permission_witness:
  "\<exists>r c' s' f'. srv_Open static_ops ex_fs ex_order (ex_open\<lparr>top_Mode := Oread OR Otrunc\<rparr>) ex_reader ex_store2 =
       Some (Inr (F_ROpen r), c', s') \<and>
     sto_nodes s' 1 = Some (NFile f') \<and> sf_Data f' = []"
  using open_truncates_without_write_permission [OF ex_tree2(3), of ex_reader "ex_open\<lparr>top_Mode := Oread OR Otrunc\<rparr>"
      "newFidInfo ''rob'' 1" ex_file ex_fs ex_order]
  by (simp add: ex_reader_def ex_open_def newFidInfo_def ex_store2_def ex_file_def permits_omodePermits omodePermits_def
      class_shift_def file_stat_def)

text \<open>
  A directory that was just created cannot be read through the fid that created it: the fid has
  no listing and the read panics.
\<close>

theorem read_of_created_directory_panics:
  assumes "srv_Create static_ops fs t c s = Some (Inr (F_RCreate r), c', s')"
    "c_fids c' (tcr_Fid t) = Some info" "node_kind (fi_n info) s' = KModDir"
    "tcr_Mode t AND 0x0F = Oread" "trd_Fid rd = tcr_Fid t"
  shows "srv_Read static_ops rd c' s' = None"
proof -
  have "fi_extra info = ExNil \<and> fi_openMode info = tcr_Mode t"
    using assms(1,2)
    by (auto simp: srv_Create_def Let_def mk_RError_def deriveInfo_def
        split: option.splits if_splits bind_splits sum.splits)
  then show ?thesis using assms by (simp add: srv_Read_def readDir_def Let_def)
qed

definition ex_mkdir :: TCreate where
  "ex_mkdir = \<lparr>tcr_Header = \<lparr>h_Type = Tcreate, h_Tag = 2\<rparr>, tcr_Fid = 0, tcr_Name = ''d'', tcr_Perm = 0x800001ED, tcr_Mode = Oread\<rparr>"

lemma ex_mkdir_created:
  "\<exists>r c' s' info. srv_Create static_ops ex_fs ex_mkdir (ex_attached ''glenda'') ex_store = Some (Inr (F_RCreate r), c', s') \<and>
     c_fids c' 0 = Some info \<and> node_kind (fi_n info) s' = KModDir"
proof -
  have "openPermission static_ops 0 ''glenda'' Owrite ex_store = Some (True, ex_store)"
    using static.openPermission_stat [OF ex_store_valid, of 0 root_stat ex_store "''glenda''" Owrite] ex_root_stat
    by (simp add: permits_omodePermits omodePermits_def class_shift_def root_stat_def)
  moreover have "node_kind 0 ex_store = KModDir" by (simp add: ex_store_eq node_kind_def)
  moreover have "\<exists>s'. CreateStaticDir 0 ''glenda'' ''d'' 0x800001ED Oread ex_store = Some (Inr (Some 1), s') \<and>
      node_kind 1 s' = KModDir \<and> (\<exists>st. node_Stat 1 s' = Some (st, s'))"
    by (simp add: CreateStaticDir_def ex_store_eq node_kind_def NewStat_def NewQid_def time_Now_def new_node_def
        set_node_def NewStaticDir_def StaticDir_AddChild_def node_Stat_def set_children_def node_SetParent_def Let_def)
  ultimately show ?thesis
    by (auto simp: srv_Create_def ex_mkdir_def ex_attached_fid newFidInfo_def ex_fs_eq deriveInfo_def Let_def)
qed

theorem read_of_created_directory_panics_witness:
  "\<exists>r c' s'. srv_Create static_ops ex_fs ex_mkdir (ex_attached ''glenda'') ex_store = Some (Inr (F_RCreate r), c', s') \<and>
     srv_Read static_ops (ex_read\<lparr>trd_Fid := 0\<rparr>) c' s' = None"
proof -
  obtain r c' s' info where c: "srv_Create static_ops ex_fs ex_mkdir (ex_attached ''glenda'') ex_store = Some (Inr (F_RCreate r), c', s')"
    "c_fids c' 0 = Some info" "node_kind (fi_n info) s' = KModDir" using ex_mkdir_created by blast
  from read_of_created_directory_panics [OF c(1) _ c(3), of "ex_read\<lparr>trd_Fid := 0\<rparr>"] c show ?thesis
    by (auto simp: ex_mkdir_def)
qed

text \<open>
  A write panics as soon as the file would outgrow the memory, whatever the number of bytes
  written: one byte at a huge offset kills the server.
\<close>

theorem huge_write_panics:
  assumes "static_valid s" "c_fids c (twr_Fid t) = Some info" "fi_openMode info AND 0x0F = Owrite"
    "sto_nodes s (fi_n info) = Some (NFile f)" "st_Mode (bf_fStat f) AND DMDIR = 0"
    "length (twr_Data t) < 2 ^ 32" "unat (twr_Offset t) + length (twr_Data t) > sto_mem s"
  shows "srv_Write static_ops t c s = None"
proof -
  have f: "length (sf_Data f) \<le> sto_mem s" "sto_mem s < 2 ^ 63"
    using static_valid_node [OF assms(1,4)] static_mem [OF assms(1)] by auto
  then have "StaticFile_Write (sto_mem s) (twr_Offset t) (twr_Data t) (snd (StaticFile_Stat f)) = None"
    using StaticFile_Write_eq [of "sto_mem s" "snd (StaticFile_Stat f)" "twr_Data t" "twr_Offset t"] assms(6,7)
    by (auto simp: write_fits_def StaticFile_Stat_def)
  then show ?thesis
    using assms(2-5) by (auto simp: srv_Write_def Let_def node_Stat_eq node_kind_def node_Write_def StaticFile_Stat_def)
qed

definition ex_writer :: "ref conn" where
  "ex_writer = fids_Store 0 ((newFidInfo ''glenda'' 1)\<lparr>fi_openMode := Owrite\<rparr>) ex_conn"

theorem huge_write_panics_witness:
  "srv_Write static_ops \<lparr>twr_Header = \<lparr>h_Type = Twrite, h_Tag = 2\<rparr>, twr_Fid = 0, twr_Offset = 0x10000000000,
     twr_Count = 1, twr_Data = [0]\<rparr> ex_writer ex_store2 = None"
  by (rule huge_write_panics [OF ex_tree2(3), of _ _ "(newFidInfo ''glenda'' 1)\<lparr>fi_openMode := Owrite\<rparr>" ex_file])
    (simp_all add: ex_writer_def newFidInfo_def ex_store2_def ex_file_def file_stat_def)

text \<open>
  A file can be renamed to the name of another file: the owner's request is accepted, after
  which both have the same name.
\<close>

theorem rename_onto_existing_name:
  assumes "static_valid s" "c_fids c (tws_Fid t) = Some info" "node_Stat (fi_n info) s = Some (st, s1)"
    "fi_uname info = st_Uid st" "tws_Stat t = keep_stat\<lparr>st_Name := name\<rparr>" "name \<noteq> []"
    "m \<noteq> fi_n info" "stat_at static_ops m s = Some st'" "st_Name st' = name"
    "node_Parent (fi_n info) s = Some (Some d, s)" "node_Parent m s = Some (Some d, s)"
  shows "\<exists>r s' st1 st2. srv_Wstat static_ops fs t c s = Some (Inr (F_RWstat r), c, s') \<and>
    stat_at static_ops (fi_n info) s' = Some st1 \<and> stat_at static_ops m s' = Some st2 \<and>
    st_Name st1 = name \<and> st_Name st2 = name \<and>
    node_Parent (fi_n info) s' = Some (Some d, s') \<and> node_Parent m s' = Some (Some d, s')"
proof -
  have rights: "wstat_rights st (fi_uname info) (tws_Stat t)"
    using assms(4,5) by (simp add: wstat_rights_def keep_stat_def)
  have op: "op_Stat static_ops (fi_n info) s = Some (st, s1)" using assms(3) by simp
  obtain v where v: "sto_nodes s (fi_n info) = Some v" "s1 = set_node (fi_n info) (norm_node v) s"
    using assms(3) by (auto simp: node_Stat_eq)
  obtain w where w: "sto_nodes s m = Some w" "obs_stat w = st'" using assms(8) by (auto simp: stat_at_def node_Stat_eq)
  have "\<exists>s' x. node_WriteStat (fi_n info) new s1 = Some (None, s') \<and> sto_nodes s' (fi_n info) = Some x \<and>
      st_Name (obs_stat x) = st_Name new \<and> sto_nodes s' m = Some w \<and>
      node_Parent (fi_n info) s' = Some (Some d, s') \<and> node_Parent m s' = Some (Some d, s')" for new
    using v w(1) assms(7,10,11)
    by (cases v; cases w) (auto simp: node_WriteStat_def node_Parent_def StaticFile_Stat_def)
  then obtain s' x where s': "node_WriteStat (fi_n info) (wstat_apply st (tws_Stat t)) s1 = Some (None, s')"
    "sto_nodes s' (fi_n info) = Some x" "st_Name (obs_stat x) = st_Name (wstat_apply st (tws_Stat t))" "sto_nodes s' m = Some w"
    "node_Parent (fi_n info) s' = Some (Some d, s')" "node_Parent m s' = Some (Some d, s')"
    by blast
  have "st_Name (wstat_apply st (tws_Stat t)) = name" using assms(5,6) by (simp add: wstat_apply_def keep_stat_def)
  then show ?thesis
    unfolding static.srv_Wstat_eq [OF assms(1,2) op] using rights s' w(2) assms(9) by (simp add: stat_at_def node_Stat_eq)
qed

theorem rename_onto_existing_name_witness:
  "\<exists>r s' st1 st2. srv_Wstat static_ops ex_fs (ex_wstat (keep_stat\<lparr>st_Name := ''b''\<rparr>)) ex_writer ex_store2 =
       Some (Inr (F_RWstat r), ex_writer, s') \<and>
     stat_at static_ops 1 s' = Some st1 \<and> stat_at static_ops 2 s' = Some st2 \<and> st_Name st1 = ''b'' \<and> st_Name st2 = ''b''"
proof -
  have "stat_at static_ops 2 ex_store2 = Some file_stat2"
    by (simp add: stat_at_def node_Stat_eq ex_store2_def ex_file_def StaticFile_Stat_def file_stat2_def file_stat_def)
  moreover have "node_Parent 1 ex_store2 = Some (Some 0, ex_store2)" "node_Parent 2 ex_store2 = Some (Some 0, ex_store2)"
    by (simp_all add: node_Parent_def ex_store2_def ex_file_def)
  moreover note rename_onto_existing_name [OF ex_tree2(3), of ex_writer "ex_wstat (keep_stat\<lparr>st_Name := ''b''\<rparr>)"
      "(newFidInfo ''glenda'' 1)\<lparr>fi_openMode := Owrite\<rparr>" file_stat ex_store2 "''b''" 2 file_stat2 0 ex_fs]
  ultimately show ?thesis
    using ex_file_stat by (auto simp: ex_writer_def newFidInfo_def ex_wstat_def file_stat_def file_stat2_def)
qed

end
