(* ===== verification/Go_Chan.thy ===== *)
theory Go_Chan
  imports Go_Prelude
begin

text \<open>
  Go's buffered channels, as the streams, the listener and the client use them: a queue of at most
  \<open>ch_cap\<close> elements and a flag that tells whether the channel is closed. A send on a closed channel
  and a second close panic, a receive from a closed channel first drains the queue. An operation
  that has to wait gives \<open>Block\<close> with the state it waits in; the waiting call goes on from that
  state as if it were made there. A channel of capacity 0 passes an element only when sender
  and receiver meet; of those the model has the ones nothing is sent on, which are only closed.
\<close>

section \<open>Outcomes of operations that may wait\<close>

datatype ('a, 's) run = Ret 'a 's | Block 's | Panics

section \<open>Channels\<close>

record 'a chan =
  ch_buf :: "'a list"
  ch_cap :: nat
  ch_closed :: bool

definition make_chan :: "nat \<Rightarrow> 'a chan" where
  "make_chan n = \<lparr>ch_buf = [], ch_cap = n, ch_closed = False\<rparr>"

definition chan_send :: "'a \<Rightarrow> 'a chan \<Rightarrow> (unit, 'a chan) run" where
  "chan_send x c =
     (if ch_closed c then Panics
      else if length (ch_buf c) < ch_cap c then Ret () (c\<lparr>ch_buf := ch_buf c @ [x]\<rparr>)
      else Block c)"

definition chan_recv :: "'a chan \<Rightarrow> ('a option, 'a chan) run" where
  "chan_recv c =
     (case ch_buf c of
        x # xs \<Rightarrow> Ret (Some x) (c\<lparr>ch_buf := xs\<rparr>)
      | [] \<Rightarrow> if ch_closed c then Ret None c else Block c)"

definition chan_close :: "'a chan \<Rightarrow> (unit, 'a chan) run" where
  "chan_close c = (if ch_closed c then Panics else Ret () (c\<lparr>ch_closed := True\<rparr>))"

lemma make_chan_simps [simp]:
  "ch_buf (make_chan n) = []" "ch_cap (make_chan n) = n" "\<not> ch_closed (make_chan n)"
  by (simp_all add: make_chan_def)

lemma chan_send_Ret [simp]:
  "chan_send x c = Ret u c' \<longleftrightarrow>
     \<not> ch_closed c \<and> length (ch_buf c) < ch_cap c \<and> c' = c\<lparr>ch_buf := ch_buf c @ [x]\<rparr>"
  by (auto simp: chan_send_def)

lemma chan_send_Block [simp]:
  "chan_send x c = Block c' \<longleftrightarrow> \<not> ch_closed c \<and> ch_cap c \<le> length (ch_buf c) \<and> c' = c"
  by (auto simp: chan_send_def)

lemma chan_send_Panics [simp]: "chan_send x c = Panics \<longleftrightarrow> ch_closed c"
  by (simp add: chan_send_def)

lemma chan_recv_Some [simp]:
  "chan_recv c = Ret (Some x) c' \<longleftrightarrow> (\<exists>xs. ch_buf c = x # xs \<and> c' = c\<lparr>ch_buf := xs\<rparr>)"
  by (auto simp: chan_recv_def split: list.splits)

lemma chan_recv_None [simp]:
  "chan_recv c = Ret None c' \<longleftrightarrow> ch_buf c = [] \<and> ch_closed c \<and> c' = c"
  by (auto simp: chan_recv_def split: list.splits)

lemma chan_recv_Block [simp]:
  "chan_recv c = Block c' \<longleftrightarrow> ch_buf c = [] \<and> \<not> ch_closed c \<and> c' = c"
  by (auto simp: chan_recv_def split: list.splits)

lemma chan_recv_never_panics [simp]: "chan_recv c \<noteq> Panics"
  by (auto simp: chan_recv_def split: list.splits)

lemma chan_close_Ret [simp]:
  "chan_close c = Ret u c' \<longleftrightarrow> \<not> ch_closed c \<and> c' = c\<lparr>ch_closed := True\<rparr>"
  by (auto simp: chan_close_def)

lemma take_drop_append [simp]: "take n xs @ drop n xs @ ys = xs @ ys"
  by (simp flip: append_assoc)

lemma nth_update: "xs[i := v] ! j = (if i = j \<and> j < length xs then v else xs ! j)"
  by (cases "i < length xs") (auto simp: list_update_beyond)

section \<open>Removing elements of a slice in place\<close>

text \<open>
  The loop with which the streams remove readers from a slice (fs/streams.go): the elements kept
  move to the front, \<open>k\<close> is how many there are, and the slice is cut to \<open>k\<close>.
\<close>

function compact_from :: "('a \<Rightarrow> bool) \<Rightarrow> nat \<Rightarrow> nat \<Rightarrow> 'a list \<Rightarrow> 'a list" where
  "compact_from keep i k xs =
     (if i < length xs then
        (if keep (xs ! i)
         then compact_from keep (Suc i) (Suc k) (if i \<noteq> k then xs[k := xs ! i] else xs)
         else compact_from keep (Suc i) k xs)
      else take k xs)"
  by pat_completeness auto
termination by (relation "measure (\<lambda>(keep, i, k, xs). length xs - i)") auto

declare compact_from.simps [simp del]

definition compact :: "('a \<Rightarrow> bool) \<Rightarrow> 'a list \<Rightarrow> 'a list" where
  "compact keep xs = compact_from keep 0 0 xs"

lemma compact_from_filter:
  "k \<le> i \<Longrightarrow> i \<le> length xs \<Longrightarrow>
     compact_from keep i k xs = take k xs @ filter keep (drop i xs)"
proof (induction keep i k xs rule: compact_from.induct)
  case (1 keep i k xs)
  show ?case
  proof (cases "i < length xs")
    case True
    let ?ys = "if i \<noteq> k then xs[k := xs ! i] else xs"
    have "take (Suc k) ?ys = take k xs @ [xs ! i]"
      using 1(3) True by (auto simp: take_Suc_conv_app_nth)
    moreover have "drop (Suc i) ?ys = drop (Suc i) xs"
      using 1(3) by auto
    moreover have "filter keep (drop i xs) =
        (if keep (xs ! i) then [xs ! i] else []) @ filter keep (drop (Suc i) xs)"
      using True by (simp flip: Cons_nth_drop_Suc)
    ultimately show ?thesis
      using 1 True by (subst compact_from.simps) simp
  qed (use 1(3,4) in \<open>simp add: compact_from.simps\<close>)
qed

lemma compact_filter [simp]: "compact keep xs = filter keep xs"
  by (simp add: compact_def compact_from_filter)

end
