(* ===== verification/Streams.thy ===== *)
theory Streams
  imports Go_Chan
begin

text \<open>
  The fan-out streams of fs/streams.go: the channel readers, the base stream that the dropping,
  blocking and skipping streams embed, and the bodies of their \<^verbatim>\<open>Write\<close> loops. The theory
  Stream_Fanout runs them concurrently.

  A \<^verbatim>\<open>*chanReader\<close> is an address into \<open>bs_objs\<close>, the objects \<^verbatim>\<open>AddReadWriter\<close> has
  made; its fields \<^verbatim>\<open>write\<close> and \<^verbatim>\<open>writerClosed\<close> are the stream's channels
  \<open>bs_incoming\<close> and \<open>bs_close\<close>, so the operations that use them take the stream. A buffer
  \<^verbatim>\<open>p\<close> to read into is its length, what a call copies into it is returned.
\<close>

section \<open>Channel readers\<close>

record chanReader =
  cr_read :: "bytes chan"
  cr_unread :: bytes
  cr_live :: bool

text \<open>
  The body of the loop of \<^verbatim>\<open>Read\<close>. When nothing is left over, a slice is received: with
  data already copied the receive does not wait (\<open>some\<close>). \<open>Ret False\<close> tells that the call
  returns.
\<close>

definition chanReader_fill :: "bool \<Rightarrow> chanReader \<Rightarrow> (bool, chanReader) run" where
  "chanReader_fill some r =
     (if cr_unread r = [] then
        (case chan_recv (cr_read r) of
           Ret (Some bs) ch \<Rightarrow> Ret True (r\<lparr>cr_read := ch, cr_unread := bs\<rparr>)
         | Ret None ch \<Rightarrow> Ret False r
         | Block ch \<Rightarrow> (if some then Ret False r else Block r)
         | Panics \<Rightarrow> Panics)
      else Ret True r)"

definition chanReader_copy :: "nat \<Rightarrow> chanReader \<Rightarrow> bytes \<times> chanReader" where
  "chanReader_copy room r = (take room (cr_unread r), r\<lparr>cr_unread := drop room (cr_unread r)\<rparr>)"

lemma chanReader_fill_True:
  "chanReader_fill some r = Ret True r' \<longleftrightarrow>
     (cr_unread r \<noteq> [] \<and> r' = r) \<or>
     (\<exists>bs xs. cr_unread r = [] \<and> ch_buf (cr_read r) = bs # xs \<and>
        r' = r\<lparr>cr_read := (cr_read r)\<lparr>ch_buf := xs\<rparr>, cr_unread := bs\<rparr>)"
  by (auto simp: chanReader_fill_def chan_recv_def split: list.splits)

lemma chanReader_fill_False:
  "chanReader_fill some r = Ret False r' \<longleftrightarrow>
     cr_unread r = [] \<and> ch_buf (cr_read r) = [] \<and> (some \<or> ch_closed (cr_read r)) \<and> r' = r"
  by (auto simp: chanReader_fill_def chan_recv_def split: list.splits)

lemma chanReader_fill_Block:
  "chanReader_fill some r = Block r' \<longleftrightarrow>
     cr_unread r = [] \<and> ch_buf (cr_read r) = [] \<and> \<not> some \<and> \<not> ch_closed (cr_read r) \<and> r' = r"
  by (auto simp: chanReader_fill_def chan_recv_def split: list.splits)

lemma chanReader_fill_never_panics: "chanReader_fill some r \<noteq> Panics"
  by (auto simp: chanReader_fill_def chan_recv_def split: list.splits)

text \<open>
  The loop waits only while nothing has been copied, and then goes on as the call itself.
\<close>

function chanReader_loop :: "nat \<Rightarrow> bytes \<Rightarrow> chanReader \<Rightarrow> (bytes, chanReader) run" where
  "chanReader_loop room acc r =
     (if room = 0 then Ret acc r
      else case chanReader_fill (acc \<noteq> []) r of
             Ret True r1 \<Rightarrow>
               (let (bs, r2) = chanReader_copy room r1
                in chanReader_loop (room - length bs) (acc @ bs) r2)
           | Ret False r1 \<Rightarrow> Ret acc r1
           | Block r1 \<Rightarrow> Block r1
           | Panics \<Rightarrow> Panics)"
  by pat_completeness auto
termination
  by (relation "(\<lambda>(room, acc, r). length (ch_buf (cr_read r))) <*mlex*>
                measure (\<lambda>(room, acc, r). room)")
    (auto simp: chanReader_fill_True chanReader_copy_def wf_mlex intro: mlex_less mlex_leq)

declare chanReader_loop.simps [simp del]

definition chanReader_Read :: "nat \<Rightarrow> chanReader \<Rightarrow> (go_error + bytes, chanReader) run" where
  "chanReader_Read len r =
     (case chanReader_loop len [] r of
        Ret bs r' \<Rightarrow> Ret (Inr bs) r'
      | Block r' \<Rightarrow> Block r'
      | Panics \<Rightarrow> Panics)"

definition chanReader_Close :: "chanReader \<Rightarrow> (unit, chanReader) run" where
  "chanReader_Close r =
     (if cr_live r then
        (case chan_close (cr_read r) of
           Ret _ ch \<Rightarrow> Ret () (r\<lparr>cr_live := False, cr_read := ch\<rparr>)
         | Block ch \<Rightarrow> Block r
         | Panics \<Rightarrow> Panics)
      else Ret () r)"

section \<open>The base stream\<close>

record baseStream =
  bs_objs :: "chanReader list"
  bs_readers :: "nat list"
  bs_read :: bytes
  bs_bufflen :: nat
  bs_incoming :: "bytes chan"
  bs_close :: "unit chan"

abbreviation set_reader :: "nat \<Rightarrow> chanReader \<Rightarrow> baseStream \<Rightarrow> baseStream" where
  "set_reader r cr s \<equiv> s\<lparr>bs_objs := (bs_objs s)[r := cr]\<rparr>"

definition baseStream_length :: "baseStream \<Rightarrow> u64" where
  "baseStream_length s = 0"

definition baseStream_closed :: "baseStream \<Rightarrow> bool" where
  "baseStream_closed s =
     (case chan_recv (bs_close s) of Block _ \<Rightarrow> False | Ret _ _ \<Rightarrow> True | Panics \<Rightarrow> False)"

definition close_reader :: "nat \<Rightarrow> baseStream \<Rightarrow> (unit, baseStream) run" where
  "close_reader r s =
     (case chanReader_Close (bs_objs s ! r) of
        Ret _ cr \<Rightarrow> Ret () (set_reader r cr s)
      | Block _ \<Rightarrow> Block s
      | Panics \<Rightarrow> Panics)"

definition AddReadWriter :: "baseStream \<Rightarrow> (nat, baseStream) run" where
  "AddReadWriter s =
     (let reader = \<lparr>cr_read = make_chan (bs_bufflen s), cr_unread = [], cr_live = True\<rparr>;
          r = length (bs_objs s);
          s1 = s\<lparr>bs_objs := bs_objs s @ [reader]\<rparr>
      in if baseStream_closed s
         then (case close_reader r s1 of
                 Ret _ s2 \<Rightarrow> Ret r s2 | Block s2 \<Rightarrow> Block s2 | Panics \<Rightarrow> Panics)
         else Ret r (s1\<lparr>bs_readers := bs_readers s @ [r]\<rparr>))"

definition AddReader :: "baseStream \<Rightarrow> (nat, baseStream) run" where
  "AddReader s = AddReadWriter s"

definition RemoveReader :: "nat \<Rightarrow> baseStream \<Rightarrow> (unit, baseStream) run" where
  "RemoveReader r s =
     close_reader r (s\<lparr>bs_readers := compact (\<lambda>reader. r \<noteq> reader) (bs_readers s)\<rparr>)"

text \<open>
  \<^verbatim>\<open>Read\<close> on the stream takes what the readers have written. Empty slices are skipped; a
  closed stream gives \<^const>\<open>EOF\<close> once \<open>bs_incoming\<close> is drained, which the inner \<^verbatim>\<open>select\<close>
  prefers.
\<close>

function baseStream_fetch :: "baseStream \<Rightarrow> (go_error + unit, baseStream) run" where
  "baseStream_fetch s =
     (case chan_recv (bs_incoming s) of
        Ret (Some inn) ch \<Rightarrow>
          (let s1 = s\<lparr>bs_incoming := ch, bs_read := inn\<rparr>
           in if length (bs_read s1) > 0 then Ret (Inr ()) s1 else baseStream_fetch s1)
      | Ret None ch \<Rightarrow> Ret (Inl EOF) s
      | Block ch \<Rightarrow> (if baseStream_closed s then Ret (Inl EOF) s else Block s)
      | Panics \<Rightarrow> Panics)"
  by pat_completeness auto
termination by (relation "measure (\<lambda>s. length (ch_buf (bs_incoming s)))") auto

declare baseStream_fetch.simps [simp del]

definition baseStream_Read :: "nat \<Rightarrow> baseStream \<Rightarrow> (go_error + bytes, baseStream) run" where
  "baseStream_Read len s =
     (case (if bs_read s = [] then baseStream_fetch s else Ret (Inr ()) s) of
        Ret (Inr _) s1 \<Rightarrow> Ret (Inr (take len (bs_read s1))) (s1\<lparr>bs_read := drop len (bs_read s1)\<rparr>)
      | Ret (Inl e) s1 \<Rightarrow> Ret (Inl e) s1
      | Block s1 \<Rightarrow> Block s1
      | Panics \<Rightarrow> Panics)"

text \<open>A reader's \<^verbatim>\<open>Write\<close> sends a copy of the slice to \<open>bs_incoming\<close>.\<close>

definition chanReader_Write :: "bytes \<Rightarrow> baseStream \<Rightarrow> (go_error + nat, baseStream) run" where
  "chanReader_Write p s =
     (if baseStream_closed s then Ret (Inl EOF) s
      else case chan_send p (bs_incoming s) of
             Ret _ ch \<Rightarrow> Ret (Inr (length p)) (s\<lparr>bs_incoming := ch\<rparr>)
           | Block ch \<Rightarrow> Block s
           | Panics \<Rightarrow> Panics)"

primrec close_readers :: "nat list \<Rightarrow> baseStream \<Rightarrow> (unit, baseStream) run" where
  "close_readers [] s = Ret () s"
| "close_readers (r # rs) s =
     (case close_reader r s of
        Ret _ s1 \<Rightarrow> close_readers rs s1 | Block s1 \<Rightarrow> Block s1 | Panics \<Rightarrow> Panics)"

definition baseStream_Close :: "baseStream \<Rightarrow> (go_error option, baseStream) run" where
  "baseStream_Close s =
     (if baseStream_closed s then Ret None s
      else case close_readers (bs_readers s) s of
             Ret _ s1 \<Rightarrow>
               (case chan_close (bs_close s1) of
                  Ret _ ch \<Rightarrow> Ret None (s1\<lparr>bs_readers := [], bs_close := ch\<rparr>)
                | Block _ \<Rightarrow> Block s1
                | Panics \<Rightarrow> Panics)
           | Block s1 \<Rightarrow> Block s1
           | Panics \<Rightarrow> Panics)"

section \<open>The three ways to write\<close>

definition NewDroppingStream :: "nat \<Rightarrow> baseStream" where
  "NewDroppingStream buffer =
     \<lparr>bs_objs = [], bs_readers = [], bs_read = [], bs_bufflen = buffer,
      bs_incoming = make_chan 10, bs_close = make_chan 0\<rparr>"

definition NewBlockingStream :: "nat \<Rightarrow> baseStream" where
  "NewBlockingStream buffer =
     \<lparr>bs_objs = [], bs_readers = [], bs_read = [], bs_bufflen = buffer,
      bs_incoming = make_chan 10, bs_close = make_chan 0\<rparr>"

definition NewSkippingStream :: "nat \<Rightarrow> baseStream" where
  "NewSkippingStream buffer =
     \<lparr>bs_objs = [], bs_readers = [], bs_read = [], bs_bufflen = buffer,
      bs_incoming = make_chan 10, bs_close = make_chan 0\<rparr>"

text \<open>The case \<^verbatim>\<open>reader.read <- cp\<close>.\<close>

definition offer :: "nat \<Rightarrow> bytes \<Rightarrow> baseStream \<Rightarrow> (unit, baseStream) run" where
  "offer r p s =
     (case chan_send p (cr_read (bs_objs s ! r)) of
        Ret _ ch \<Rightarrow> Ret () (set_reader r ((bs_objs s ! r)\<lparr>cr_read := ch\<rparr>) s)
      | Block _ \<Rightarrow> Block s
      | Panics \<Rightarrow> Panics)"

text \<open>
  The loop bodies of the dropping and the skipping stream for one reader; \<open>fired\<close> tells that the
  timer's case of the \<^verbatim>\<open>select\<close> is taken. The dropping body says whether the reader is kept.
\<close>

definition DroppingStream_body ::
    "bool \<Rightarrow> nat \<Rightarrow> bytes \<Rightarrow> baseStream \<Rightarrow> (bool, baseStream) run" where
  "DroppingStream_body fired r p s =
     (if fired
      then (case close_reader r s of
              Ret _ s1 \<Rightarrow> Ret False s1 | Block s1 \<Rightarrow> Block s1 | Panics \<Rightarrow> Panics)
      else (case offer r p s of
              Ret _ s1 \<Rightarrow> Ret True s1 | Block s1 \<Rightarrow> Block s1 | Panics \<Rightarrow> Panics))"

definition SkippingStream_body ::
    "bool \<Rightarrow> nat \<Rightarrow> bytes \<Rightarrow> baseStream \<Rightarrow> (unit, baseStream) run" where
  "SkippingStream_body fired r p s = (if fired then Ret () s else offer r p s)"

text \<open>
  One attempt of the blocking stream; it returns the readers whose buffer is full. Nothing in it
  waits, and a read of one reader commutes with the offers to the others, so an attempt is one step.
\<close>

primrec tryWrite :: "nat list \<Rightarrow> bytes \<Rightarrow> baseStream \<Rightarrow> (nat list, baseStream) run" where
  "tryWrite [] p s = Ret [] s"
| "tryWrite (r # rs) p s =
     (if \<not> cr_live (bs_objs s ! r) then tryWrite rs p s
      else case offer r p s of
             Ret _ s1 \<Rightarrow> tryWrite rs p s1
           | Block _ \<Rightarrow>
               (case tryWrite rs p s of
                  Ret laggers s1 \<Rightarrow> Ret (r # laggers) s1
                | Block s1 \<Rightarrow> Block s1
                | Panics \<Rightarrow> Panics)
           | Panics \<Rightarrow> Panics)"

section \<open>What the operations do\<close>

text \<open>The bytes a reader has been sent and has not read.\<close>

definition pending :: "chanReader \<Rightarrow> bytes" where
  "pending r = cr_unread r @ concat (ch_buf (cr_read r))"

text \<open>Reading leaves everything of a reader but the bytes alone.\<close>

definition same_reader :: "chanReader \<Rightarrow> chanReader \<Rightarrow> bool" where
  "same_reader r r' \<longleftrightarrow> cr_live r' = cr_live r \<and> ch_closed (cr_read r') = ch_closed (cr_read r) \<and>
     ch_cap (cr_read r') = ch_cap (cr_read r) \<and>
     length (ch_buf (cr_read r')) \<le> length (ch_buf (cr_read r))"

lemma same_reader_refl [simp]: "same_reader r r"
  by (simp add: same_reader_def)

lemma same_reader_trans: "same_reader a b \<Longrightarrow> same_reader b c \<Longrightarrow> same_reader a c"
  by (simp add: same_reader_def)

lemma fill_pending:
  "chanReader_fill some r = Ret True r' \<Longrightarrow> pending r' = pending r \<and> same_reader r r'"
  by (auto simp: chanReader_fill_True pending_def same_reader_def)

lemma copy_pending:
  "chanReader_copy room r = (bs, r') \<Longrightarrow> bs @ pending r' = pending r \<and> same_reader r r'"
  by (auto simp: chanReader_copy_def pending_def same_reader_def)

text \<open>
  A call that does not wait copies as much of the pending bytes as there is room for.
\<close>

lemma chanReader_loop_takes:
  assumes "room = 0 \<or> acc \<noteq> [] \<or> pending r \<noteq> [] \<or> ch_closed (cr_read r)"
  shows "\<exists>r'. chanReader_loop room acc r = Ret (acc @ take room (pending r)) r' \<and>
           pending r' = drop room (pending r) \<and> same_reader r r'"
  using assms
proof (induction room acc r rule: chanReader_loop.induct)
  case (1 room acc r)
  show ?case
  proof (cases "room = 0")
    case False
    consider (stop) "chanReader_fill (acc \<noteq> []) r = Ret False r" "pending r = []"
      | (go) r1 where "chanReader_fill (acc \<noteq> []) r = Ret True r1"
      using 1(2) False
      by (cases "cr_unread r"; cases "ch_buf (cr_read r)")
        (auto simp: chanReader_fill_True chanReader_fill_False pending_def)
    then show ?thesis
    proof cases
      case stop
      then show ?thesis using False by (subst chanReader_loop.simps) simp
    next
      case go
      obtain bs r2 where cp: "chanReader_copy room r1 = (bs, r2)" by fastforce
      have p: "pending r1 = pending r" "bs @ pending r2 = pending r"
        "same_reader r r2" "ch_closed (cr_read r2) = ch_closed (cr_read r)"
        using fill_pending [OF go] copy_pending [OF cp]
        by (auto simp: same_reader_def)
      have bs: "bs = take room (cr_unread r1)" "pending r2 = drop room (cr_unread r1) @ concat (ch_buf (cr_read r2))"
        using cp by (auto simp: chanReader_copy_def pending_def)
      have "room - length bs = 0 \<or> acc @ bs \<noteq> [] \<or> pending r2 \<noteq> [] \<or> ch_closed (cr_read r2)"
        using 1(2) False p by auto
      then obtain r' where r': "chanReader_loop (room - length bs) (acc @ bs) r2 =
          Ret ((acc @ bs) @ take (room - length bs) (pending r2)) r'"
        "pending r' = drop (room - length bs) (pending r2)" "same_reader r2 r'"
        using 1(1) [OF False go _ _ refl] cp by fastforce
      have len: "length bs \<le> room" using bs(1) by simp
      have "take room (pending r) = bs @ take (room - length bs) (pending r2)"
        "drop room (pending r) = drop (room - length bs) (pending r2)"
        using len by (simp_all flip: p(2))
      then show ?thesis
        using False go cp r' same_reader_trans [OF p(3) r'(3)]
        by (subst chanReader_loop.simps) simp
    qed
  qed (simp add: chanReader_loop.simps)
qed

lemma chanReader_Read_takes:
  assumes "len = 0 \<or> pending r \<noteq> [] \<or> ch_closed (cr_read r)"
  shows "\<exists>r'. chanReader_Read len r = Ret (Inr (take len (pending r))) r' \<and>
           pending r' = drop len (pending r) \<and> same_reader r r'"
  using chanReader_loop_takes [of len "[]" r] assms by (auto simp: chanReader_Read_def)

text \<open>It waits exactly when there is nothing to read and the channel is open.\<close>

lemma chanReader_loop_waits:
  assumes "0 < room" "pending r = []" "\<not> ch_closed (cr_read r)"
  shows "\<exists>r'. chanReader_loop room [] r = Block r' \<and> pending r' = [] \<and> same_reader r r'"
  using assms
proof (induction "length (ch_buf (cr_read r))" arbitrary: r)
  case 0
  then have "chanReader_loop room [] r = Block r"
    by (simp add: chanReader_loop.simps [of room "[]" r] chanReader_fill_def chan_recv_def pending_def)
  then show ?case using 0 by simp
next
  case (Suc n)
  then obtain xs where b: "ch_buf (cr_read r) = [] # xs" "cr_unread r = []"
    by (cases "ch_buf (cr_read r)") (auto simp: pending_def)
  define r1 where "r1 = r\<lparr>cr_read := (cr_read r)\<lparr>ch_buf := xs\<rparr>, cr_unread := []\<rparr>"
  have r1: "pending r1 = []" "\<not> ch_closed (cr_read r1)" "n = length (ch_buf (cr_read r1))" "same_reader r r1"
    using Suc.hyps(2) Suc.prems b by (simp_all add: r1_def pending_def same_reader_def)
  obtain r' where "chanReader_loop room [] r1 = Block r'" "pending r' = []" "same_reader r1 r'"
    using Suc.hyps(1) [OF r1(3) Suc.prems(1) r1(1,2)] by blast
  moreover have "chanReader_fill False r = Ret True r1" "chanReader_copy room r1 = ([], r1)"
    using b by (simp_all add: chanReader_fill_True chanReader_copy_def r1_def)
  then have "chanReader_loop room [] r = chanReader_loop room [] r1"
    using Suc.prems(1) by (simp add: chanReader_loop.simps [of room "[]" r])
  ultimately show ?case using same_reader_trans [OF r1(4)] by auto
qed

lemma chanReader_Read_waits:
  assumes "0 < len" "pending r = []" "\<not> ch_closed (cr_read r)"
  shows "\<exists>r'. chanReader_Read len r = Block r' \<and> pending r' = [] \<and> same_reader r r'"
  using chanReader_loop_waits [OF assms] by (auto simp: chanReader_Read_def)

lemma chanReader_Read_Ret:
  assumes "chanReader_Read len r = Ret d r'"
  shows "d = Inr (take len (pending r)) \<and> pending r' = drop len (pending r) \<and> same_reader r r'"
proof -
  have "len = 0 \<or> pending r \<noteq> [] \<or> ch_closed (cr_read r)"
    using assms chanReader_Read_waits [of len r] by auto
  then show ?thesis using chanReader_Read_takes [of len r] assms by auto
qed

lemma close_chan [simp]: "baseStream_closed s \<longleftrightarrow> ch_closed (bs_close s) \<or> ch_buf (bs_close s) \<noteq> []"
  by (auto simp: baseStream_closed_def chan_recv_def split: list.splits)

lemma chanReader_Close_Ret:
  assumes "cr_live r = (\<not> ch_closed (cr_read r))"
  shows "chanReader_Close r =
    Ret () (r\<lparr>cr_live := False, cr_read := (cr_read r)\<lparr>ch_closed := True\<rparr>\<rparr>)"
  using assms by (cases r; cases "cr_read r") (simp add: chanReader_Close_def chan_close_def)

text \<open>What the readers have written and the stream has not read.\<close>

definition arrived :: "baseStream \<Rightarrow> bytes" where
  "arrived s = bs_read s @ concat (ch_buf (bs_incoming s))"

text \<open>The end of the search for a slice that is not empty: it found \<open>rd\<close>, \<open>buf\<close> stays.\<close>

definition fetched :: "bytes list \<Rightarrow> bytes \<Rightarrow> baseStream \<Rightarrow> (go_error + unit, baseStream) run" where
  "fetched buf rd s =
     (let s' = s\<lparr>bs_incoming := (bs_incoming s)\<lparr>ch_buf := buf\<rparr>, bs_read := rd\<rparr>
      in if rd \<noteq> [] then Ret (Inr ()) s'
         else if baseStream_closed s then Ret (Inl EOF) s' else Block s')"

lemma fetched_again:
  "fetched buf rd (s\<lparr>bs_incoming := (bs_incoming s)\<lparr>ch_buf := xs\<rparr>, bs_read := x\<rparr>) = fetched buf rd s"
  by (simp add: fetched_def Let_def)

lemma baseStream_fetch_cases:
  assumes "bs_read s = []" "\<not> ch_closed (bs_incoming s)"
  shows "\<exists>buf rd. length buf \<le> length (ch_buf (bs_incoming s)) \<and>
     rd @ concat buf = concat (ch_buf (bs_incoming s)) \<and> (rd = [] \<longrightarrow> buf = []) \<and>
     baseStream_fetch s = fetched buf rd s"
  using assms
proof (induction "ch_buf (bs_incoming s)" arbitrary: s)
  case Nil
  then have "baseStream_fetch s = fetched [] [] s"
    by (subst baseStream_fetch.simps, cases s, cases "bs_incoming s")
      (simp add: chan_recv_def fetched_def Let_def)
  then show ?case using Nil by (intro exI [of _ "[]"]) simp
next
  case (Cons x xs)
  let ?s = "s\<lparr>bs_incoming := (bs_incoming s)\<lparr>ch_buf := xs\<rparr>, bs_read := x\<rparr>"
  have f: "baseStream_fetch s = (if x \<noteq> [] then Ret (Inr ()) ?s else baseStream_fetch ?s)"
    using Cons.hyps(2) [symmetric] by (simp add: baseStream_fetch.simps [of s] chan_recv_def Let_def)
  show ?case
  proof (cases "x = []")
    case True
    have "\<exists>buf rd. length buf \<le> length (ch_buf (bs_incoming ?s)) \<and>
       rd @ concat buf = concat (ch_buf (bs_incoming ?s)) \<and> (rd = [] \<longrightarrow> buf = []) \<and>
       baseStream_fetch ?s = fetched buf rd ?s"
      by (rule Cons.hyps(1)) (use Cons.prems True in simp_all)
    then obtain buf rd where b: "length buf \<le> length xs" "rd @ concat buf = concat xs"
      "rd = [] \<longrightarrow> buf = []" "baseStream_fetch ?s = fetched buf rd ?s"
      by auto
    have "baseStream_fetch s = fetched buf rd s" using True f b(4) fetched_again by simp
    then show ?thesis
      using b(1-3) True Cons.hyps(2) by (intro exI [of _ buf] exI [of _ rd]) (simp flip: Cons.hyps(2))
  next
    case False
    then show ?thesis
      using f Cons.hyps(2) [symmetric]
      by (intro exI [of _ xs] exI [of _ x]) (simp add: fetched_def Let_def)
  qed
qed

lemma baseStream_Read_arrived:
  assumes "baseStream_Read len s = Ret d s'" "\<not> ch_closed (bs_incoming s)"
  shows "\<exists>buf rd. s' = s\<lparr>bs_incoming := (bs_incoming s)\<lparr>ch_buf := buf\<rparr>, bs_read := rd\<rparr> \<and>
     length buf \<le> length (ch_buf (bs_incoming s)) \<and>
     (case d of Inr bs \<Rightarrow> bs @ arrived s' = arrived s
              | Inl e \<Rightarrow> e = EOF \<and> baseStream_closed s \<and> arrived s = [] \<and> arrived s' = [])"
proof (cases "bs_read s = []")
  case True
  obtain buf rd where b: "length buf \<le> length (ch_buf (bs_incoming s))"
    "rd @ concat buf = concat (ch_buf (bs_incoming s))" "rd = [] \<longrightarrow> buf = []"
    "baseStream_fetch s = fetched buf rd s"
    using baseStream_fetch_cases [OF True assms(2)] by blast
  show ?thesis
  proof (cases "rd = []")
    case False
    then show ?thesis
      using assms(1) True b
      by (intro exI [of _ buf] exI [of _ "drop len rd"])
        (auto simp: baseStream_Read_def fetched_def Let_def arrived_def)
  next
    case rd: True
    then show ?thesis
      using assms(1) True b
      by (intro exI [of _ buf] exI [of _ "[]"])
        (auto simp: baseStream_Read_def fetched_def Let_def arrived_def split: if_splits)
  qed
next
  case False
  then show ?thesis
    using assms(1)
    by (intro exI [of _ "ch_buf (bs_incoming s)"] exI [of _ "drop len (bs_read s)"])
      (auto simp: baseStream_Read_def arrived_def)
qed

lemma baseStream_Read_frame:
  assumes "baseStream_Read len s = Ret d s'" "\<not> ch_closed (bs_incoming s)"
  shows "bs_objs s' = bs_objs s" "bs_readers s' = bs_readers s"
  using baseStream_Read_arrived [OF assms] by auto

end
