(* ===== verification/Stream_Fanout.thy ===== *)
theory Stream_Fanout
  imports Streams "HOL-Library.Sublist"
begin

text \<open>
  The fan-out streams at work (fs/streams.go): readers that come, read and go, a writer in the
  middle of its loop, and the delivery each kind of stream promises. The steps interleave freely
  except where the code holds the stream's mutex. \<open>y_written\<close>, \<open>y_sent\<close>, \<open>y_got\<close>,
  \<open>y_in\<close> and \<open>y_srv\<close> are histories: per reader the slices of the \<^verbatim>\<open>Write\<close> calls that
  began while it was a reader, those put into its channel, and the bytes its \<^verbatim>\<open>Read\<close> calls
  returned; and for the other direction the slices the readers wrote and the bytes read from
  the stream. Readers are closed by \<^verbatim>\<open>RemoveReader\<close> and the stream only, as the stream files
  do it.
\<close>

section \<open>Steps\<close>

text \<open>
  \<open>Looping p todo done\<close> is a dropping or skipping writer inside its loop, holding the mutex;
  \<open>Sleeping p laggers\<close> a blocking writer between two attempts, which holds only
  \<^verbatim>\<open>writeLock\<close>. A blocking write's look at the list of readers and its first attempt are
  one step; Stream_Progress shows what can go wrong between them.
\<close>

datatype write_state = NoWrite | Looping bytes "nat list" "nat list" | Sleeping bytes "nat list"

record sys =
  y_s :: baseStream
  y_w :: write_state
  y_written :: "nat \<Rightarrow> bytes list"
  y_sent :: "nat \<Rightarrow> bytes list"
  y_got :: "nat \<Rightarrow> bytes"
  y_in :: "bytes list"
  y_srv :: bytes

primrec locked :: "write_state \<Rightarrow> bool" where
  "locked NoWrite \<longleftrightarrow> False"
| "locked (Looping p todo dn) \<longleftrightarrow> True"
| "locked (Sleeping p laggers) \<longleftrightarrow> False"

definition sys_init :: "baseStream \<Rightarrow> sys" where
  "sys_init s = \<lparr>y_s = s, y_w = NoWrite, y_written = (\<lambda>_. []), y_sent = (\<lambda>_. []),
     y_got = (\<lambda>_. []), y_in = [], y_srv = []\<rparr>"

text \<open>One more slice for each reader of a set.\<close>

definition log_slice :: "nat set \<Rightarrow> bytes \<Rightarrow> (nat \<Rightarrow> bytes list) \<Rightarrow> nat \<Rightarrow> bytes list" where
  "log_slice R p h = (\<lambda>r. if r \<in> R then h r @ [p] else h r)"

text \<open>
  What every stream allows. A step \<open>read\<close> is one pass through the loop of \<^verbatim>\<open>chanReader.Read\<close>
  with \<open>room\<close> bytes of the buffer left.
\<close>

inductive base_step :: "sys \<Rightarrow> sys \<Rightarrow> bool" where
  add: "\<not> locked (y_w y) \<Longrightarrow> AddReadWriter (y_s y) = Ret r s \<Longrightarrow>
    base_step y (y\<lparr>y_s := s\<rparr>)"
| remove: "\<not> locked (y_w y) \<Longrightarrow> r < length (bs_objs (y_s y)) \<Longrightarrow>
    RemoveReader r (y_s y) = Ret u s \<Longrightarrow> base_step y (y\<lparr>y_s := s\<rparr>)"
| read: "r < length (bs_objs (y_s y)) \<Longrightarrow>
    chanReader_fill some (bs_objs (y_s y) ! r) = Ret True cr1 \<Longrightarrow>
    chanReader_copy room cr1 = (bs, cr2) \<Longrightarrow>
    base_step y (y\<lparr>y_s := set_reader r cr2 (y_s y), y_got := (y_got y)(r := y_got y r @ bs)\<rparr>)"
| reader_write: "chanReader_Write p (y_s y) = Ret (Inr n) s \<Longrightarrow>
    base_step y (y\<lparr>y_s := s, y_in := y_in y @ [p]\<rparr>)"
| stream_read: "baseStream_Read len (y_s y) = Ret (Inr bs) s \<Longrightarrow>
    base_step y (y\<lparr>y_s := s, y_srv := y_srv y @ bs\<rparr>)"
| close: "\<not> locked (y_w y) \<Longrightarrow> baseStream_Close (y_s y) = Ret e s \<Longrightarrow>
    base_step y (y\<lparr>y_s := s\<rparr>)"

inductive dropping_write :: "sys \<Rightarrow> sys \<Rightarrow> bool" where
  start: "y_w y = NoWrite \<Longrightarrow> readers = bs_readers (y_s y) \<Longrightarrow>
    dropping_write y (y\<lparr>y_w := Looping p readers [],
      y_written := log_slice (set readers) p (y_written y)\<rparr>)"
| deliver: "y_w y = Looping p (r # todo) kept \<Longrightarrow>
    DroppingStream_body False r p (y_s y) = Ret k s \<Longrightarrow>
    dropping_write y (y\<lparr>y_s := s, y_w := Looping p todo (kept @ [r]),
      y_sent := log_slice {r} p (y_sent y)\<rparr>)"
| timeout: "y_w y = Looping p (r # todo) kept \<Longrightarrow>
    DroppingStream_body True r p (y_s y) = Ret k s \<Longrightarrow>
    dropping_write y (y\<lparr>y_s := s, y_w := Looping p todo kept\<rparr>)"
| finish: "y_w y = Looping p [] kept \<Longrightarrow>
    dropping_write y (y\<lparr>y_s := (y_s y)\<lparr>bs_readers := kept\<rparr>, y_w := NoWrite\<rparr>)"

inductive skipping_write :: "sys \<Rightarrow> sys \<Rightarrow> bool" where
  start: "y_w y = NoWrite \<Longrightarrow> readers = bs_readers (y_s y) \<Longrightarrow>
    skipping_write y (y\<lparr>y_w := Looping p readers [],
      y_written := log_slice (set readers) p (y_written y)\<rparr>)"
| deliver: "y_w y = Looping p (r # todo) dn \<Longrightarrow>
    SkippingStream_body False r p (y_s y) = Ret u s \<Longrightarrow>
    skipping_write y (y\<lparr>y_s := s, y_w := Looping p todo (dn @ [r]),
      y_sent := log_slice {r} p (y_sent y)\<rparr>)"
| timeout: "y_w y = Looping p (r # todo) dn \<Longrightarrow>
    SkippingStream_body True r p (y_s y) = Ret u s \<Longrightarrow>
    skipping_write y (y\<lparr>y_s := s, y_w := Looping p todo (dn @ [r])\<rparr>)"
| finish: "y_w y = Looping p [] dn \<Longrightarrow> skipping_write y (y\<lparr>y_w := NoWrite\<rparr>)"

text \<open>The readers an attempt has put the slice into: the live ones it does not report back.\<close>

definition accepted :: "nat list \<Rightarrow> nat list \<Rightarrow> baseStream \<Rightarrow> nat set" where
  "accepted readers laggers s =
     {r \<in> set readers. cr_live (bs_objs s ! r) \<and> r \<notin> set laggers}"

inductive blocking_write :: "sys \<Rightarrow> sys \<Rightarrow> bool" where
  start: "y_w y = NoWrite \<Longrightarrow> readers = bs_readers (y_s y) \<Longrightarrow>
    tryWrite readers p (y_s y) = Ret laggers s \<Longrightarrow>
    blocking_write y (y\<lparr>y_s := s, y_w := Sleeping p laggers,
      y_written := log_slice (set readers) p (y_written y),
      y_sent := log_slice (accepted readers laggers (y_s y)) p (y_sent y)\<rparr>)"
| again: "y_w y = Sleeping p readers \<Longrightarrow> readers \<noteq> [] \<Longrightarrow>
    tryWrite readers p (y_s y) = Ret laggers s \<Longrightarrow>
    blocking_write y (y\<lparr>y_s := s, y_w := Sleeping p laggers,
      y_sent := log_slice (accepted readers laggers (y_s y)) p (y_sent y)\<rparr>)"
| finish: "y_w y = Sleeping p [] \<Longrightarrow> blocking_write y (y\<lparr>y_w := NoWrite\<rparr>)"

section \<open>What all streams keep\<close>

text \<open>The readers a writer may still send to.\<close>

fun active :: "write_state \<Rightarrow> baseStream \<Rightarrow> nat list" where
  "active (Looping p todo dn) s = dn @ todo"
| "active _ s = bs_readers s"

primrec laggers_of :: "write_state \<Rightarrow> nat list" where
  "laggers_of NoWrite = []"
| "laggers_of (Looping p todo dn) = []"
| "laggers_of (Sleeping p laggers) = laggers"

text \<open>
  Of each reader: it is live just when its channel is open, the channel is not overfull, and the
  bytes read and pending are the slices sent to it.
\<close>

definition reader_ok :: "nat \<Rightarrow> bytes list \<Rightarrow> bytes \<Rightarrow> chanReader \<Rightarrow> bool" where
  "reader_ok n sent got cr \<longleftrightarrow>
     cr_live cr = (\<not> ch_closed (cr_read cr)) \<and> ch_cap (cr_read cr) = n \<and>
     length (ch_buf (cr_read cr)) \<le> n \<and> got @ pending cr = concat sent"

definition sys_ok :: "sys \<Rightarrow> bool" where
  "sys_ok y \<longleftrightarrow> (let s = y_s y in
     (\<forall>r < length (bs_objs s). reader_ok (bs_bufflen s) (y_sent y r) (y_got y r) (bs_objs s ! r)) \<and>
     (\<forall>r \<ge> length (bs_objs s). y_written y r = [] \<and> y_sent y r = [] \<and> y_got y r = []) \<and>
     distinct (active (y_w y) s) \<and>
     (\<forall>r. r \<in> set (active (y_w y) s) \<longleftrightarrow> r < length (bs_objs s) \<and> cr_live (bs_objs s ! r)) \<and>
     distinct (laggers_of (y_w y)) \<and> (\<forall>r \<in> set (laggers_of (y_w y)). r < length (bs_objs s)) \<and>
     \<not> ch_closed (bs_incoming s) \<and> length (ch_buf (bs_incoming s)) \<le> ch_cap (bs_incoming s) \<and>
     ch_buf (bs_close s) = [] \<and> y_srv y @ arrived s = concat (y_in y))"

section \<open>The operations under the invariant\<close>

abbreviation shut :: "chanReader \<Rightarrow> chanReader" where
  "shut cr \<equiv> cr\<lparr>cr_live := False, cr_read := (cr_read cr)\<lparr>ch_closed := True\<rparr>\<rparr>"

abbreviation push_slice :: "bytes \<Rightarrow> chanReader \<Rightarrow> chanReader" where
  "push_slice p cr \<equiv> cr\<lparr>cr_read := (cr_read cr)\<lparr>ch_buf := ch_buf (cr_read cr) @ [p]\<rparr>\<rparr>"

definition lives_ok :: "baseStream \<Rightarrow> bool" where
  "lives_ok s \<longleftrightarrow> (\<forall>r < length (bs_objs s). cr_live (bs_objs s ! r) = (\<not> ch_closed (cr_read (bs_objs s ! r))))"

lemma reader_ok_shut: "reader_ok n sent got cr \<Longrightarrow> reader_ok n sent got (shut cr)"
  by (simp add: reader_ok_def pending_def)

lemma reader_ok_push:
  "reader_ok n sent got cr \<Longrightarrow> length (ch_buf (cr_read cr)) < n \<Longrightarrow>
     reader_ok n (sent @ [p]) got (push_slice p cr)"
  by (simp add: reader_ok_def pending_def)

lemma reader_ok_read:
  assumes "reader_ok n sent got cr" "chanReader_fill some cr = Ret True cr1"
    "chanReader_copy room cr1 = (bs, cr2)"
  shows "reader_ok n sent (got @ bs) cr2" and "cr_live cr2 = cr_live cr"
  using assms(1) fill_pending [OF assms(2)] copy_pending [OF assms(3)]
  by (auto simp: reader_ok_def same_reader_def)

lemma sys_ok_lives: "sys_ok y \<Longrightarrow> lives_ok (y_s y)"
  by (auto simp: sys_ok_def lives_ok_def reader_ok_def Let_def)

lemma close_reader_eq:
  assumes "lives_ok s" "r < length (bs_objs s)"
  shows "close_reader r s = Ret () (set_reader r (shut (bs_objs s ! r)) s)"
  using assms chanReader_Close_Ret [of "bs_objs s ! r"] by (simp add: close_reader_def lives_ok_def)

lemma lives_ok_shut: "lives_ok s \<Longrightarrow> lives_ok (set_reader r (shut (bs_objs s ! r)) s)"
  by (auto simp: lives_ok_def nth_update)

lemma close_readers_eq:
  assumes "lives_ok s" "\<forall>r \<in> set rs. r < length (bs_objs s)"
  shows "\<exists>objs. close_readers rs s = Ret () (s\<lparr>bs_objs := objs\<rparr>) \<and> length objs = length (bs_objs s) \<and>
     (\<forall>i < length objs. objs ! i = (if i \<in> set rs then shut (bs_objs s ! i) else bs_objs s ! i))"
  using assms
proof (induction rs arbitrary: s)
  case (Cons r rs)
  let ?s = "set_reader r (shut (bs_objs s ! r)) s"
  have r: "r < length (bs_objs s)" using Cons.prems(2) by simp
  obtain objs where o: "close_readers rs ?s = Ret () (?s\<lparr>bs_objs := objs\<rparr>)"
    "length objs = length (bs_objs ?s)"
    "\<forall>i < length objs. objs ! i = (if i \<in> set rs then shut (bs_objs ?s ! i) else bs_objs ?s ! i)"
    using Cons.IH [of ?s] lives_ok_shut [OF Cons.prems(1), of r] Cons.prems(2) by auto
  have "\<forall>i < length objs. objs ! i = (if i \<in> set (r # rs) then shut (bs_objs s ! i) else bs_objs s ! i)"
    using o(2,3) r by (auto simp: nth_update)
  then show ?case
    using o(1,2) close_reader_eq [OF Cons.prems(1) r] by (intro exI [of _ objs]) simp
next
  case Nil
  then show ?case by (intro exI [of _ "bs_objs s"]) simp
qed

lemma offer_Ret:
  "offer r p s = Ret u s' \<longleftrightarrow>
     \<not> ch_closed (cr_read (bs_objs s ! r)) \<and>
     length (ch_buf (cr_read (bs_objs s ! r))) < ch_cap (cr_read (bs_objs s ! r)) \<and>
     s' = set_reader r (push_slice p (bs_objs s ! r)) s"
  by (auto simp: offer_def chan_send_def)

lemma offer_Block:
  "offer r p s = Block s' \<longleftrightarrow>
     \<not> ch_closed (cr_read (bs_objs s ! r)) \<and>
     ch_cap (cr_read (bs_objs s ! r)) \<le> length (ch_buf (cr_read (bs_objs s ! r))) \<and> s' = s"
  by (auto simp: offer_def chan_send_def)

lemma offer_Panics: "offer r p s = Panics \<longleftrightarrow> ch_closed (cr_read (bs_objs s ! r))"
  by (auto simp: offer_def chan_send_def)

text \<open>
  An attempt to write never waits and never sends on a closed channel; it reports the live readers
  without room and puts the slice into the channels of the other live ones.
\<close>

definition full :: "chanReader \<Rightarrow> bool" where
  "full cr \<longleftrightarrow> ch_cap (cr_read cr) \<le> length (ch_buf (cr_read cr))"

lemma lives_ok_push:
  "lives_ok s \<Longrightarrow> lives_ok (set_reader r (push_slice p (bs_objs s ! r)) s)"
  by (auto simp: lives_ok_def nth_update)

lemma tryWrite_eq:
  assumes "lives_ok s" "distinct rs" "\<forall>r \<in> set rs. r < length (bs_objs s)"
  shows "\<exists>objs. tryWrite rs p s =
       Ret (filter (\<lambda>r. cr_live (bs_objs s ! r) \<and> full (bs_objs s ! r)) rs) (s\<lparr>bs_objs := objs\<rparr>) \<and>
     length objs = length (bs_objs s) \<and>
     (\<forall>i < length objs. objs ! i =
        (if i \<in> set rs \<and> cr_live (bs_objs s ! i) \<and> \<not> full (bs_objs s ! i)
         then push_slice p (bs_objs s ! i) else bs_objs s ! i))"
  using assms
proof (induction rs arbitrary: s)
  case (Cons r rs)
  let ?cr = "bs_objs s ! r"
  have r: "r < length (bs_objs s)" "cr_live ?cr = (\<not> ch_closed (cr_read ?cr))"
    using Cons.prems by (auto simp: lives_ok_def)
  show ?case
  proof (cases "cr_live ?cr \<and> \<not> full ?cr")
    case True
    let ?s = "set_reader r (push_slice p ?cr) s"
    have off: "offer r p s = Ret () ?s" using True r by (simp add: offer_Ret full_def)
    obtain objs where o: "tryWrite rs p ?s =
        Ret (filter (\<lambda>r. cr_live (bs_objs ?s ! r) \<and> full (bs_objs ?s ! r)) rs) (?s\<lparr>bs_objs := objs\<rparr>)"
      "length objs = length (bs_objs ?s)"
      "\<forall>i < length objs. objs ! i =
        (if i \<in> set rs \<and> cr_live (bs_objs ?s ! i) \<and> \<not> full (bs_objs ?s ! i)
         then push_slice p (bs_objs ?s ! i) else bs_objs ?s ! i)"
      using Cons.IH [of ?s] lives_ok_push [OF Cons.prems(1), of r p] Cons.prems(2,3) by auto
    have "r \<notin> set rs" using Cons.prems(2) by simp
    then have "filter (\<lambda>q. cr_live (bs_objs ?s ! q) \<and> full (bs_objs ?s ! q)) rs =
        filter (\<lambda>q. cr_live (bs_objs s ! q) \<and> full (bs_objs s ! q)) rs"
      by (intro filter_cong) (auto simp: nth_update)
    moreover have "\<forall>i < length objs. objs ! i =
        (if i \<in> set (r # rs) \<and> cr_live (bs_objs s ! i) \<and> \<not> full (bs_objs s ! i)
         then push_slice p (bs_objs s ! i) else bs_objs s ! i)"
      using o(2,3) r(1) True \<open>r \<notin> set rs\<close> by (auto simp: nth_update)
    ultimately show ?thesis
      using o(1,2) off True by (intro exI [of _ objs]) simp
  next
    case False
    obtain objs where o: "tryWrite rs p s =
        Ret (filter (\<lambda>r. cr_live (bs_objs s ! r) \<and> full (bs_objs s ! r)) rs) (s\<lparr>bs_objs := objs\<rparr>)"
      "length objs = length (bs_objs s)"
      "\<forall>i < length objs. objs ! i =
        (if i \<in> set rs \<and> cr_live (bs_objs s ! i) \<and> \<not> full (bs_objs s ! i)
         then push_slice p (bs_objs s ! i) else bs_objs s ! i)"
      using Cons.IH [of s] Cons.prems by auto
    have "offer r p s = Block s" if "cr_live ?cr"
      using that False r(2) by (simp add: offer_Block full_def)
    then have "tryWrite (r # rs) p s =
        Ret (filter (\<lambda>r. cr_live (bs_objs s ! r) \<and> full (bs_objs s ! r)) (r # rs)) (s\<lparr>bs_objs := objs\<rparr>)"
      using False o(1) by (cases "cr_live ?cr") simp_all
    then show ?thesis using o(2,3) False by (intro exI [of _ objs]) auto
  qed
next
  case Nil
  then show ?case by (intro exI [of _ "bs_objs s"]) simp
qed

lemma AddReadWriter_eq:
  assumes "lives_ok s"
  shows "AddReadWriter s =
    (let new = \<lparr>cr_read = make_chan (bs_bufflen s), cr_unread = [], cr_live = True\<rparr>
     in Ret (length (bs_objs s))
          (if baseStream_closed s then s\<lparr>bs_objs := bs_objs s @ [shut new]\<rparr>
           else s\<lparr>bs_objs := bs_objs s @ [new], bs_readers := bs_readers s @ [length (bs_objs s)]\<rparr>))"
proof -
  let ?new = "\<lparr>cr_read = make_chan (bs_bufflen s), cr_unread = [], cr_live = True\<rparr>"
  have "lives_ok (s\<lparr>bs_objs := bs_objs s @ [?new]\<rparr>)"
    using assms by (auto simp: lives_ok_def nth_append less_Suc_eq)
  then show ?thesis
    using close_reader_eq [of "s\<lparr>bs_objs := bs_objs s @ [?new]\<rparr>" "length (bs_objs s)"]
    by (simp add: AddReadWriter_def Let_def)
qed

lemma AddReadWriter_new:
  assumes "lives_ok s"
  obtains cr rs where "AddReadWriter s = Ret (length (bs_objs s)) (s\<lparr>bs_objs := bs_objs s @ [cr], bs_readers := rs\<rparr>)"
    "cr_live cr = (\<not> ch_closed (cr_read cr))" "pending cr = []"
proof -
  let ?new = "\<lparr>cr_read = make_chan (bs_bufflen s), cr_unread = [], cr_live = True\<rparr>"
  show ?thesis
  proof (cases "baseStream_closed s")
    case True
    then show ?thesis
      using AddReadWriter_eq [OF assms] that [of "bs_readers s" "shut ?new"]
      by (cases s) (simp add: Let_def pending_def)
  next
    case False
    then show ?thesis
      using AddReadWriter_eq [OF assms] that [of "bs_readers s @ [length (bs_objs s)]" ?new]
      by (simp add: Let_def pending_def)
  qed
qed

lemma RemoveReader_eq:
  assumes "lives_ok s" "r < length (bs_objs s)"
  shows "RemoveReader r s =
    Ret () (s\<lparr>bs_objs := (bs_objs s)[r := shut (bs_objs s ! r)],
             bs_readers := filter ((\<noteq>) r) (bs_readers s)\<rparr>)"
  using close_reader_eq [of "s\<lparr>bs_readers := filter ((\<noteq>) r) (bs_readers s)\<rparr>" r] assms
  by (cases s) (simp add: RemoveReader_def lives_ok_def)

lemma baseStream_Close_eq:
  assumes "lives_ok s" "\<forall>r \<in> set (bs_readers s). r < length (bs_objs s)" "ch_buf (bs_close s) = []"
  shows "\<exists>objs. baseStream_Close s = Ret None
       (if baseStream_closed s then s
        else s\<lparr>bs_objs := objs, bs_readers := [], bs_close := (bs_close s)\<lparr>ch_closed := True\<rparr>\<rparr>) \<and>
     length objs = length (bs_objs s) \<and>
     (\<forall>i < length objs. objs ! i =
        (if i \<in> set (bs_readers s) then shut (bs_objs s ! i) else bs_objs s ! i))"
proof -
  obtain objs where "close_readers (bs_readers s) s = Ret () (s\<lparr>bs_objs := objs\<rparr>)"
    "length objs = length (bs_objs s)"
    "\<forall>i < length objs. objs ! i =
        (if i \<in> set (bs_readers s) then shut (bs_objs s ! i) else bs_objs s ! i)"
    using close_readers_eq [OF assms(1,2)] by blast
  then show ?thesis
    using assms(3) by (intro exI [of _ objs]) (simp add: baseStream_Close_def chan_close_def)
qed

section \<open>The invariant holds in every run\<close>

lemma active_unlocked: "\<not> locked w \<Longrightarrow> active w s = bs_readers s"
  by (cases w) simp_all

lemma sys_okD:
  assumes "sys_ok y"
  shows "r < length (bs_objs (y_s y)) \<Longrightarrow>
      reader_ok (bs_bufflen (y_s y)) (y_sent y r) (y_got y r) (bs_objs (y_s y) ! r)"
    and "length (bs_objs (y_s y)) \<le> r \<Longrightarrow> y_written y r = [] \<and> y_sent y r = [] \<and> y_got y r = []"
    and "distinct (active (y_w y) (y_s y))"
    and "r \<in> set (active (y_w y) (y_s y)) \<longleftrightarrow>
      r < length (bs_objs (y_s y)) \<and> cr_live (bs_objs (y_s y) ! r)"
    and "\<not> ch_closed (bs_incoming (y_s y))"
    and "ch_buf (bs_close (y_s y)) = []"
    and "y_srv y @ arrived (y_s y) = concat (y_in y)"
    and "distinct (laggers_of (y_w y)) \<and> (\<forall>r \<in> set (laggers_of (y_w y)). r < length (bs_objs (y_s y)))"
  using assms unfolding sys_ok_def Let_def by auto

lemma reader_ok_new:
  "reader_ok n [] [] \<lparr>cr_read = make_chan n, cr_unread = [], cr_live = True\<rparr>"
  "reader_ok n [] [] (shut \<lparr>cr_read = make_chan n, cr_unread = [], cr_live = True\<rparr>)"
  by (simp_all add: reader_ok_def pending_def)

text \<open>A change of the readers only.\<close>

lemma sys_ok_objs:
  assumes "sys_ok y" "length (bs_objs (y_s y)) \<le> length objs"
    "\<And>r. r < length objs \<Longrightarrow> reader_ok (bs_bufflen (y_s y)) (sent r) (got r) (objs ! r)"
    "\<And>r. length objs \<le> r \<Longrightarrow> written r = [] \<and> sent r = [] \<and> got r = []"
    "distinct (active w (y_s y\<lparr>bs_objs := objs, bs_readers := rs\<rparr>))"
    "\<And>r. r \<in> set (active w (y_s y\<lparr>bs_objs := objs, bs_readers := rs\<rparr>)) \<longleftrightarrow>
      r < length objs \<and> cr_live (objs ! r)"
    "distinct (laggers_of w) \<and> (\<forall>r \<in> set (laggers_of w). r < length objs)"
  shows "sys_ok (y\<lparr>y_s := (y_s y)\<lparr>bs_objs := objs, bs_readers := rs\<rparr>, y_w := w,
    y_written := written, y_sent := sent, y_got := got\<rparr>)"
  using assms unfolding sys_ok_def Let_def arrived_def by simp

lemma sys_ok_add:
  assumes "sys_ok y" "\<not> locked (y_w y)" "AddReadWriter (y_s y) = Ret r s"
  shows "sys_ok (y\<lparr>y_s := s\<rparr>)"
proof -
  let ?s = "y_s y"
  let ?new = "\<lparr>cr_read = make_chan (bs_bufflen ?s), cr_unread = [], cr_live = True\<rparr>"
  let ?objs = "bs_objs ?s @ [if baseStream_closed ?s then shut ?new else ?new]"
  let ?rs = "bs_readers ?s @ (if baseStream_closed ?s then [] else [length (bs_objs ?s)])"
  have s: "s = ?s\<lparr>bs_objs := ?objs, bs_readers := ?rs\<rparr>"
    using assms(3) AddReadWriter_eq [OF sys_ok_lives [OF assms(1)]]
    by (cases "baseStream_closed ?s") (auto simp: Let_def)
  have "sys_ok (y\<lparr>y_s := ?s\<lparr>bs_objs := ?objs, bs_readers := ?rs\<rparr>, y_w := y_w y,
    y_written := y_written y, y_sent := y_sent y, y_got := y_got y\<rparr>)"
  proof (rule sys_ok_objs [OF assms(1)], goal_cases)
    case (2 r)
    then show ?case
      using sys_okD(1,2) [OF assms(1), of r] reader_ok_new
      by (auto simp: nth_append less_Suc_eq)
  next
    case 4
    then show ?case
      using sys_okD(3,4) [OF assms(1)] active_unlocked [OF assms(2)] by auto
  next
    case (5 r)
    then show ?case
      using sys_okD(4) [OF assms(1), of r] active_unlocked [OF assms(2)]
      by (auto simp: nth_append split: if_splits)
  qed (use sys_okD(2,8) [OF assms(1)] in \<open>auto simp: less_Suc_eq\<close>)
  then show ?thesis by (simp add: s)
qed

lemma sys_ok_remove:
  assumes "sys_ok y" "\<not> locked (y_w y)" "r < length (bs_objs (y_s y))" "RemoveReader r (y_s y) = Ret u s"
  shows "sys_ok (y\<lparr>y_s := s\<rparr>)"
proof -
  let ?s = "y_s y"
  have "sys_ok (y\<lparr>y_s := ?s\<lparr>bs_objs := (bs_objs ?s)[r := shut (bs_objs ?s ! r)],
      bs_readers := filter ((\<noteq>) r) (bs_readers ?s)\<rparr>, y_w := y_w y,
    y_written := y_written y, y_sent := y_sent y, y_got := y_got y\<rparr>)"
    by (rule sys_ok_objs [OF assms(1)])
      (use sys_okD [OF assms(1)] active_unlocked [OF assms(2)] reader_ok_shut in \<open>auto simp: nth_update\<close>)
  then show ?thesis
    using assms(4) RemoveReader_eq [OF sys_ok_lives [OF assms(1)] assms(3)] by auto
qed

lemma sys_ok_read:
  assumes "sys_ok y" "r < length (bs_objs (y_s y))"
    "chanReader_fill some (bs_objs (y_s y) ! r) = Ret True cr1" "chanReader_copy room cr1 = (bs, cr2)"
  shows "sys_ok (y\<lparr>y_s := set_reader r cr2 (y_s y), y_got := (y_got y)(r := y_got y r @ bs)\<rparr>)"
proof -
  let ?s = "y_s y"
  have act: "active (y_w y) (?s\<lparr>bs_objs := os, bs_readers := bs_readers ?s\<rparr>) = active (y_w y) ?s" for os
    by (cases "y_w y") simp_all
  have "sys_ok (y\<lparr>y_s := ?s\<lparr>bs_objs := (bs_objs ?s)[r := cr2], bs_readers := bs_readers ?s\<rparr>, y_w := y_w y,
    y_written := y_written y, y_sent := y_sent y, y_got := (y_got y)(r := y_got y r @ bs)\<rparr>)"
    by (rule sys_ok_objs [OF assms(1)])
      (use assms(2) sys_okD [OF assms(1)] act
        reader_ok_read [OF sys_okD(1) [OF assms(1,2)] assms(3,4)] in \<open>auto simp: nth_update\<close>)
  then show ?thesis by simp
qed

lemma sys_close_cases:
  assumes "sys_ok y" "\<not> locked (y_w y)" "baseStream_Close (y_s y) = Ret e s"
  obtains (closed) "s = y_s y"
    | (closes) objs where
      "s = (y_s y)\<lparr>bs_objs := objs, bs_readers := [], bs_close := (bs_close (y_s y))\<lparr>ch_closed := True\<rparr>\<rparr>"
      "length objs = length (bs_objs (y_s y))"
      "\<forall>i < length objs. objs ! i =
        (if i \<in> set (bs_readers (y_s y)) then shut (bs_objs (y_s y) ! i) else bs_objs (y_s y) ! i)"
proof (cases "baseStream_closed (y_s y)")
  case True
  then have "s = y_s y" using assms(3) by (simp add: baseStream_Close_def)
  then show ?thesis by (rule closed)
next
  case False
  have "\<forall>r \<in> set (bs_readers (y_s y)). r < length (bs_objs (y_s y))"
    using sys_okD(4) [OF assms(1)] active_unlocked [OF assms(2)] by auto
  from baseStream_Close_eq [OF sys_ok_lives [OF assms(1)] this sys_okD(6) [OF assms(1)]]
  obtain objs where "baseStream_Close (y_s y) = Ret None
      ((y_s y)\<lparr>bs_objs := objs, bs_readers := [], bs_close := (bs_close (y_s y))\<lparr>ch_closed := True\<rparr>\<rparr>)"
    "length objs = length (bs_objs (y_s y))"
    "\<forall>i < length objs. objs ! i =
        (if i \<in> set (bs_readers (y_s y)) then shut (bs_objs (y_s y) ! i) else bs_objs (y_s y) ! i)"
    using False by (elim exE) simp
  then show ?thesis using assms(3) by (intro closes [of objs]) simp_all
qed

lemma sys_ok_close:
  assumes "sys_ok y" "\<not> locked (y_w y)" "baseStream_Close (y_s y) = Ret e s"
  shows "sys_ok (y\<lparr>y_s := s\<rparr>)"
  using assms
proof (cases rule: sys_close_cases)
  case closed
  then show ?thesis using assms(1) by simp
next
  case (closes objs)
  let ?s = "y_s y"
  have act: "active (y_w y) s' = bs_readers s'" for s' using assms(2) by (rule active_unlocked)
  have "sys_ok (y\<lparr>y_s := ?s\<lparr>bs_objs := objs, bs_readers := []\<rparr>, y_w := y_w y,
    y_written := y_written y, y_sent := y_sent y, y_got := y_got y\<rparr>)"
    by (rule sys_ok_objs [OF assms(1)])
      (use closes(2,3) sys_okD [OF assms(1)] act reader_ok_shut in auto)
  then show ?thesis
    unfolding closes(1) sys_ok_def Let_def arrived_def by (simp add: act)
qed

lemma sys_ok_transfer:
  assumes "sys_ok y"
    "s = (y_s y)\<lparr>bs_incoming := (bs_incoming (y_s y))\<lparr>ch_buf := buf\<rparr>, bs_read := rd\<rparr>"
    "length buf \<le> ch_cap (bs_incoming (y_s y))"
    "srv @ arrived s = concat ins"
  shows "sys_ok (y\<lparr>y_s := s, y_in := ins, y_srv := srv\<rparr>)"
proof -
  have "active (y_w y) s = active (y_w y) (y_s y)" using assms(2) by (cases "y_w y") simp_all
  then show ?thesis
    using assms unfolding sys_ok_def Let_def by simp
qed

lemma sys_ok_incoming: "sys_ok y \<Longrightarrow> length (ch_buf (bs_incoming (y_s y))) \<le> ch_cap (bs_incoming (y_s y))"
  by (simp add: sys_ok_def Let_def)

lemma sys_ok_reader_write:
  assumes "sys_ok y" "chanReader_Write p (y_s y) = Ret (Inr n) s"
  shows "sys_ok (y\<lparr>y_s := s, y_in := y_in y @ [p]\<rparr>)"
proof -
  let ?buf = "ch_buf (bs_incoming (y_s y)) @ [p]"
  have s: "s = (y_s y)\<lparr>bs_incoming := (bs_incoming (y_s y))\<lparr>ch_buf := ?buf\<rparr>, bs_read := bs_read (y_s y)\<rparr>"
    "length ?buf \<le> ch_cap (bs_incoming (y_s y))"
    using assms(2) by (auto simp: chanReader_Write_def chan_send_def split: if_splits)
  have "sys_ok (y\<lparr>y_s := s, y_in := y_in y @ [p], y_srv := y_srv y\<rparr>)"
    using sys_okD(7) [OF assms(1), symmetric]
    by (intro sys_ok_transfer [OF assms(1) s]) (simp add: s(1) arrived_def)
  then show ?thesis by simp
qed

lemma sys_ok_stream_read:
  assumes "sys_ok y" "baseStream_Read len (y_s y) = Ret (Inr bs) s"
  shows "sys_ok (y\<lparr>y_s := s, y_srv := y_srv y @ bs\<rparr>)"
proof -
  obtain buf rd where b: "s = (y_s y)\<lparr>bs_incoming := (bs_incoming (y_s y))\<lparr>ch_buf := buf\<rparr>, bs_read := rd\<rparr>"
    "length buf \<le> length (ch_buf (bs_incoming (y_s y)))" "bs @ arrived s = arrived (y_s y)"
    using baseStream_Read_arrived [OF assms(2) sys_okD(5) [OF assms(1)]] by auto
  have "sys_ok (y\<lparr>y_s := s, y_in := y_in y, y_srv := y_srv y @ bs\<rparr>)"
    using b(2,3) sys_okD(7) [OF assms(1)] sys_ok_incoming [OF assms(1)]
    by (intro sys_ok_transfer [OF assms(1) b(1)]) simp_all
  then show ?thesis by simp
qed

lemma base_step_ok:
  assumes "base_step y y'" "sys_ok y"
  shows "sys_ok y'"
  using assms(1)
proof (cases rule: base_step.cases)
  case (add r s)
  then show ?thesis using sys_ok_add [OF assms(2)] by simp
next
  case (remove r u s)
  then show ?thesis using sys_ok_remove [OF assms(2)] by simp
next
  case (read r some cr1 room bs cr2)
  then show ?thesis using sys_ok_read [OF assms(2)] by simp
next
  case (reader_write p n s)
  then show ?thesis using sys_ok_reader_write [OF assms(2)] by simp
next
  case (stream_read len bs s)
  then show ?thesis using sys_ok_stream_read [OF assms(2)] by simp
next
  case (close e s)
  then show ?thesis using sys_ok_close [OF assms(2)] by simp
qed

text \<open>The others neither touch the writer's histories nor revive a reader.\<close>

lemma base_step_frame:
  assumes "base_step y y'" "sys_ok y"
  shows "y_w y' = y_w y" "y_written y' = y_written y" "y_sent y' = y_sent y"
    "length (bs_objs (y_s y)) \<le> length (bs_objs (y_s y'))"
    "r < length (bs_objs (y_s y)) \<Longrightarrow> cr_live (bs_objs (y_s y') ! r) \<Longrightarrow> cr_live (bs_objs (y_s y) ! r)"
proof -
  note ok = sys_ok_lives [OF assms(2)]
  have "y_w y' = y_w y \<and> y_written y' = y_written y \<and> y_sent y' = y_sent y"
    using assms(1) by cases simp_all
  then show "y_w y' = y_w y" "y_written y' = y_written y" "y_sent y' = y_sent y" by simp_all
  have "length (bs_objs (y_s y)) \<le> length (bs_objs (y_s y')) \<and>
    (r < length (bs_objs (y_s y)) \<longrightarrow> cr_live (bs_objs (y_s y') ! r) \<longrightarrow> cr_live (bs_objs (y_s y) ! r))"
    using assms(1)
  proof (cases rule: base_step.cases)
    case (add q s)
    then show ?thesis
      using AddReadWriter_eq [OF ok] by (auto simp: Let_def nth_append split: if_splits)
  next
    case (remove q u s)
    then show ?thesis
      using RemoveReader_eq [OF ok remove(3)] by (auto simp: nth_update split: if_splits)
  next
    case (read q some cr1 room bs cr2)
    then show ?thesis
      using reader_ok_read(2) [OF sys_okD(1) [OF assms(2) read(2)] read(3,4)] by (simp add: nth_update)
  next
    case (reader_write p n s)
    then show ?thesis by (auto simp: chanReader_Write_def chan_send_def split: if_splits)
  next
    case (stream_read len bs s)
    then show ?thesis using baseStream_Read_frame(1) [OF stream_read(2) sys_okD(5) [OF assms(2)]] by simp
  next
    case (close e s)
    from assms(2) close(2,3) show ?thesis
    proof (cases rule: sys_close_cases)
      case (closes objs)
      then show ?thesis using close(1) by auto
    qed (simp add: close(1))
  qed
  then show "length (bs_objs (y_s y)) \<le> length (bs_objs (y_s y'))"
    "r < length (bs_objs (y_s y)) \<Longrightarrow> cr_live (bs_objs (y_s y') ! r) \<Longrightarrow> cr_live (bs_objs (y_s y) ! r)"
    by auto
qed

end
