(* ===== verification/Stream_Delivery.thy ===== *)
theory Stream_Delivery
  imports Stream_Fanout
begin

text \<open>
  What the readers of the fan-out streams of fs/streams.go receive: everything on a blocking
  stream, everything up to the point where they are closed on a dropping stream, a subsequence of
  the slices on a skipping stream; and what arrives from them at the stream.
\<close>

section \<open>What each stream promises\<close>

text \<open>The slice a reader has still to be offered.\<close>

primrec due :: "write_state \<Rightarrow> nat \<Rightarrow> bytes list" where
  "due NoWrite r = []"
| "due (Looping p todo dn) r = (if r \<in> set todo then [p] else [])"
| "due (Sleeping p laggers) r = (if r \<in> set laggers then [p] else [])"

lemma base_step_locked:
  assumes "base_step y y'" "sys_ok y" "locked (y_w y)"
  shows "bs_readers (y_s y') = bs_readers (y_s y) \<and> active (y_w y') (y_s y') = active (y_w y) (y_s y)"
proof -
  have "bs_readers (y_s y') = bs_readers (y_s y)"
    using assms(1,3) baseStream_Read_frame(2) [OF _ sys_okD(5) [OF assms(2)]]
    by cases (auto simp: chanReader_Write_def chan_send_def split: if_splits)
  then show ?thesis
    using base_step_frame(1) [OF assms(1,2)] assms(3) by (cases "y_w y") simp_all
qed

text \<open>
  Without gaps: a live reader is sent everything, a reader closed by now a beginning of it. With
  gaps: what is sent is a subsequence.
\<close>

definition gapless :: "sys \<Rightarrow> bool" where
  "gapless y \<longleftrightarrow> (\<forall>r. prefix (y_sent y r) (y_written y r) \<and>
     (r < length (bs_objs (y_s y)) \<longrightarrow> cr_live (bs_objs (y_s y) ! r) \<longrightarrow>
       y_sent y r @ due (y_w y) r = y_written y r))"

definition gappy :: "sys \<Rightarrow> bool" where
  "gappy y \<longleftrightarrow> (\<forall>r. \<exists>w. y_written y r = w @ due (y_w y) r \<and> subseq (y_sent y r) w) \<and>
     (locked (y_w y) \<longrightarrow> bs_readers (y_s y) = active (y_w y) (y_s y))"

lemma due_new:
  assumes "sys_ok y" "length (bs_objs (y_s y)) \<le> r"
  shows "due (y_w y) r = []"
  using sys_okD(4) [OF assms(1), of r] sys_okD(8) [OF assms(1)] assms(2)
  by (cases "y_w y") auto

lemma gaplessI:
  assumes "\<And>r. prefix (y_sent y r) (y_written y r)"
    "\<And>r. r < length (bs_objs (y_s y)) \<Longrightarrow> cr_live (bs_objs (y_s y) ! r) \<Longrightarrow>
       y_sent y r @ due (y_w y) r = y_written y r"
  shows "gapless y"
  using assms unfolding gapless_def by blast

lemma gaplessD:
  assumes "gapless y"
  shows "prefix (y_sent y r) (y_written y r)"
    "r < length (bs_objs (y_s y)) \<Longrightarrow> cr_live (bs_objs (y_s y) ! r) \<Longrightarrow>
       y_sent y r @ due (y_w y) r = y_written y r"
  using assms unfolding gapless_def by blast+

lemma gapless_base:
  assumes "base_step y y'" "sys_ok y" "gapless y"
  shows "gapless y'"
proof (rule gaplessI)
  note fr = base_step_frame [OF assms(1,2)]
  fix r
  show "prefix (y_sent y' r) (y_written y' r)" using gaplessD(1) [OF assms(3)] by (simp add: fr(2,3))
  assume "cr_live (bs_objs (y_s y') ! r)"
  then show "y_sent y' r @ due (y_w y') r = y_written y' r"
    using gaplessD(2) [OF assms(3), of r] fr(5) [of r] sys_okD(2) [OF assms(2), of r] due_new [OF assms(2), of r]
    by (cases "r < length (bs_objs (y_s y))") (simp_all add: fr(1-3))
qed

lemma gappy_base: "base_step y y' \<Longrightarrow> sys_ok y \<Longrightarrow> gappy y \<Longrightarrow> gappy y'"
  using base_step_locked [of y y'] by (simp add: gappy_def base_step_frame(1-3))

lemma prefix_due: "sent @ d = written \<Longrightarrow> prefix sent written"
  by (auto simp: prefix_def)

text \<open>The dropping writer.\<close>

lemma log_slice_simps [simp]:
  "r \<in> R \<Longrightarrow> log_slice R p h r = h r @ [p]" "r \<notin> R \<Longrightarrow> log_slice R p h r = h r"
  by (simp_all add: log_slice_def)

lemma sys_ok_start:
  assumes "sys_ok y" "y_w y = NoWrite"
  shows "sys_ok (y\<lparr>y_w := Looping p (bs_readers (y_s y)) [],
      y_written := log_slice (set (bs_readers (y_s y))) p (y_written y)\<rparr>)"
proof -
  have new: "r \<notin> set (bs_readers (y_s y))" if "length (bs_objs (y_s y)) \<le> r" for r
    using sys_okD(4) [OF assms(1), of r] assms(2) that by auto
  have "sys_ok (y\<lparr>y_s := (y_s y)\<lparr>bs_objs := bs_objs (y_s y), bs_readers := bs_readers (y_s y)\<rparr>,
      y_w := Looping p (bs_readers (y_s y)) [],
      y_written := log_slice (set (bs_readers (y_s y))) p (y_written y), y_sent := y_sent y, y_got := y_got y\<rparr>)"
    by (rule sys_ok_objs [OF assms(1)])
      (use sys_okD [OF assms(1)] assms(2) new in auto)
  then show ?thesis by simp
qed

lemma sys_ok_deliver:
  assumes "sys_ok y" "y_w y = Looping p (r # todo) dn" "offer r p (y_s y) = Ret u s"
  shows "sys_ok (y\<lparr>y_s := s, y_w := Looping p todo (dn @ [r]), y_sent := log_slice {r} p (y_sent y)\<rparr>)"
proof -
  let ?cr = "bs_objs (y_s y) ! r"
  have r: "r < length (bs_objs (y_s y))" "cr_live ?cr" using sys_okD(4) [OF assms(1), of r] assms(2) by auto
  note off = assms(3) [unfolded offer_Ret]
  have push: "reader_ok (bs_bufflen (y_s y)) (y_sent y r @ [p]) (y_got y r) (push_slice p ?cr)"
    using off sys_okD(1) [OF assms(1) r(1)] by (intro reader_ok_push) (auto simp: reader_ok_def)
  have "sys_ok (y\<lparr>y_s := (y_s y)\<lparr>bs_objs := (bs_objs (y_s y))[r := push_slice p ?cr],
      bs_readers := bs_readers (y_s y)\<rparr>, y_w := Looping p todo (dn @ [r]),
      y_written := y_written y, y_sent := log_slice {r} p (y_sent y), y_got := y_got y\<rparr>)"
    by (rule sys_ok_objs [OF assms(1)])
      (use sys_okD [OF assms(1)] assms(2) r push in \<open>auto simp: nth_update log_slice_def\<close>)
  then show ?thesis using off by simp
qed

lemma sys_ok_drop:
  assumes "sys_ok y" "y_w y = Looping p (r # todo) dn" "close_reader r (y_s y) = Ret u s"
  shows "sys_ok (y\<lparr>y_s := s, y_w := Looping p todo dn\<rparr>)"
proof -
  let ?cr = "bs_objs (y_s y) ! r"
  have r: "r < length (bs_objs (y_s y))" "cr_live ?cr" using sys_okD(4) [OF assms(1), of r] assms(2) by auto
  have "sys_ok (y\<lparr>y_s := (y_s y)\<lparr>bs_objs := (bs_objs (y_s y))[r := shut ?cr],
      bs_readers := bs_readers (y_s y)\<rparr>, y_w := Looping p todo dn,
      y_written := y_written y, y_sent := y_sent y, y_got := y_got y\<rparr>)"
  proof (rule sys_ok_objs [OF assms(1)], goal_cases)
    case (5 q)
    have "q \<in> set dn \<or> q \<in> set todo \<longleftrightarrow> q \<noteq> r \<and> q < length (bs_objs (y_s y)) \<and> cr_live (bs_objs (y_s y) ! q)"
      using sys_okD(3) [OF assms(1)] sys_okD(4) [OF assms(1), of q] assms(2) by auto
    then show ?case using r by (cases "q = r") (simp_all add: nth_update)
  qed (use sys_okD(1-3) [OF assms(1)] assms(2) r reader_ok_shut in \<open>auto simp: nth_update\<close>)
  then show ?thesis using assms(3) close_reader_eq [OF sys_ok_lives [OF assms(1)] r(1)] by simp
qed

lemma live_active:
  "sys_ok y \<Longrightarrow> r < length (bs_objs (y_s y)) \<Longrightarrow> cr_live (bs_objs (y_s y) ! r) \<Longrightarrow>
     r \<in> set (active (y_w y) (y_s y))"
  by (simp add: sys_okD(4))

lemma dropping_write_ok:
  assumes "dropping_write y y'" "sys_ok y" "gapless y"
  shows "sys_ok y' \<and> gapless y'"
  using assms(1)
proof (cases rule: dropping_write.cases)
  case (start readers p)
  have "gapless y'"
    using gaplessD [OF assms(3)] live_active [OF assms(2)]
    by (intro gaplessI) (auto simp: start log_slice_def)
  then show ?thesis using sys_ok_start [OF assms(2) start(2)] start by simp
next
  case (deliver p r todo kept k s)
  then have off: "offer r p (y_s y) = Ret () s"
    by (auto simp: DroppingStream_body_def split: run.splits)
  have r: "r \<notin> set todo" "r < length (bs_objs (y_s y))" "cr_live (bs_objs (y_s y) ! r)"
    using sys_okD(3) [OF assms(2)] sys_okD(4) [OF assms(2), of r] deliver(2) by auto
  have "gapless y'"
  proof (rule gaplessI)
    fix q
    note g = gaplessD [OF assms(3), of q] and off = off [unfolded offer_Ret]
    show "prefix (y_sent y' q) (y_written y' q)"
      using g r by (cases "q = r") (simp_all add: deliver(1,2))
    assume "q < length (bs_objs (y_s y'))" "cr_live (bs_objs (y_s y') ! q)"
    then show "y_sent y' q @ due (y_w y') q = y_written y' q"
      using g r off by (cases "q = r") (simp_all add: deliver(1,2) nth_update)
  qed
  then show ?thesis using sys_ok_deliver [OF assms(2) deliver(2) off] deliver(1) by simp
next
  case (timeout p r todo kept k s)
  then have cl: "close_reader r (y_s y) = Ret () s"
    by (auto simp: DroppingStream_body_def split: run.splits)
  have r: "r < length (bs_objs (y_s y))" using sys_okD(4) [OF assms(2), of r] timeout(2) by simp
  have "gapless y'"
  proof (rule gaplessI)
    fix q
    note g = gaplessD [OF assms(3), of q]
    show "prefix (y_sent y' q) (y_written y' q)" using g(1) by (simp add: timeout(1))
    assume "q < length (bs_objs (y_s y'))" "cr_live (bs_objs (y_s y') ! q)"
    then show "y_sent y' q @ due (y_w y') q = y_written y' q"
      using g cl close_reader_eq [OF sys_ok_lives [OF assms(2)] r] r
      by (cases "q = r") (auto simp: timeout(1,2) nth_update)
  qed
  then show ?thesis using sys_ok_drop [OF assms(2) timeout(2) cl] timeout(1) by simp
next
  case (finish p kept)
  have "sys_ok (y\<lparr>y_s := (y_s y)\<lparr>bs_objs := bs_objs (y_s y), bs_readers := kept\<rparr>, y_w := NoWrite,
      y_written := y_written y, y_sent := y_sent y, y_got := y_got y\<rparr>)"
    by (rule sys_ok_objs [OF assms(2)]) (use sys_okD [OF assms(2)] finish(2) in auto)
  moreover have "gapless y'"
    using gaplessD [OF assms(3)] by (intro gaplessI) (auto simp: finish)
  ultimately show ?thesis using finish(1) by simp
qed

lemma gappyI:
  assumes "\<And>r. \<exists>w. y_written y r = w @ due (y_w y) r \<and> subseq (y_sent y r) w"
    "locked (y_w y) \<Longrightarrow> bs_readers (y_s y) = active (y_w y) (y_s y)"
  shows "gappy y"
  using assms unfolding gappy_def by blast

lemma gappyD:
  assumes "gappy y"
  obtains w where "y_written y r = w @ due (y_w y) r" "subseq (y_sent y r) w"
  using assms unfolding gappy_def by blast

lemma gappy_readers: "gappy y \<Longrightarrow> locked (y_w y) \<Longrightarrow> bs_readers (y_s y) = active (y_w y) (y_s y)"
  by (simp add: gappy_def)

lemma skipping_write_ok:
  assumes "skipping_write y y'" "sys_ok y" "gappy y"
  shows "sys_ok y' \<and> gappy y'"
  using assms(1)
proof (cases rule: skipping_write.cases)
  case (start readers p)
  have "gappy y'"
  proof (rule gappyI)
    fix r
    obtain w where "y_written y r = w @ due (y_w y) r" "subseq (y_sent y r) w"
      using assms(3) by (rule gappyD)
    then show "\<exists>w. y_written y' r = w @ due (y_w y') r \<and> subseq (y_sent y' r) w"
      by (simp add: start log_slice_def)
  qed (simp add: start)
  then show ?thesis using sys_ok_start [OF assms(2) start(2)] start by simp
next
  case (deliver p r todo dn u s)
  then have off: "offer r p (y_s y) = Ret u s" by (simp add: SkippingStream_body_def)
  have r: "r \<notin> set todo" using sys_okD(3) [OF assms(2)] deliver(2) by auto
  have "gappy y'"
  proof (rule gappyI)
    fix q
    obtain w where w: "y_written y q = w @ due (y_w y) q" "subseq (y_sent y q) w"
      using assms(3) by (rule gappyD)
    show "\<exists>w. y_written y' q = w @ due (y_w y') q \<and> subseq (y_sent y' q) w"
      using w r by (cases "q = r") (auto simp: deliver(1,2))
  next
    show "bs_readers (y_s y') = active (y_w y') (y_s y')"
      using gappy_readers [OF assms(3)] off [unfolded offer_Ret] by (simp add: deliver(1,2))
  qed
  then show ?thesis using sys_ok_deliver [OF assms(2) deliver(2) off] deliver(1) by simp
next
  case (timeout p r todo dn u s)
  then have s: "s = y_s y" by (simp add: SkippingStream_body_def)
  have r: "r \<notin> set todo" using sys_okD(3) [OF assms(2)] timeout(2) by auto
  have "gappy y'"
  proof (rule gappyI)
    fix q
    obtain w where w: "y_written y q = w @ due (y_w y) q" "subseq (y_sent y q) w"
      using assms(3) by (rule gappyD)
    show "\<exists>w. y_written y' q = w @ due (y_w y') q \<and> subseq (y_sent y' q) w"
      using w r by (cases "q = r") (auto simp: timeout(1,2))
  next
    show "bs_readers (y_s y') = active (y_w y') (y_s y')"
      using gappy_readers [OF assms(3)] by (simp add: timeout(1,2) s)
  qed
  moreover have "sys_ok (y\<lparr>y_s := (y_s y)\<lparr>bs_objs := bs_objs (y_s y), bs_readers := bs_readers (y_s y)\<rparr>,
      y_w := Looping p todo (dn @ [r]), y_written := y_written y, y_sent := y_sent y, y_got := y_got y\<rparr>)"
    by (rule sys_ok_objs [OF assms(2)]) (use sys_okD [OF assms(2)] timeout(2) in auto)
  ultimately show ?thesis using timeout(1) s by simp
next
  case (finish p dn)
  have rs: "bs_readers (y_s y) = dn" using gappy_readers [OF assms(3)] finish(2) by simp
  have "sys_ok (y\<lparr>y_s := (y_s y)\<lparr>bs_objs := bs_objs (y_s y), bs_readers := bs_readers (y_s y)\<rparr>,
      y_w := NoWrite, y_written := y_written y, y_sent := y_sent y, y_got := y_got y\<rparr>)"
    by (rule sys_ok_objs [OF assms(2)]) (use sys_okD [OF assms(2)] finish(2) rs in auto)
  moreover have "gappy y'"
  proof (rule gappyI)
    fix q
    obtain w where w: "y_written y q = w @ due (y_w y) q" "subseq (y_sent y q) w"
      using assms(3) by (rule gappyD)
    then show "\<exists>w. y_written y' q = w @ due (y_w y') q \<and> subseq (y_sent y' q) w"
      by (simp add: finish)
  qed (simp add: finish)
  ultimately show ?thesis using finish(1) by simp
qed

text \<open>The blocking writer: an attempt serves the live readers with room.\<close>

lemma attempt_ok:
  assumes "sys_ok y" "gapless y" "\<not> locked (y_w y)" "distinct rs" "\<forall>r \<in> set rs. r < length (bs_objs (y_s y))"
    "tryWrite rs p (y_s y) = Ret laggers s"
    "\<And>r. r \<in> set rs \<Longrightarrow> cr_live (bs_objs (y_s y) ! r) \<Longrightarrow> y_sent y r @ [p] = written r"
    "\<And>r. r < length (bs_objs (y_s y)) \<Longrightarrow> cr_live (bs_objs (y_s y) ! r) \<Longrightarrow> r \<notin> set rs \<Longrightarrow>
       y_sent y r = written r"
    "\<And>r. prefix (y_sent y r) (written r)"
    "\<And>r. length (bs_objs (y_s y)) \<le> r \<Longrightarrow> written r = []"
  shows "sys_ok (y\<lparr>y_s := s, y_w := Sleeping p laggers, y_written := written,
      y_sent := log_slice (accepted rs laggers (y_s y)) p (y_sent y)\<rparr>) \<and>
    gapless (y\<lparr>y_s := s, y_w := Sleeping p laggers, y_written := written,
      y_sent := log_slice (accepted rs laggers (y_s y)) p (y_sent y)\<rparr>)"
    (is "sys_ok ?y \<and> gapless ?y")
proof -
  let ?o = "bs_objs (y_s y)"
  obtain objs where o: "laggers = filter (\<lambda>r. cr_live (?o ! r) \<and> full (?o ! r)) rs"
    "s = (y_s y)\<lparr>bs_objs := objs\<rparr>" "length objs = length ?o"
    "\<forall>i < length objs. objs ! i = (if i \<in> set rs \<and> cr_live (?o ! i) \<and> \<not> full (?o ! i)
         then push_slice p (?o ! i) else ?o ! i)"
    using tryWrite_eq [OF sys_ok_lives [OF assms(1)] assms(4,5), of p] assms(6) by auto
  have acc: "r \<in> accepted rs laggers (y_s y) \<longleftrightarrow> r \<in> set rs \<and> cr_live (?o ! r) \<and> \<not> full (?o ! r)" for r
    unfolding accepted_def o(1) by auto
  have live: "cr_live (objs ! r) = cr_live (?o ! r)" if "r < length ?o" for r
    using o(3,4) that by simp
  have "sys_ok (y\<lparr>y_s := (y_s y)\<lparr>bs_objs := objs, bs_readers := bs_readers (y_s y)\<rparr>,
      y_w := Sleeping p laggers, y_written := written,
      y_sent := log_slice (accepted rs laggers (y_s y)) p (y_sent y), y_got := y_got y\<rparr>)"
  proof (rule sys_ok_objs [OF assms(1)], goal_cases)
    case (2 r)
    then have "reader_ok (bs_bufflen (y_s y)) (y_sent y r) (y_got y r) (?o ! r)"
      using sys_okD(1) [OF assms(1)] o(3) by simp
    then show ?case
      using 2 o(3,4) acc [of r] reader_ok_push [of _ _ _ "?o ! r" p]
      by (cases "r \<in> accepted rs laggers (y_s y)") (auto simp: full_def reader_ok_def)
  next
    case (3 r)
    then show ?case using sys_okD(2) [OF assms(1), of r] assms(5,10) o(3) acc [of r] by auto
  next
    case (5 r)
    then show ?case using sys_okD(4) [OF assms(1), of r] active_unlocked [OF assms(3)] live [of r] o(3) by auto
  next
    case 6
    then show ?case using assms(4,5) o(1,3) by auto
  qed (use sys_okD(3) [OF assms(1)] active_unlocked [OF assms(3)] o(3) in auto)
  moreover have "gapless ?y"
  proof (rule gaplessI)
    fix r
    show "prefix (y_sent ?y r) (y_written ?y r)"
      using assms(7) [of r] assms(9) [of r] acc [of r]
      by (cases "r \<in> accepted rs laggers (y_s y)") simp_all
    assume "r < length (bs_objs (y_s ?y))" "cr_live (bs_objs (y_s ?y) ! r)"
    then have "r < length ?o" "cr_live (?o ! r)" using o(2,3) live by auto
    then show "y_sent ?y r @ due (y_w ?y) r = y_written ?y r"
      using assms(7) [of r] assms(8) [of r] acc [of r] o(1)
      by (cases "r \<in> accepted rs laggers (y_s y)") auto
  qed
  ultimately show ?thesis using o(2) by simp
qed

lemma blocking_write_ok:
  assumes "blocking_write y y'" "sys_ok y" "gapless y"
  shows "sys_ok y' \<and> gapless y'"
  using assms(1)
proof (cases rule: blocking_write.cases)
  case (start readers p laggers s)
  note ok = sys_okD [OF assms(2)] and g = gaplessD [OF assms(3)]
  have rs: "r \<in> set readers \<longleftrightarrow> r < length (bs_objs (y_s y)) \<and> cr_live (bs_objs (y_s y) ! r)" for r
    using ok(4) [of r] start(2,3) by simp
  have "sys_ok (y\<lparr>y_s := s, y_w := Sleeping p laggers,
      y_written := log_slice (set readers) p (y_written y),
      y_sent := log_slice (accepted readers laggers (y_s y)) p (y_sent y)\<rparr>) \<and>
    gapless (y\<lparr>y_s := s, y_w := Sleeping p laggers,
      y_written := log_slice (set readers) p (y_written y),
      y_sent := log_slice (accepted readers laggers (y_s y)) p (y_sent y)\<rparr>)"
  proof (rule attempt_ok [OF assms(2,3)], goal_cases)
    case (7 r)
    then show ?case using g(1) [of r] by (simp add: log_slice_def prefix_prefix)
  qed (use start rs g(2) ok(2,3) in \<open>auto simp: log_slice_def\<close>)
  then show ?thesis using start(1) by simp
next
  case (again p readers laggers s)
  note ok = sys_okD [OF assms(2)] and g = gaplessD [OF assms(3)]
  have "sys_ok (y\<lparr>y_s := s, y_w := Sleeping p laggers, y_written := y_written y,
      y_sent := log_slice (accepted readers laggers (y_s y)) p (y_sent y)\<rparr>) \<and>
    gapless (y\<lparr>y_s := s, y_w := Sleeping p laggers, y_written := y_written y,
      y_sent := log_slice (accepted readers laggers (y_s y)) p (y_sent y)\<rparr>)"
  proof (rule attempt_ok [OF assms(2,3)], goal_cases)
    case (5 r)
    then show ?case using g(2) [of r] ok(8) again(2) by simp
  next
    case (6 r)
    then show ?case using g(2) [of r] again(2) by simp
  qed (use again g(1) ok(2,8) in auto)
  then show ?thesis using again(1) by simp
next
  case (finish p)
  have "sys_ok (y\<lparr>y_s := (y_s y)\<lparr>bs_objs := bs_objs (y_s y), bs_readers := bs_readers (y_s y)\<rparr>,
      y_w := NoWrite, y_written := y_written y, y_sent := y_sent y, y_got := y_got y\<rparr>)"
    by (rule sys_ok_objs [OF assms(2)]) (use sys_okD [OF assms(2)] finish(2) in auto)
  moreover have "gapless y'"
    using gaplessD [OF assms(3)] by (intro gaplessI) (auto simp: finish)
  ultimately show ?thesis using finish(1) by simp
qed

section \<open>Runs\<close>

definition stream_step :: "(sys \<Rightarrow> sys \<Rightarrow> bool) \<Rightarrow> sys \<Rightarrow> sys \<Rightarrow> bool" where
  "stream_step wstep y y' \<longleftrightarrow> base_step y y' \<or> wstep y y'"

definition new_stream :: "baseStream \<Rightarrow> bool" where
  "new_stream s \<longleftrightarrow> bs_objs s = [] \<and> bs_readers s = [] \<and> bs_read s = [] \<and>
     bs_incoming s = make_chan 10 \<and> bs_close s = make_chan 0"

lemma new_streams [simp]:
  "new_stream (NewDroppingStream n)" "new_stream (NewBlockingStream n)" "new_stream (NewSkippingStream n)"
  by (simp_all add: new_stream_def NewDroppingStream_def NewBlockingStream_def NewSkippingStream_def)

lemma sys_init_ok: "new_stream s \<Longrightarrow> sys_ok (sys_init s)"
  by (simp add: sys_ok_def sys_init_def new_stream_def arrived_def Let_def)

lemma gapless_init: "gapless (sys_init s)"
  by (simp add: gapless_def sys_init_def)

lemma gappy_init: "gappy (sys_init s)"
  by (simp add: gappy_def sys_init_def)

text \<open>
  A kind of stream: how it writes, and what it promises of the slices sent to its readers. The
  promise survives the writer's steps and those of everybody else, so it holds in every run; with
  it comes what holds for all of them, that the bytes read are a beginning of the slices sent,
  in both directions.
\<close>

locale fanout =
  fixes wstep :: "sys \<Rightarrow> sys \<Rightarrow> bool"
    and promise :: "sys \<Rightarrow> bool"
  assumes wstep_ok: "wstep y y' \<Longrightarrow> sys_ok y \<Longrightarrow> promise y \<Longrightarrow> sys_ok y' \<and> promise y'"
    and base_promise: "base_step y y' \<Longrightarrow> sys_ok y \<Longrightarrow> promise y \<Longrightarrow> promise y'"
    and init_promise: "promise (sys_init s)"
begin

lemma run_ok:
  assumes "(stream_step wstep)\<^sup>*\<^sup>* (sys_init s) y" "new_stream s"
  shows "sys_ok y \<and> promise y"
  using assms(1)
proof (induction rule: rtranclp_induct)
  case base
  then show ?case using sys_init_ok [OF assms(2)] init_promise by simp
next
  case (step y y')
  then show ?case
    using base_step_ok base_promise wstep_ok unfolding stream_step_def by blast
qed

lemma run_reader:
  assumes "(stream_step wstep)\<^sup>*\<^sup>* (sys_init s) y" "new_stream s" "r < length (bs_objs (y_s y))"
  shows "y_got y r @ pending (bs_objs (y_s y) ! r) = concat (y_sent y r)"
  using sys_okD(1) [of y r] run_ok [OF assms(1,2)] assms(3) by (simp add: reader_ok_def)

lemma run_stream:
  assumes "(stream_step wstep)\<^sup>*\<^sup>* (sys_init s) y" "new_stream s"
  shows "y_srv y @ arrived (y_s y) = concat (y_in y)"
  using sys_okD(7) [of y] run_ok [OF assms] by simp

end

interpretation dropping: fanout dropping_write gapless
  by unfold_locales (rule dropping_write_ok gapless_base gapless_init; assumption)+

interpretation blocking: fanout blocking_write gapless
  by unfold_locales (rule blocking_write_ok gapless_base gapless_init; assumption)+

interpretation skipping: fanout skipping_write gappy
  by unfold_locales (rule skipping_write_ok gappy_base gappy_init; assumption)+

lemma concat_prefix: "prefix xs ys \<Longrightarrow> prefix (concat xs) (concat ys)"
  by (auto simp: prefix_def)

text \<open>Progress of a blocking writer: once the live laggers have room, the next attempt is the last.\<close>

lemma blocking_finishes:
  assumes "sys_ok y" "y_w y = Sleeping p laggers"
    "\<forall>r \<in> set laggers. cr_live (bs_objs (y_s y) ! r) \<longrightarrow> \<not> full (bs_objs (y_s y) ! r)"
  shows "\<exists>y'. (stream_step blocking_write)\<^sup>*\<^sup>* y y' \<and> y_w y' = NoWrite"
proof (cases "laggers = []")
  case True
  then have "blocking_write y (y\<lparr>y_w := NoWrite\<rparr>)"
    using assms(2) by (intro blocking_write.finish) simp
  then show ?thesis
    by (intro exI [of _ "y\<lparr>y_w := NoWrite\<rparr>"]) (auto simp: stream_step_def)
next
  case False
  have l: "distinct laggers" "\<forall>r \<in> set laggers. r < length (bs_objs (y_s y))"
    using sys_okD(8) [OF assms(1)] assms(2) by auto
  have "filter (\<lambda>r. cr_live (bs_objs (y_s y) ! r) \<and> full (bs_objs (y_s y) ! r)) laggers = []"
    using assms(3) by (auto simp: filter_empty_conv)
  then obtain s where s: "tryWrite laggers p (y_s y) = Ret [] s"
    using tryWrite_eq [OF sys_ok_lives [OF assms(1)] l, of p] by auto
  let ?y = "y\<lparr>y_s := s, y_w := Sleeping p [],
      y_sent := log_slice (accepted laggers [] (y_s y)) p (y_sent y)\<rparr>"
  have "blocking_write y ?y" by (rule blocking_write.again [OF assms(2) False s])
  moreover have "blocking_write ?y (?y\<lparr>y_w := NoWrite\<rparr>)" by (rule blocking_write.finish) simp
  ultimately have "(stream_step blocking_write)\<^sup>*\<^sup>* y (?y\<lparr>y_w := NoWrite\<rparr>)"
    by (metis (no_types, lifting) r_into_rtranclp rtranclp_trans stream_step_def)
  then show ?thesis by (intro exI [of _ "?y\<lparr>y_w := NoWrite\<rparr>"]) simp
qed

text \<open>No writer sends on a closed channel.\<close>

lemma looping_send_open:
  assumes "sys_ok y" "y_w y = Looping p (r # todo) dn"
  shows "offer r p (y_s y) \<noteq> Panics"
  using sys_okD(4) [OF assms(1), of r] sys_okD(1) [OF assms(1), of r] assms(2)
  by (simp add: offer_Panics reader_ok_def)

end
