(* ===== verification/Stream_Progress.thy ===== *)
theory Stream_Progress
  imports Stream_Delivery
begin

text \<open>
  Progress on a blocking stream of fs/streams.go: whatever the writer is waiting for, reads by its
  readers let it finish.
\<close>

section \<open>Reads make room\<close>

lemma read_one:
  assumes "r < length (bs_objs (y_s y))" "chanReader_fill False (bs_objs (y_s y) ! r) = Ret True cr1"
  shows "base_step y (y\<lparr>y_s := set_reader r (cr1\<lparr>cr_unread := []\<rparr>) (y_s y),
           y_got := (y_got y)(r := y_got y r @ cr_unread cr1)\<rparr>)"
  by (rule base_step.read [OF assms, of "length (cr_unread cr1)"]) (simp add: chanReader_copy_def)

lemma reader_makes_room:
  assumes "r < length (bs_objs (y_s y))" "ch_buf (cr_read (bs_objs (y_s y) ! r)) = b # xs"
  shows "\<exists>g. base_step\<^sup>*\<^sup>* y (y\<lparr>y_s := set_reader r ((bs_objs (y_s y) ! r)\<lparr>cr_read := (cr_read (bs_objs (y_s y) ! r))\<lparr>ch_buf := xs\<rparr>,
      cr_unread := []\<rparr>) (y_s y), y_got := g\<rparr>)"
proof -
  let ?cr = "bs_objs (y_s y) ! r"
  have fill: "chanReader_fill False cr = Ret True (cr\<lparr>cr_read := (cr_read cr)\<lparr>ch_buf := xs\<rparr>, cr_unread := b\<rparr>)"
    if "cr_unread cr = []" "ch_buf (cr_read cr) = b # xs" for cr
    using that by (simp add: chanReader_fill_True)
  show ?thesis
  proof (cases "cr_unread ?cr = []")
    case True
    have "base_step y (y\<lparr>y_s := set_reader r (?cr\<lparr>cr_read := (cr_read ?cr)\<lparr>ch_buf := xs\<rparr>, cr_unread := []\<rparr>) (y_s y),
        y_got := (y_got y)(r := y_got y r @ b)\<rparr>)"
      using read_one [OF assms(1) fill [OF True assms(2)]] by simp
    then show ?thesis by (intro exI [of _ "(y_got y)(r := y_got y r @ b)"]) (rule r_into_rtranclp)
  next
    case False
    then have "chanReader_fill False ?cr = Ret True ?cr" by (simp add: chanReader_fill_True)
    note s1 = read_one [OF assms(1) this]
    let ?y = "y\<lparr>y_s := set_reader r (?cr\<lparr>cr_unread := []\<rparr>) (y_s y), y_got := (y_got y)(r := y_got y r @ cr_unread ?cr)\<rparr>"
    have r: "r < length (bs_objs (y_s ?y))" "bs_objs (y_s ?y) ! r = ?cr\<lparr>cr_unread := []\<rparr>" using assms(1) by simp_all
    have "base_step ?y (y\<lparr>y_s := set_reader r (?cr\<lparr>cr_read := (cr_read ?cr)\<lparr>ch_buf := xs\<rparr>, cr_unread := []\<rparr>) (y_s y),
        y_got := (y_got ?y)(r := y_got ?y r @ b)\<rparr>)"
      using read_one [OF r(1), unfolded r(2), OF fill] assms(2) by simp
    then show ?thesis
      by (intro exI [of _ "(y_got ?y)(r := y_got ?y r @ b)"])
        (rule converse_rtranclp_into_rtranclp [of base_step, OF s1 r_into_rtranclp])
  qed
qed

definition roomy :: "baseStream \<Rightarrow> nat \<Rightarrow> bool" where
  "roomy s r \<longleftrightarrow> \<not> full (bs_objs s ! r)"

lemma base_steps_ok: "base_step\<^sup>*\<^sup>* y y' \<Longrightarrow> sys_ok y \<Longrightarrow> sys_ok y'"
  by (induction rule: rtranclp_induct) (auto intro: base_step_ok)

lemma readers_make_room:
  assumes "sys_ok y" "0 < bs_bufflen (y_s y)" "\<forall>r \<in> set rs. r < length (bs_objs (y_s y))"
  shows "\<exists>y'. base_step\<^sup>*\<^sup>* y y' \<and> sys_ok y' \<and> y_w y' = y_w y \<and>
     (\<forall>r \<in> set rs. roomy (y_s y') r) \<and> length (bs_objs (y_s y')) = length (bs_objs (y_s y)) \<and> bs_bufflen (y_s y') = bs_bufflen (y_s y)"
  using assms(3)
proof (induction rs)
  case Nil
  then show ?case using assms(1) by auto
next
  case (Cons r rs)
  then obtain y1 where y1: "base_step\<^sup>*\<^sup>* y y1" "sys_ok y1" "y_w y1 = y_w y" "\<forall>r \<in> set rs. roomy (y_s y1) r"
    "length (bs_objs (y_s y1)) = length (bs_objs (y_s y))" "bs_bufflen (y_s y1) = bs_bufflen (y_s y)"
    by auto
  have r: "r < length (bs_objs (y_s y1))" using Cons.prems y1(5) by auto
  have cap: "ch_cap (cr_read (bs_objs (y_s y1) ! r)) = bs_bufflen (y_s y1)"
    "length (ch_buf (cr_read (bs_objs (y_s y1) ! r))) \<le> bs_bufflen (y_s y1)"
    using sys_okD(1) [OF y1(2) r] by (simp_all add: reader_ok_def)
  show ?case
  proof (cases "ch_buf (cr_read (bs_objs (y_s y1) ! r))")
    case Nil
    then have "roomy (y_s y1) r" using cap assms(2) y1(6) by (simp add: roomy_def full_def)
    then show ?thesis using y1 by auto
  next
    case (Cons b xs)
    from reader_makes_room [OF r Cons] obtain g where g: "base_step\<^sup>*\<^sup>* y1 (y1\<lparr>y_s := set_reader r ((bs_objs (y_s y1) ! r)\<lparr>cr_read := (cr_read (bs_objs (y_s y1) ! r))\<lparr>ch_buf := xs\<rparr>,
      cr_unread := []\<rparr>) (y_s y1), y_got := g\<rparr>)" (is "base_step\<^sup>*\<^sup>* y1 ?y") ..
    have "roomy (y_s ?y) q" if "q = r \<or> roomy (y_s y1) q" for q
      using that cap Cons r by (cases "q = r") (auto simp: roomy_def full_def)
    moreover have "sys_ok ?y" using base_steps_ok [OF g y1(2)] .
    moreover have "base_step\<^sup>*\<^sup>* y ?y" using y1(1) g by (rule rtranclp_trans)
    ultimately show ?thesis using y1(3-) by (intro exI [of _ ?y]) simp
  qed
qed

text \<open>
  So a blocking writer is never stuck: reads by its readers let it finish.
\<close>

lemma blocking_can_finish:
  assumes "sys_ok y" "0 < bs_bufflen (y_s y)" "y_w y = Sleeping p laggers"
  shows "\<exists>y'. (stream_step blocking_write)\<^sup>*\<^sup>* y y' \<and> y_w y' = NoWrite"
proof -
  have "\<forall>r \<in> set laggers. r < length (bs_objs (y_s y))" using sys_okD(8) [OF assms(1)] assms(3) by simp
  from readers_make_room [OF assms(1,2) this] obtain y1 where y1: "base_step\<^sup>*\<^sup>* y y1" "sys_ok y1"
    "y_w y1 = y_w y" "\<forall>r \<in> set laggers. roomy (y_s y1) r" by blast
  have "(stream_step blocking_write)\<^sup>*\<^sup>* y y1"
    using y1(1) by (rule mono_rtranclp [rule_format, rotated]) (simp add: stream_step_def)
  moreover obtain y' where "(stream_step blocking_write)\<^sup>*\<^sup>* y1 y'" "y_w y' = NoWrite"
    using blocking_finishes [OF y1(2)] y1(3,4) assms(3) by (auto simp: roomy_def)
  ultimately show ?thesis by (auto intro: rtranclp_trans)
qed

section \<open>The length of the channels never changes\<close>

lemma close_bufflen:
  assumes "sys_ok y" "baseStream_Close (y_s y) = Ret e s" "\<not> locked (y_w y)"
  shows "bs_bufflen s = bs_bufflen (y_s y)"
proof -
  have "active (y_w y) (y_s y) = bs_readers (y_s y)" using assms(3) by (cases "y_w y") simp_all
  then have "\<forall>r \<in> set (bs_readers (y_s y)). r < length (bs_objs (y_s y))"
    using sys_okD(4) [OF assms(1)] by simp
  from baseStream_Close_eq [OF sys_ok_lives [OF assms(1)] this sys_okD(6) [OF assms(1)]]
  obtain objs where "baseStream_Close (y_s y) = Ret None (if baseStream_closed (y_s y) then y_s y
      else (y_s y)\<lparr>bs_objs := objs, bs_readers := [], bs_close := (bs_close (y_s y))\<lparr>ch_closed := True\<rparr>\<rparr>)" by blast
  then show ?thesis using assms(2) by (auto split: if_splits)
qed

lemma base_step_bufflen:
  assumes "base_step y y'" "sys_ok y"
  shows "bs_bufflen (y_s y') = bs_bufflen (y_s y)"
  using assms(1)
proof cases
  case (add r s)
  then show ?thesis using AddReadWriter_eq [OF sys_ok_lives [OF assms(2)]] by (auto simp: Let_def split: if_splits)
next
  case (remove r u s)
  then show ?thesis using RemoveReader_eq [OF sys_ok_lives [OF assms(2)]] by auto
next
  case (reader_write p n s)
  then show ?thesis by (auto simp: chanReader_Write_def chan_send_def split: if_splits)
next
  case (stream_read len bs s)
  obtain buf rd where "s = (y_s y)\<lparr>bs_incoming := (bs_incoming (y_s y))\<lparr>ch_buf := buf\<rparr>, bs_read := rd\<rparr>"
    using baseStream_Read_arrived [OF stream_read(2) sys_okD(5) [OF assms(2)]] by blast
  then show ?thesis using stream_read(1) by simp
next
  case (close e s)
  then show ?thesis using close_bufflen [OF assms(2) close(3,2)] by simp
qed simp

lemma writer_readers:
  assumes "sys_ok y" "y_w y = NoWrite" "readers = bs_readers (y_s y)"
  shows "distinct readers" "\<forall>r \<in> set readers. r < length (bs_objs (y_s y))"
  using sys_okD(3) [OF assms(1)] sys_okD(4) [OF assms(1)] assms(2,3) by simp_all

lemma blocking_bufflen:
  assumes "blocking_write y y'" "sys_ok y"
  shows "bs_bufflen (y_s y') = bs_bufflen (y_s y)"
  using assms(1)
proof cases
  case (start readers p laggers s)
  obtain objs where "s = (y_s y)\<lparr>bs_objs := objs\<rparr>"
    using tryWrite_eq [OF sys_ok_lives [OF assms(2)] writer_readers [OF assms(2) start(2,3)], of p] start(4) by auto
  then show ?thesis using start(1) by simp
next
  case (again p readers laggers s)
  obtain objs where "s = (y_s y)\<lparr>bs_objs := objs\<rparr>"
    using tryWrite_eq [OF sys_ok_lives [OF assms(2)], of readers p] sys_okD(8) [OF assms(2)] again(2,4) by auto
  then show ?thesis using again(1) by simp
qed simp

lemma blocking_run_bufflen:
  assumes "(stream_step blocking_write)\<^sup>*\<^sup>* (sys_init (NewBlockingStream n)) y"
  shows "bs_bufflen (y_s y) = n"
  using assms
proof (induction rule: rtranclp_induct)
  case base
  then show ?case by (simp add: sys_init_def NewBlockingStream_def)
next
  case (step y y')
  have "sys_ok y" using blocking.run_ok [OF step(1)] by simp
  then show ?case using step base_step_bufflen blocking_bufflen unfolding stream_step_def by metis
qed

section \<open>Why the reader list must not change before the first attempt\<close>

text \<open>
  \<^verbatim>\<open>Write\<close> evaluates \<^verbatim>\<open>s.readers\<close> before \<^verbatim>\<open>tryWrite\<close> takes the lock, and
  \<^verbatim>\<open>RemoveReader\<close> compacts the array in place. The runs take both as one step. Without
  that, a writer that has seen two readers finds the array [1, 1] after the removal of reader 0, and
  the attempt delivers its slice to reader 1 twice.
\<close>

lemma stale_readers_duplicate:
  assumes "s = (NewBlockingStream 10)\<lparr>bs_objs := [cr, cr], bs_readers := [0, 1]\<rparr>"
    "cr = \<lparr>cr_read = make_chan 10, cr_unread = [], cr_live = True\<rparr>" "RemoveReader 0 s = Ret u s1"
  shows "\<exists>s2. tryWrite (bs_readers s1 @ drop (length (bs_readers s1)) (bs_readers s)) p s1 = Ret [] s2 \<and>
    ch_buf (cr_read (bs_objs s2 ! 1)) = [p, p]"
proof -
  have "lives_ok s" "0 < length (bs_objs s)"
    using assms(1,2) by (auto simp: lives_ok_def make_chan_def nth_Cons split: nat.splits)
  from RemoveReader_eq [OF this] assms(1,3)
  have "s1 = s\<lparr>bs_objs := [shut cr, cr], bs_readers := [1]\<rparr>" by simp
  then show ?thesis
    using assms(1,2) by (simp add: offer_def chan_send_def make_chan_def NewBlockingStream_def)
qed

end
