(* ===== verification/Stream_Saved.thy ===== *)
theory Stream_Saved
  imports Go_Chan "HOL-Library.Sublist"
begin

text \<open>
  The two streams of fs/streams.go that do not embed the base stream: the file-backed
  \<^verbatim>\<open>SavedStream\<close> with its file readers and the \<^verbatim>\<open>SingleStream\<close> with its two semaphores.
  The operating system's file is its contents \<open>sv_disk\<close>, which only the stream appends to; a
  call into it that may fail takes its failure as an argument.
\<close>

section \<open>File readers\<close>

text \<open>\<open>fr_file\<close> tells that the field \<^verbatim>\<open>f\<close> is not nil, \<open>fr_off\<close> is the position in it.\<close>

record fileReader =
  fr_file :: bool
  fr_off :: nat
  fr_signal :: "unit chan"
  fr_live :: bool

definition fileReader_Close :: "fileReader \<Rightarrow> fileReader" where
  "fileReader_Close r = (if fr_file r then r\<lparr>fr_file := False, fr_live := False\<rparr> else r\<lparr>fr_live := False\<rparr>)"

text \<open>
  At the end of the file \<^verbatim>\<open>Read\<close> waits for a signal; the timer only makes it look again, so a
  reader with no signal waits.
\<close>

function fileReader_Read ::
    "go_error option \<Rightarrow> nat \<Rightarrow> bytes \<Rightarrow> fileReader \<Rightarrow> (go_error + bytes, fileReader) run" where
  "fileReader_Read fault len disk r =
     (if \<not> fr_live r then Ret (Inl EOF) r
      else case fault of
        Some e \<Rightarrow> Ret (Inl e) r
      | None \<Rightarrow>
          (let bs = take len (drop (fr_off r) disk)
           in if len = 0 \<or> bs \<noteq> [] then Ret (Inr bs) (r\<lparr>fr_off := fr_off r + length bs\<rparr>)
              else case chan_recv (fr_signal r) of
                     Ret (Some _) ch \<Rightarrow> fileReader_Read fault len disk (r\<lparr>fr_signal := ch\<rparr>)
                   | Ret None ch \<Rightarrow> Ret (Inl EOF) (fileReader_Close r)
                   | Block ch \<Rightarrow> Block r
                   | Panics \<Rightarrow> Panics))"
  by pat_completeness auto
termination by (relation "measure (\<lambda>(fault, len, disk, r). length (ch_buf (fr_signal r)))") auto

declare fileReader_Read.simps [simp del]

section \<open>The saved stream\<close>

text \<open>\<open>sv_open\<close> tells that the field \<^verbatim>\<open>f\<close> is not nil; readers are addresses into \<open>sv_objs\<close>.\<close>

record SavedStream =
  sv_disk :: bytes
  sv_open :: bool
  sv_objs :: "fileReader list"
  sv_readers :: "nat list"
  sv_closed :: bool

definition NewSavedStream :: "go_error option \<Rightarrow> bytes \<Rightarrow> go_error + SavedStream" where
  "NewSavedStream fault disk =
     (case fault of
        Some e \<Rightarrow> Inl e
      | None \<Rightarrow> Inr \<lparr>sv_disk = disk, sv_open = True, sv_objs = [], sv_readers = [], sv_closed = False\<rparr>)"

definition SavedStream_length :: "SavedStream \<Rightarrow> u64" where
  "SavedStream_length s = (if sv_open s then of_nat (length (sv_disk s)) else 0)"

definition SavedStream_AddReader :: "go_error option \<Rightarrow> SavedStream \<Rightarrow> (nat, SavedStream) run" where
  "SavedStream_AddReader fault s =
     (let r = length (sv_objs s)
      in case fault of
           Some e \<Rightarrow>
             Ret r (s\<lparr>sv_objs := sv_objs s @
               [\<lparr>fr_file = False, fr_off = 0, fr_signal = make_chan 0, fr_live = False\<rparr>]\<rparr>)
         | None \<Rightarrow>
             (let reader = \<lparr>fr_file = True, fr_off = 0, fr_signal = make_chan 1, fr_live = True\<rparr>
              in if sv_closed s
                 then (case chan_close (fr_signal reader) of
                         Ret _ ch \<Rightarrow> Ret r (s\<lparr>sv_objs := sv_objs s @ [reader\<lparr>fr_signal := ch\<rparr>]\<rparr>)
                       | Block _ \<Rightarrow> Block s
                       | Panics \<Rightarrow> Panics)
                 else Ret r (s\<lparr>sv_objs := sv_objs s @ [reader], sv_readers := sv_readers s @ [r]\<rparr>)))"

definition SavedStream_RemoveReader :: "nat \<Rightarrow> SavedStream \<Rightarrow> SavedStream" where
  "SavedStream_RemoveReader r s =
     s\<lparr>sv_readers := compact (\<lambda>reader. r \<noteq> reader) (sv_readers s),
       sv_objs := (sv_objs s)[r := fileReader_Close (sv_objs s ! r)]\<rparr>"

text \<open>The loop that wakes the live readers; the others leave the list.\<close>

primrec notify :: "nat list \<Rightarrow> SavedStream \<Rightarrow> (nat list, SavedStream) run" where
  "notify [] s = Ret [] s"
| "notify (r # rs) s =
     (if fr_live (sv_objs s ! r)
      then (case (case chan_send () (fr_signal (sv_objs s ! r)) of
                    Ret _ ch \<Rightarrow> Ret () (s\<lparr>sv_objs := (sv_objs s)[r := (sv_objs s ! r)\<lparr>fr_signal := ch\<rparr>]\<rparr>)
                  | Block _ \<Rightarrow> Ret () s
                  | Panics \<Rightarrow> Panics) of
              Ret _ s1 \<Rightarrow>
                (case notify rs s1 of
                   Ret kept s2 \<Rightarrow> Ret (r # kept) s2 | Block s2 \<Rightarrow> Block s2 | Panics \<Rightarrow> Panics)
            | Block s1 \<Rightarrow> Block s1
            | Panics \<Rightarrow> Panics)
      else notify rs s)"

text \<open>\<open>fault\<close>, if any, is how many bytes were written and the error of the file's \<^verbatim>\<open>Write\<close>.\<close>

definition SavedStream_Write ::
    "(nat \<times> go_error) option \<Rightarrow> bytes \<Rightarrow> SavedStream \<Rightarrow> (nat \<times> go_error option, SavedStream) run" where
  "SavedStream_Write fault p s =
     (if sv_closed s then Ret (0, Some EOF) s
      else case fault of
        Some (n, e) \<Rightarrow> Ret (n, Some e) (s\<lparr>sv_disk := sv_disk s @ take n p\<rparr>)
      | None \<Rightarrow>
          (case notify (sv_readers s) (s\<lparr>sv_disk := sv_disk s @ p\<rparr>) of
             Ret kept s1 \<Rightarrow> Ret (length p, None) (s1\<lparr>sv_readers := kept\<rparr>)
           | Block s1 \<Rightarrow> Block s1
           | Panics \<Rightarrow> Panics))"

primrec close_signals :: "nat list \<Rightarrow> SavedStream \<Rightarrow> (unit, SavedStream) run" where
  "close_signals [] s = Ret () s"
| "close_signals (r # rs) s =
     (case chan_close (fr_signal (sv_objs s ! r)) of
        Ret _ ch \<Rightarrow> close_signals rs (s\<lparr>sv_objs := (sv_objs s)[r := (sv_objs s ! r)\<lparr>fr_signal := ch\<rparr>]\<rparr>)
      | Block _ \<Rightarrow> Block s
      | Panics \<Rightarrow> Panics)"

definition SavedStream_Close :: "SavedStream \<Rightarrow> (go_error option, SavedStream) run" where
  "SavedStream_Close s =
     (case close_signals (sv_readers s) s of
        Ret _ s1 \<Rightarrow> Ret None (s1\<lparr>sv_closed := True, sv_readers := [], sv_open := False\<rparr>)
      | Block s1 \<Rightarrow> Block s1
      | Panics \<Rightarrow> Panics)"

section \<open>The single stream\<close>

text \<open>
  A \<^verbatim>\<open>*singleStreamReader\<close> is a number; the reader's methods work on the stream it points to.
\<close>

record SingleStream =
  ss_buffer :: bytes
  ss_writesem :: "unit chan"
  ss_readsem :: "unit chan"
  ss_closed :: "unit chan"
  ss_reader :: "nat option"
  ss_next :: nat

definition NewSingleStream :: "SingleStream" where
  "NewSingleStream =
     \<lparr>ss_buffer = [], ss_writesem = (make_chan 1)\<lparr>ch_buf := [()]\<rparr>, ss_readsem = make_chan 1,
      ss_closed = make_chan 0, ss_reader = None, ss_next = 0\<rparr>"

definition SingleStream_isClosed :: "SingleStream \<Rightarrow> bool" where
  "SingleStream_isClosed s =
     (case chan_recv (ss_closed s) of Block _ \<Rightarrow> False | Ret _ _ \<Rightarrow> True | Panics \<Rightarrow> False)"

definition singleStreamReader_Read :: "nat \<Rightarrow> SingleStream \<Rightarrow> (go_error + bytes, SingleStream) run" where
  "singleStreamReader_Read len s =
     (case chan_recv (ss_readsem s) of
        Block _ \<Rightarrow> Block s
      | Panics \<Rightarrow> Panics
      | Ret _ ch \<Rightarrow>
          (let s1 = s\<lparr>ss_readsem := ch\<rparr>
           in if SingleStream_isClosed s1 then Ret (Inr []) s1
              else (let bs = take len (ss_buffer s1);
                        s2 = s1\<lparr>ss_buffer := drop len (ss_buffer s1)\<rparr>
                    in if ss_buffer s2 = []
                       then (case chan_send () (ss_writesem s2) of
                               Ret _ c \<Rightarrow> Ret (Inr bs) (s2\<lparr>ss_writesem := c\<rparr>)
                             | Block _ \<Rightarrow> Block s2
                             | Panics \<Rightarrow> Panics)
                       else (case chan_send () (ss_readsem s2) of
                               Ret _ c \<Rightarrow> Ret (Inr bs) (s2\<lparr>ss_readsem := c\<rparr>)
                             | Block _ \<Rightarrow> Block s2
                             | Panics \<Rightarrow> Panics))))"

definition SingleStream_AddReader :: "SingleStream \<Rightarrow> nat option \<times> SingleStream" where
  "SingleStream_AddReader s =
     (if ss_reader s \<noteq> None then (None, s)
      else (Some (ss_next s), s\<lparr>ss_reader := Some (ss_next s), ss_next := Suc (ss_next s)\<rparr>))"

definition SingleStream_RemoveReader :: "nat \<Rightarrow> SingleStream \<Rightarrow> SingleStream" where
  "SingleStream_RemoveReader r s =
     (if ss_reader s = None then s
      else if ss_reader s \<noteq> Some r then s
      else s\<lparr>ss_reader := None\<rparr>)"

definition SingleStream_Write :: "bytes \<Rightarrow> SingleStream \<Rightarrow> (go_error + nat, SingleStream) run" where
  "SingleStream_Write p s =
     (case chan_recv (ss_writesem s) of
        Block _ \<Rightarrow> Block s
      | Panics \<Rightarrow> Panics
      | Ret _ ch \<Rightarrow>
          (let s1 = s\<lparr>ss_writesem := ch, ss_buffer := p\<rparr>
           in case chan_send () (ss_readsem s1) of
                Ret _ c \<Rightarrow> Ret (Inr (length p)) (s1\<lparr>ss_readsem := c\<rparr>)
              | Block _ \<Rightarrow> Block s1
              | Panics \<Rightarrow> Panics))"

definition SingleStream_Close :: "SingleStream \<Rightarrow> (go_error option, SingleStream) run" where
  "SingleStream_Close s =
     (if SingleStream_isClosed s then Ret None s
      else case chan_close (ss_closed s) of
             Ret _ c \<Rightarrow>
               (case chan_close (ss_readsem s) of
                  Ret _ d \<Rightarrow> Ret None (s\<lparr>ss_closed := c, ss_readsem := d\<rparr>)
                | Block _ \<Rightarrow> Block s
                | Panics \<Rightarrow> Panics)
           | Block _ \<Rightarrow> Block s
           | Panics \<Rightarrow> Panics)"

definition SingleStream_length :: "SingleStream \<Rightarrow> u64" where
  "SingleStream_length s = 0"

section \<open>Runs of a saved stream\<close>

text \<open>
  The histories: the file's contents when the stream was made, the bytes written since, and what
  each reader has read.
\<close>

record saved =
  v_s :: SavedStream
  v_start :: bytes
  v_written :: bytes
  v_got :: "nat \<Rightarrow> bytes"

definition saved_init :: "bytes \<Rightarrow> SavedStream \<Rightarrow> saved" where
  "saved_init disk s = \<lparr>v_s = s, v_start = disk, v_written = [], v_got = (\<lambda>_. [])\<rparr>"

definition read_bytes :: "go_error + bytes \<Rightarrow> bytes" where
  "read_bytes d = (case d of Inr bs \<Rightarrow> bs | Inl e \<Rightarrow> [])"

definition saved_bytes :: "(nat \<times> go_error) option \<Rightarrow> bytes \<Rightarrow> SavedStream \<Rightarrow> bytes" where
  "saved_bytes fault p s =
     (if sv_closed s then [] else case fault of None \<Rightarrow> p | Some (n, _) \<Rightarrow> take n p)"

inductive saved_step :: "saved \<Rightarrow> saved \<Rightarrow> bool" where
  add: "SavedStream_AddReader fault (v_s v) = Ret r s \<Longrightarrow> saved_step v (v\<lparr>v_s := s\<rparr>)"
| remove: "r < length (sv_objs (v_s v)) \<Longrightarrow>
    saved_step v (v\<lparr>v_s := SavedStream_RemoveReader r (v_s v)\<rparr>)"
| read: "r < length (sv_objs (v_s v)) \<Longrightarrow>
    fileReader_Read fault len (sv_disk (v_s v)) (sv_objs (v_s v) ! r) = Ret d fr \<Longrightarrow>
    saved_step v (v\<lparr>v_s := (v_s v)\<lparr>sv_objs := (sv_objs (v_s v))[r := fr]\<rparr>,
      v_got := (v_got v)(r := v_got v r @ read_bytes d)\<rparr>)"
| append: "SavedStream_Write fault p (v_s v) = Ret res s \<Longrightarrow>
    saved_step v (v\<lparr>v_s := s, v_written := v_written v @ saved_bytes fault p (v_s v)\<rparr>)"
| close: "SavedStream_Close (v_s v) = Ret e s \<Longrightarrow> saved_step v (v\<lparr>v_s := s\<rparr>)"

text \<open>What a read of a live reader at the given position gives.\<close>

lemma fileReader_Read_data:
  assumes "fr_live r" "len = 0 \<or> fr_off r < length disk"
  shows "fileReader_Read None len disk r =
    Ret (Inr (take len (drop (fr_off r) disk))) (r\<lparr>fr_off := fr_off r + length (take len (drop (fr_off r) disk))\<rparr>)"
  using assms by (auto simp: fileReader_Read.simps [of None len disk r] Let_def)

lemma fileReader_Read_end:
  assumes "fr_live r" "0 < len" "length disk \<le> fr_off r"
  shows "fileReader_Read None len disk r =
    (let r' = r\<lparr>fr_signal := (fr_signal r)\<lparr>ch_buf := []\<rparr>\<rparr>
     in if ch_closed (fr_signal r) then Ret (Inl EOF) (fileReader_Close r') else Block r')"
  using assms
proof (induction "ch_buf (fr_signal r)" arbitrary: r)
  case Nil
  then show ?case
    by (subst fileReader_Read.simps, cases r, cases "fr_signal r") (simp add: chan_recv_def Let_def)
next
  case (Cons x xs)
  let ?r = "r\<lparr>fr_signal := (fr_signal r)\<lparr>ch_buf := xs\<rparr>\<rparr>"
  have "fileReader_Read None len disk r = fileReader_Read None len disk ?r"
    using Cons.prems Cons.hyps(2) [symmetric]
    by (subst fileReader_Read.simps) (simp add: chan_recv_def)
  then show ?case using Cons.hyps(1) [of ?r] Cons.prems by (simp add: Let_def)
qed

lemma fileReader_Read_Ret:
  assumes "fileReader_Read fault len disk r = Ret d r'"
  shows "case d of
      Inr bs \<Rightarrow> bs = take len (drop (fr_off r) disk) \<and> fr_off r' = fr_off r + length bs \<and> fr_live r' = fr_live r \<and>
        fr_signal r' = fr_signal r
    | Inl e \<Rightarrow> fr_off r' = fr_off r \<and> ch_closed (fr_signal r') = ch_closed (fr_signal r) \<and>
        (fr_live r' \<longrightarrow> fr_live r) \<and>
        (fault = None \<and> fr_live r \<longrightarrow> e = EOF \<and> length disk \<le> fr_off r \<and> ch_closed (fr_signal r))"
proof (cases "fr_live r \<and> fault = None")
  case True
  show ?thesis
  proof (cases "len = 0 \<or> fr_off r < length disk")
    case False
    then show ?thesis
      using assms True fileReader_Read_end [of r len disk]
      by (auto simp: Let_def fileReader_Close_def split: if_splits)
  qed (use assms True fileReader_Read_data [of r len disk] in auto)
next
  case False
  then show ?thesis
    using assms by (subst (asm) fileReader_Read.simps) (auto split: if_splits option.splits)
qed

text \<open>
  Each reader has read a beginning of the file; the readers the stream lists can be signalled, and
  a signal channel is closed only after the stream.
\<close>

definition file_reader_ok :: "saved \<Rightarrow> nat \<Rightarrow> bool" where
  "file_reader_ok v r \<longleftrightarrow> (let fr = sv_objs (v_s v) ! r in
     fr_off fr \<le> length (sv_disk (v_s v)) \<and> v_got v r = take (fr_off fr) (sv_disk (v_s v)) \<and>
     (ch_closed (fr_signal fr) \<longrightarrow> sv_closed (v_s v)))"

definition saved_ok :: "saved \<Rightarrow> bool" where
  "saved_ok v \<longleftrightarrow> sv_disk (v_s v) = v_start v @ v_written v \<and>
     (\<forall>r < length (sv_objs (v_s v)). file_reader_ok v r) \<and>
     (\<forall>r \<ge> length (sv_objs (v_s v)). v_got v r = []) \<and>
     distinct (sv_readers (v_s v)) \<and>
     (\<forall>r \<in> set (sv_readers (v_s v)). r < length (sv_objs (v_s v)) \<and>
        \<not> ch_closed (fr_signal (sv_objs (v_s v) ! r)))"

lemma saved_okD:
  assumes "saved_ok v"
  shows "sv_disk (v_s v) = v_start v @ v_written v"
    and "r < length (sv_objs (v_s v)) \<Longrightarrow> file_reader_ok v r"
    and "length (sv_objs (v_s v)) \<le> r \<Longrightarrow> v_got v r = []"
    and "distinct (sv_readers (v_s v))"
    and "r \<in> set (sv_readers (v_s v)) \<Longrightarrow> r < length (sv_objs (v_s v)) \<and>
        \<not> ch_closed (fr_signal (sv_objs (v_s v) ! r))"
  using assms unfolding saved_ok_def by auto

text \<open>Waking the readers changes signals only and never panics.\<close>

definition only_signals :: "fileReader list \<Rightarrow> fileReader list \<Rightarrow> bool" where
  "only_signals fs fs' \<longleftrightarrow> length fs' = length fs \<and>
     (\<forall>i < length fs. fr_off (fs' ! i) = fr_off (fs ! i) \<and> fr_live (fs' ! i) = fr_live (fs ! i) \<and>
        ch_closed (fr_signal (fs' ! i)) = ch_closed (fr_signal (fs ! i)))"

lemma notify_eq:
  assumes "\<forall>r \<in> set rs. r < length (sv_objs s) \<and> \<not> ch_closed (fr_signal (sv_objs s ! r))"
  shows "\<exists>objs. notify rs s = Ret (filter (\<lambda>r. fr_live (sv_objs s ! r)) rs) (s\<lparr>sv_objs := objs\<rparr>) \<and>
     only_signals (sv_objs s) objs"
  using assms
proof (induction rs arbitrary: s)
  case Nil
  then show ?case by (intro exI [of _ "sv_objs s"]) (simp add: only_signals_def)
next
  case (Cons r rs)
  let ?fr = "sv_objs s ! r"
  show ?case
  proof (cases "fr_live ?fr \<and> length (ch_buf (fr_signal ?fr)) < ch_cap (fr_signal ?fr)")
    case True
    let ?fr' = "?fr\<lparr>fr_signal := (fr_signal ?fr)\<lparr>ch_buf := ch_buf (fr_signal ?fr) @ [()]\<rparr>\<rparr>"
    let ?s = "s\<lparr>sv_objs := (sv_objs s)[r := ?fr']\<rparr>"
    have sig: "only_signals (sv_objs s) (sv_objs ?s)"
      by (auto simp: only_signals_def nth_update)
    have "\<forall>q \<in> set rs. q < length (sv_objs ?s) \<and> \<not> ch_closed (fr_signal (sv_objs ?s ! q))"
      using Cons.prems by (auto simp: nth_update)
    then obtain objs where o:
      "notify rs ?s = Ret (filter (\<lambda>r. fr_live (sv_objs ?s ! r)) rs) (?s\<lparr>sv_objs := objs\<rparr>)"
      "only_signals (sv_objs ?s) objs"
      using Cons.IH [of ?s] by blast
    have "filter (\<lambda>r. fr_live (sv_objs ?s ! r)) rs = filter (\<lambda>r. fr_live (sv_objs s ! r)) rs"
      by (rule filter_cong) (auto simp: nth_update)
    moreover have "only_signals (sv_objs s) objs"
      using sig o(2) by (simp add: only_signals_def)
    ultimately show ?thesis
      using True Cons.prems o(1) by (intro exI [of _ objs]) (simp add: chan_send_def)
  next
    case False
    obtain objs where "notify rs s = Ret (filter (\<lambda>r. fr_live (sv_objs s ! r)) rs) (s\<lparr>sv_objs := objs\<rparr>)"
      "only_signals (sv_objs s) objs"
      using Cons.IH [of s] Cons.prems by auto
    then show ?thesis
      using False Cons.prems by (intro exI [of _ objs]) (auto simp: chan_send_def)
  qed
qed

lemma close_signals_eq:
  assumes "distinct rs" "\<forall>r \<in> set rs. r < length (sv_objs s) \<and> \<not> ch_closed (fr_signal (sv_objs s ! r))"
  shows "\<exists>objs. close_signals rs s = Ret () (s\<lparr>sv_objs := objs\<rparr>) \<and> length objs = length (sv_objs s) \<and>
     (\<forall>i < length objs. fr_off (objs ! i) = fr_off (sv_objs s ! i) \<and> fr_live (objs ! i) = fr_live (sv_objs s ! i) \<and>
        ch_closed (fr_signal (objs ! i)) = (i \<in> set rs \<or> ch_closed (fr_signal (sv_objs s ! i))))"
  using assms
proof (induction rs arbitrary: s)
  case Nil
  then show ?case by (intro exI [of _ "sv_objs s"]) simp
next
  case (Cons r rs)
  let ?fr = "(sv_objs s ! r)\<lparr>fr_signal := (fr_signal (sv_objs s ! r))\<lparr>ch_closed := True\<rparr>\<rparr>"
  let ?s = "s\<lparr>sv_objs := (sv_objs s)[r := ?fr]\<rparr>"
  have "\<forall>q \<in> set rs. q < length (sv_objs ?s) \<and> \<not> ch_closed (fr_signal (sv_objs ?s ! q))"
    using Cons.prems by (auto simp: nth_update)
  then obtain objs where o: "close_signals rs ?s = Ret () (?s\<lparr>sv_objs := objs\<rparr>)" "length objs = length (sv_objs ?s)"
    "\<forall>i < length objs. fr_off (objs ! i) = fr_off (sv_objs ?s ! i) \<and> fr_live (objs ! i) = fr_live (sv_objs ?s ! i) \<and>
        ch_closed (fr_signal (objs ! i)) = (i \<in> set rs \<or> ch_closed (fr_signal (sv_objs ?s ! i)))"
    using Cons.IH [of ?s] Cons.prems(1) by auto
  have "close_signals (r # rs) s = Ret () (s\<lparr>sv_objs := objs\<rparr>)"
    using o(1) Cons.prems(2) by (simp add: chan_close_def)
  then show ?case
    using o(2,3) Cons.prems(2) by (intro exI [of _ objs]) (auto simp: nth_update)
qed

lemma saved_ok_objs:
  assumes "saved_ok v" "length (sv_objs (v_s v)) \<le> length objs"
    "\<And>r. r < length objs \<Longrightarrow> file_reader_ok (v\<lparr>v_s := (v_s v)\<lparr>sv_objs := objs, sv_readers := rs\<rparr>, v_got := got\<rparr>) r"
    "\<And>r. length objs \<le> r \<Longrightarrow> got r = []"
    "distinct rs" "\<And>r. r \<in> set rs \<Longrightarrow> r < length objs \<and> \<not> ch_closed (fr_signal (objs ! r))"
  shows "saved_ok (v\<lparr>v_s := (v_s v)\<lparr>sv_objs := objs, sv_readers := rs\<rparr>, v_got := got\<rparr>)"
  using assms unfolding saved_ok_def by simp

lemma saved_add:
  assumes "SavedStream_AddReader fault s = Ret r s'"
  obtains fr rs where "s' = s\<lparr>sv_objs := sv_objs s @ [fr], sv_readers := rs\<rparr>" "fr_off fr = 0"
    "rs = sv_readers s \<and> (ch_closed (fr_signal fr) \<longrightarrow> sv_closed s) \<or>
     rs = sv_readers s @ [length (sv_objs s)] \<and> \<not> ch_closed (fr_signal fr)"
proof -
  let ?fr = "\<lparr>fr_file = True, fr_off = 0, fr_signal = make_chan 1, fr_live = True\<rparr>"
  consider (failed) e where "fault = Some e" | (late) "fault = None" "sv_closed s"
    | (listed) "fault = None" "\<not> sv_closed s"
    by (cases fault) auto
  then show ?thesis
  proof cases
    case failed
    then show ?thesis
      using assms that [of "sv_readers s" "\<lparr>fr_file = False, fr_off = 0, fr_signal = make_chan 0, fr_live = False\<rparr>"]
      by (auto simp: SavedStream_AddReader_def Let_def)
  next
    case late
    then show ?thesis
      using assms that [of "sv_readers s" "?fr\<lparr>fr_signal := (make_chan 1)\<lparr>ch_closed := True\<rparr>\<rparr>"]
      by (auto simp: SavedStream_AddReader_def chan_close_def Let_def)
  next
    case listed
    then show ?thesis
      using assms that [of "sv_readers s @ [length (sv_objs s)]" ?fr]
      by (auto simp: SavedStream_AddReader_def Let_def)
  qed
qed

lemma saved_step_ok:
  assumes "saved_step v v'" "saved_ok v"
  shows "saved_ok v'"
  using assms(1)
proof (cases rule: saved_step.cases)
  case (add fault r s)
  note ok = saved_okD [OF assms(2)]
  obtain fr rs where s: "s = (v_s v)\<lparr>sv_objs := sv_objs (v_s v) @ [fr], sv_readers := rs\<rparr>" "fr_off fr = 0"
    "rs = sv_readers (v_s v) \<and> (ch_closed (fr_signal fr) \<longrightarrow> sv_closed (v_s v)) \<or>
     rs = sv_readers (v_s v) @ [length (sv_objs (v_s v))] \<and> \<not> ch_closed (fr_signal fr)"
    using add(2) by (rule saved_add)
  have "saved_ok (v\<lparr>v_s := (v_s v)\<lparr>sv_objs := sv_objs (v_s v) @ [fr], sv_readers := rs\<rparr>, v_got := v_got v\<rparr>)"
  proof (rule saved_ok_objs [OF assms(2)], goal_cases)
    case (2 r)
    then show ?case
      using ok(2) [of r] ok(3) [of r] s(2,3)
      by (cases "r < length (sv_objs (v_s v))") (auto simp: file_reader_ok_def Let_def nth_append)
  next
    case (5 r)
    then show ?case
      using ok(5) [of r] s(3) by (auto simp: nth_append)
  qed (use ok(3,4) ok(5) [of "length (sv_objs (v_s v))"] s(3) in auto)
  then show ?thesis using add(1) s(1) by simp
next
  case (remove r)
  note ok = saved_okD [OF assms(2)]
  have "saved_ok (v\<lparr>v_s := (v_s v)\<lparr>sv_objs := (sv_objs (v_s v))[r := fileReader_Close (sv_objs (v_s v) ! r)],
      sv_readers := filter ((\<noteq>) r) (sv_readers (v_s v))\<rparr>, v_got := v_got v\<rparr>)"
    by (rule saved_ok_objs [OF assms(2)])
      (use ok in \<open>auto simp: file_reader_ok_def Let_def nth_update fileReader_Close_def\<close>)
  moreover have "SavedStream_RemoveReader r (v_s v) = (v_s v)\<lparr>sv_objs := (sv_objs (v_s v))[r := fileReader_Close (sv_objs (v_s v) ! r)],
      sv_readers := filter ((\<noteq>) r) (sv_readers (v_s v))\<rparr>"
    by (cases "v_s v") (simp add: SavedStream_RemoveReader_def)
  ultimately show ?thesis using remove(1) by simp
next
  case (read r fault len d fr)
  note ok = saved_okD [OF assms(2)]
  have r: "file_reader_ok v r" using ok(2) read(2) by simp
  have "saved_ok (v\<lparr>v_s := (v_s v)\<lparr>sv_objs := (sv_objs (v_s v))[r := fr], sv_readers := sv_readers (v_s v)\<rparr>,
      v_got := (v_got v)(r := v_got v r @ read_bytes d)\<rparr>)"
  proof (rule saved_ok_objs [OF assms(2)], goal_cases)
    case (2 q)
    then show ?case
      using ok(2) [of q] r fileReader_Read_Ret [OF read(3)]
      by (cases "q = r"; cases d) (auto simp: file_reader_ok_def Let_def nth_update read_bytes_def take_add min_def)
  next
    case (5 q)
    then show ?case
      using ok(5) [of q] fileReader_Read_Ret [OF read(3)]
      by (cases "q = r"; cases d) (auto simp: nth_update)
  qed (use ok(3-5) read(2) in auto)
  then show ?thesis using read(1) by simp
next
  case (append fault p res s)
  note ok = saved_okD [OF assms(2)]
  show ?thesis
  proof (cases "sv_closed (v_s v) \<or> fault \<noteq> None")
    case True
    then have "s = (v_s v)\<lparr>sv_disk := sv_disk (v_s v) @ saved_bytes fault p (v_s v)\<rparr>"
      using append(2) by (auto simp: SavedStream_Write_def saved_bytes_def split: if_splits option.splits)
    then show ?thesis
      using assms(2) append(1) by (auto simp: saved_ok_def file_reader_ok_def Let_def)
  next
    case False
    let ?s = "(v_s v)\<lparr>sv_disk := sv_disk (v_s v) @ p\<rparr>"
    obtain objs where "notify (sv_readers (v_s v)) ?s =
        Ret (filter (\<lambda>r. fr_live (sv_objs ?s ! r)) (sv_readers (v_s v))) (?s\<lparr>sv_objs := objs\<rparr>)"
      "only_signals (sv_objs (v_s v)) objs"
      using notify_eq [of "sv_readers (v_s v)" ?s] ok(5) by auto
    moreover have f: "fault = None" "\<not> sv_closed (v_s v)" using False by (cases fault; auto)+
    ultimately have s: "s = (v_s v)\<lparr>sv_disk := sv_disk (v_s v) @ p, sv_objs := objs,
        sv_readers := filter (\<lambda>r. fr_live (sv_objs (v_s v) ! r)) (sv_readers (v_s v))\<rparr>"
      "only_signals (sv_objs (v_s v)) objs"
      using append(2) by (auto simp: SavedStream_Write_def)
    have le: "a \<le> b + c \<Longrightarrow> a \<le> b + (c + length p)" for a b c :: nat by simp
    show ?thesis
      using s ok(1,3-5) ok(2) append(1) f
      by (auto simp: saved_bytes_def saved_ok_def file_reader_ok_def Let_def only_signals_def intro: le)
  qed
next
  case (close e s)
  note ok = saved_okD [OF assms(2)]
  have "\<forall>r \<in> set (sv_readers (v_s v)). r < length (sv_objs (v_s v)) \<and> \<not> ch_closed (fr_signal (sv_objs (v_s v) ! r))"
    using ok(5) by blast
  then obtain objs where "close_signals (sv_readers (v_s v)) (v_s v) = Ret () ((v_s v)\<lparr>sv_objs := objs\<rparr>)"
    "length objs = length (sv_objs (v_s v))"
    "\<forall>i < length objs. fr_off (objs ! i) = fr_off (sv_objs (v_s v) ! i) \<and>
       fr_live (objs ! i) = fr_live (sv_objs (v_s v) ! i) \<and>
       ch_closed (fr_signal (objs ! i)) = (i \<in> set (sv_readers (v_s v)) \<or> ch_closed (fr_signal (sv_objs (v_s v) ! i)))"
    using close_signals_eq [OF ok(4)] by blast
  then show ?thesis
    using assms(2) close by (auto simp: SavedStream_Close_def saved_ok_def file_reader_ok_def Let_def)
qed

lemma saved_run_ok:
  assumes "saved_step\<^sup>*\<^sup>* (saved_init disk s) v" "NewSavedStream None disk = Inr s"
  shows "saved_ok v"
  using assms(1)
proof (induction rule: rtranclp_induct)
  case base
  then show ?case using assms(2) by (auto simp: NewSavedStream_def saved_ok_def saved_init_def)
qed (rule saved_step_ok)

lemma saved_start: "saved_step\<^sup>*\<^sup>* v v' \<Longrightarrow> v_start v' = v_start v"
  by (induction rule: rtranclp_induct) (auto elim!: saved_step.cases)

section \<open>Runs of a single stream\<close>

record single =
  g_s :: SingleStream
  g_written :: bytes
  g_got :: bytes

definition single_init :: single where
  "single_init = \<lparr>g_s = NewSingleStream, g_written = [], g_got = []\<rparr>"

inductive single_step :: "single \<Rightarrow> single \<Rightarrow> bool" where
  send: "SingleStream_Write p (g_s g) = Ret (Inr n) s \<Longrightarrow>
    single_step g (g\<lparr>g_s := s, g_written := g_written g @ p\<rparr>)"
| receive: "singleStreamReader_Read len (g_s g) = Ret (Inr bs) s \<Longrightarrow>
    single_step g (g\<lparr>g_s := s, g_got := g_got g @ bs\<rparr>)"
| add: "SingleStream_AddReader (g_s g) = (r, s) \<Longrightarrow> single_step g (g\<lparr>g_s := s\<rparr>)"
| remove: "single_step g (g\<lparr>g_s := SingleStream_RemoveReader r (g_s g)\<rparr>)"
| close: "SingleStream_Close (g_s g) = Ret e s \<Longrightarrow> single_step g (g\<lparr>g_s := s\<rparr>)"

text \<open>
  While the stream is open one of the semaphores holds the one token: the write semaphore when
  everything written has been read. After the close nothing more is read.
\<close>

definition sems_ok :: "SingleStream \<Rightarrow> bool" where
  "sems_ok s \<longleftrightarrow> ch_cap (ss_writesem s) = 1 \<and> ch_cap (ss_readsem s) = 1 \<and>
     \<not> ch_closed (ss_writesem s) \<and> ch_buf (ss_closed s) = [] \<and>
     ch_closed (ss_readsem s) = ch_closed (ss_closed s) \<and>
     (\<not> ch_closed (ss_closed s) \<longrightarrow>
        (ch_buf (ss_writesem s) = [()] \<and> ch_buf (ss_readsem s) = [] \<and> ss_buffer s = []) \<or>
        (ch_buf (ss_writesem s) = [] \<and> ch_buf (ss_readsem s) = [()]))"

definition single_ok :: "single \<Rightarrow> bool" where
  "single_ok g \<longleftrightarrow> sems_ok (g_s g) \<and> prefix (g_got g) (g_written g) \<and>
     (\<not> ch_closed (ss_closed (g_s g)) \<longrightarrow> g_got g @ ss_buffer (g_s g) = g_written g)"

lemma isClosed_eq: "sems_ok s \<Longrightarrow> SingleStream_isClosed s = ch_closed (ss_closed s)"
  by (auto simp: SingleStream_isClosed_def chan_recv_def sems_ok_def)


lemma single_write_open:
  assumes "sems_ok s" "\<not> ch_closed (ss_closed s)"
  shows "SingleStream_Write p s =
    (if ch_buf (ss_writesem s) = [] then Block s
     else Ret (Inr (length p)) (s\<lparr>ss_writesem := (ss_writesem s)\<lparr>ch_buf := []\<rparr>, ss_buffer := p,
            ss_readsem := (ss_readsem s)\<lparr>ch_buf := [()]\<rparr>\<rparr>))"
  using assms by (auto simp: SingleStream_Write_def sems_ok_def chan_recv_def chan_send_def Let_def)

lemma single_write_closed:
  assumes "sems_ok s" "ch_closed (ss_closed s)"
  shows "SingleStream_Write p s = (if ch_buf (ss_writesem s) = [] then Block s else Panics)"
  using assms
  by (auto simp: SingleStream_Write_def sems_ok_def chan_recv_def chan_send_def Let_def split: list.splits)

lemma single_read_open:
  assumes "sems_ok s" "\<not> ch_closed (ss_closed s)"
  shows "singleStreamReader_Read len s =
    (if ch_buf (ss_readsem s) = [] then Block s
     else Ret (Inr (take len (ss_buffer s)))
       (if length (ss_buffer s) \<le> len
        then s\<lparr>ss_buffer := [], ss_readsem := (ss_readsem s)\<lparr>ch_buf := []\<rparr>,
               ss_writesem := (ss_writesem s)\<lparr>ch_buf := [()]\<rparr>\<rparr>
        else s\<lparr>ss_buffer := drop len (ss_buffer s)\<rparr>))"
proof -
  have "SingleStream_isClosed (s\<lparr>ss_readsem := c\<rparr>) = False" for c
    using assms by (simp add: SingleStream_isClosed_def chan_recv_def sems_ok_def)
  then show ?thesis
    using assms
    by (cases s; cases "ss_readsem s"; cases "ss_writesem s")
      (auto simp: singleStreamReader_Read_def sems_ok_def chan_recv_def chan_send_def Let_def)
qed

lemma single_read_closed:
  assumes "sems_ok s" "ch_closed (ss_closed s)"
  shows "singleStreamReader_Read len s = Ret (Inr []) (s\<lparr>ss_readsem := (ss_readsem s)\<lparr>ch_buf := tl (ch_buf (ss_readsem s))\<rparr>\<rparr>)"
proof -
  have "SingleStream_isClosed (s\<lparr>ss_readsem := c\<rparr>) = True" for c
    using assms by (simp add: SingleStream_isClosed_def chan_recv_def sems_ok_def)
  then show ?thesis
    using assms
    by (cases s; cases "ss_readsem s")
      (auto simp: singleStreamReader_Read_def sems_ok_def chan_recv_def Let_def split: list.splits)
qed

lemma single_step_ok:
  assumes "single_step g g'" "single_ok g"
  shows "single_ok g'"
  using assms(1)
proof (cases rule: single_step.cases)
  case (send p n s)
  then show ?thesis
    using assms(2) single_write_open [of "g_s g" p] single_write_closed [of "g_s g" p]
    by (cases "ch_closed (ss_closed (g_s g))")
      (auto simp: single_ok_def sems_ok_def split: if_splits)
next
  case (receive len bs s)
  show ?thesis
  proof (cases "ch_closed (ss_closed (g_s g))")
    case True
    then show ?thesis
      using receive assms(2) single_read_closed [of "g_s g" len] by (auto simp: single_ok_def sems_ok_def)
  next
    case False
    have g: "g_got g @ ss_buffer (g_s g) = g_written g" using assms(2) False by (simp add: single_ok_def)
    then have "prefix (g_got g @ take len (ss_buffer (g_s g))) (g_written g)"
      by (metis same_prefix_prefix take_is_prefix)
    then show ?thesis
      using receive assms(2) False single_read_open [of "g_s g" len] g
      by (auto simp: single_ok_def sems_ok_def split: if_splits)
  qed
next
  case (add r s)
  then show ?thesis
    using assms(2) by (auto simp: SingleStream_AddReader_def single_ok_def sems_ok_def split: if_splits)
next
  case (remove r)
  then show ?thesis
    using assms(2) by (auto simp: SingleStream_RemoveReader_def single_ok_def sems_ok_def)
next
  case (close e s)
  then show ?thesis
    using assms(2) isClosed_eq [of "g_s g"]
    by (auto simp: SingleStream_Close_def chan_close_def single_ok_def sems_ok_def split: if_splits)
qed

lemma single_run_ok:
  assumes "single_step\<^sup>*\<^sup>* single_init g"
  shows "single_ok g"
  using assms
proof (induction rule: rtranclp_induct)
  case base
  then show ?case
    by (simp add: single_init_def NewSingleStream_def single_ok_def sems_ok_def)
qed (rule single_step_ok)

end
