(* ===== verification/Stream_File.thy ===== *)
theory Stream_File
  imports Static_Store Stream_Fanout Stream_Saved
begin

text \<open>
  The stream files of fs/stream_file.go: a file that serves a stream, giving each fid a reader of
  its own. The interface \<^verbatim>\<open>Stream\<close> of fs/streams.go is the sum of its five
  implementations, and a call through it goes to the method of the dynamic type. A pipe file
  makes a blocking stream for every fid; what the handler does with it is left to the program.
\<close>

section \<open>The interface Stream\<close>

datatype Stream =
    Dropping baseStream
  | Blocking baseStream
  | Skipping baseStream
  | Saved SavedStream
  | Single SingleStream

fun map_run :: "('a \<Rightarrow> 'b) \<Rightarrow> ('s \<Rightarrow> 't) \<Rightarrow> ('a, 's) run \<Rightarrow> ('b, 't) run" where
  "map_run f g (Ret a s) = Ret (f a) (g s)"
| "map_run f g (Block s) = Block (g s)"
| "map_run f g Panics = Panics"

fun stream_length :: "Stream \<Rightarrow> u64" where
  "stream_length (Dropping s) = baseStream_length s"
| "stream_length (Blocking s) = baseStream_length s"
| "stream_length (Skipping s) = baseStream_length s"
| "stream_length (Saved s) = SavedStream_length s"
| "stream_length (Single s) = SingleStream_length s"

text \<open>\<open>fault\<close> is the failure to open the file of a saved stream; the result may be nil.\<close>

fun stream_AddReader :: "go_error option \<Rightarrow> Stream \<Rightarrow> (nat option, Stream) run" where
  "stream_AddReader fault (Dropping s) = map_run Some Dropping (AddReader s)"
| "stream_AddReader fault (Blocking s) = map_run Some Blocking (AddReader s)"
| "stream_AddReader fault (Skipping s) = map_run Some Skipping (AddReader s)"
| "stream_AddReader fault (Saved s) = map_run Some Saved (SavedStream_AddReader fault s)"
| "stream_AddReader fault (Single s) = (let (r, s) = SingleStream_AddReader s in Ret r (Single s))"

fun stream_RemoveReader :: "nat \<Rightarrow> Stream \<Rightarrow> (unit, Stream) run" where
  "stream_RemoveReader r (Dropping s) = map_run id Dropping (RemoveReader r s)"
| "stream_RemoveReader r (Blocking s) = map_run id Blocking (RemoveReader r s)"
| "stream_RemoveReader r (Skipping s) = map_run id Skipping (RemoveReader r s)"
| "stream_RemoveReader r (Saved s) = Ret () (Saved (SavedStream_RemoveReader r s))"
| "stream_RemoveReader r (Single s) = Ret () (Single (SingleStream_RemoveReader r s))"

text \<open>The readers' \<^verbatim>\<open>Read\<close>; \<open>fault\<close> is an error of the saved stream's file.\<close>

definition base_reader_Read :: "nat \<Rightarrow> nat \<Rightarrow> baseStream \<Rightarrow> (go_error + bytes, baseStream) run" where
  "base_reader_Read r len s = map_run id (\<lambda>cr. set_reader r cr s) (chanReader_Read len (bs_objs s ! r))"

fun reader_Read :: "go_error option \<Rightarrow> nat \<Rightarrow> nat \<Rightarrow> Stream \<Rightarrow> (go_error + bytes, Stream) run" where
  "reader_Read fault r len (Dropping s) = map_run id Dropping (base_reader_Read r len s)"
| "reader_Read fault r len (Blocking s) = map_run id Blocking (base_reader_Read r len s)"
| "reader_Read fault r len (Skipping s) = map_run id Skipping (base_reader_Read r len s)"
| "reader_Read fault r len (Saved s) =
     map_run id (\<lambda>fr. Saved (s\<lparr>sv_objs := (sv_objs s)[r := fr]\<rparr>))
       (fileReader_Read fault len (sv_disk s) (sv_objs s ! r))"
| "reader_Read fault r len (Single s) = map_run id Single (singleStreamReader_Read len s)"

text \<open>The streams that embed the base stream have \<^verbatim>\<open>AddReadWriter\<close> and \<^verbatim>\<open>Read\<close>.\<close>

fun bidi :: "Stream \<Rightarrow> baseStream option" where
  "bidi (Dropping s) = Some s"
| "bidi (Blocking s) = Some s"
| "bidi (Skipping s) = Some s"
| "bidi (Saved s) = None"
| "bidi (Single s) = None"

section \<open>One-way and two-way stream files\<close>

record StreamFile = BaseFile +
  stf_s :: Stream
  stf_fidReader :: "u64 \<rightharpoonup> nat"

record BiDiStreamFile = BaseFile +
  bd_s :: baseStream
  bd_fidReader :: "u64 \<rightharpoonup> nat"

definition NewStreamFile :: "Stat \<Rightarrow> Stream \<Rightarrow> BiDiStreamFile + StreamFile" where
  "NewStreamFile stat s =
     (case bidi s of
        Some b \<Rightarrow> Inl \<lparr>bf_fStat = stat, bf_parent = None, bd_s = b, bd_fidReader = Map.empty\<rparr>
      | None \<Rightarrow> Inr \<lparr>bf_fStat = stat, bf_parent = None, stf_s = s, stf_fidReader = Map.empty\<rparr>)"

definition StreamFile_Stat :: "StreamFile \<Rightarrow> Stat" where
  "StreamFile_Stat f = (bf_fStat f)\<lparr>st_Length := stream_length (stf_s f)\<rparr>"

definition StreamFile_Open ::
    "go_error option \<Rightarrow> u64 \<Rightarrow> Mode \<Rightarrow> StreamFile \<Rightarrow> (go_error option, StreamFile) run" where
  "StreamFile_Open fault fid omode f =
     (if omode = Owrite \<or> omode = Ordwr
      then Ret (Some (ErrorString ''Cannot open this stream for writing.'')) f
      else case stream_AddReader fault (stf_s f) of
             Ret None s \<Rightarrow>
               Ret (Some (ErrorString ''Failed to open stream for reading.'')) (f\<lparr>stf_s := s\<rparr>)
           | Ret (Some rdr) s \<Rightarrow>
               Ret None (f\<lparr>stf_s := s, stf_fidReader := (stf_fidReader f)(fid \<mapsto> rdr)\<rparr>)
           | Block s \<Rightarrow> Block (f\<lparr>stf_s := s\<rparr>)
           | Panics \<Rightarrow> Panics)"

definition StreamFile_Read ::
    "go_error option \<Rightarrow> u64 \<Rightarrow> u64 \<Rightarrow> u64 \<Rightarrow> StreamFile \<Rightarrow> (go_error + bytes, StreamFile) run" where
  "StreamFile_Read fault fid offset cnt f =
     (case stf_fidReader f fid of
        None \<Rightarrow> Ret (Inl (ErrorString ''Failed to read stream. Not opened for read.'')) f
      | Some r \<Rightarrow> map_run id (\<lambda>s. f\<lparr>stf_s := s\<rparr>) (reader_Read fault r (unat cnt) (stf_s f)))"

definition StreamFile_Write :: "u64 \<Rightarrow> u64 \<Rightarrow> bytes \<Rightarrow> go_error + u32" where
  "StreamFile_Write fid offset data = Inl (ErrorString ''Cannot write to this stream.'')"

definition StreamFile_Close :: "u64 \<Rightarrow> StreamFile \<Rightarrow> (go_error option, StreamFile) run" where
  "StreamFile_Close fid f =
     (case stf_fidReader f fid of
        None \<Rightarrow> Ret None f
      | Some r \<Rightarrow>
          map_run (\<lambda>_. None) (\<lambda>s. f\<lparr>stf_s := s, stf_fidReader := (stf_fidReader f)(fid := None)\<rparr>)
            (stream_RemoveReader r (stf_s f)))"

definition BiDiStreamFile_Stat :: "BiDiStreamFile \<Rightarrow> Stat" where
  "BiDiStreamFile_Stat f = (bf_fStat f)\<lparr>st_Length := baseStream_length (bd_s f)\<rparr>"

definition BiDiStreamFile_Open ::
    "u64 \<Rightarrow> Mode \<Rightarrow> BiDiStreamFile \<Rightarrow> (go_error option, BiDiStreamFile) run" where
  "BiDiStreamFile_Open fid omode f =
     (case AddReadWriter (bd_s f) of
        Ret r s \<Rightarrow> Ret None (f\<lparr>bd_s := s, bd_fidReader := (bd_fidReader f)(fid \<mapsto> r)\<rparr>)
      | Block s \<Rightarrow> Block (f\<lparr>bd_s := s\<rparr>)
      | Panics \<Rightarrow> Panics)"

definition BiDiStreamFile_Read ::
    "u64 \<Rightarrow> u64 \<Rightarrow> u64 \<Rightarrow> BiDiStreamFile \<Rightarrow> (go_error + bytes, BiDiStreamFile) run" where
  "BiDiStreamFile_Read fid offset cnt f =
     (case bd_fidReader f fid of
        None \<Rightarrow> Ret (Inl (ErrorString ''Failed to read stream. Server error.'')) f
      | Some r \<Rightarrow> map_run id (\<lambda>s. f\<lparr>bd_s := s\<rparr>) (base_reader_Read r (unat cnt) (bd_s f)))"

definition BiDiStreamFile_Write ::
    "u64 \<Rightarrow> u64 \<Rightarrow> bytes \<Rightarrow> BiDiStreamFile \<Rightarrow> (u32 \<times> go_error option, BiDiStreamFile) run" where
  "BiDiStreamFile_Write fid offset data f =
     (case bd_fidReader f fid of
        None \<Rightarrow> Ret (0, Some (ErrorString ''Failed to write stream. Server error.'')) f
      | Some r \<Rightarrow>
          map_run (\<lambda>res. case res of Inr n \<Rightarrow> (of_nat n, None) | Inl e \<Rightarrow> (0, Some e))
            (\<lambda>s. f\<lparr>bd_s := s\<rparr>) (chanReader_Write data (bd_s f)))"

definition BiDiStreamFile_Close :: "u64 \<Rightarrow> BiDiStreamFile \<Rightarrow> (go_error option, BiDiStreamFile) run" where
  "BiDiStreamFile_Close fid f =
     (case bd_fidReader f fid of
        None \<Rightarrow> Ret None f
      | Some r \<Rightarrow>
          map_run (\<lambda>_. None) (\<lambda>s. f\<lparr>bd_s := s, bd_fidReader := (bd_fidReader f)(fid := None)\<rparr>)
            (RemoveReader r (bd_s f)))"

section \<open>Pipe files\<close>

text \<open>
  The streams made by \<^verbatim>\<open>Open\<close> are addresses into \<open>pf_streams\<close>; for each of them a
  goroutine runs the handler and closes the stream afterwards (\<open>PipeFile_handler_done\<close>).
\<close>

record PipeFile = BaseFile +
  pf_streams :: "baseStream list"
  pf_fidReader :: "u64 \<rightharpoonup> nat \<times> nat"

abbreviation set_stream :: "nat \<Rightarrow> baseStream \<Rightarrow> PipeFile \<Rightarrow> PipeFile" where
  "set_stream i s f \<equiv> f\<lparr>pf_streams := (pf_streams f)[i := s]\<rparr>"

definition NewPipeFile :: "Stat \<Rightarrow> PipeFile" where
  "NewPipeFile stat = \<lparr>bf_fStat = stat, bf_parent = None, pf_streams = [], pf_fidReader = Map.empty\<rparr>"

definition PipeFile_Open :: "u64 \<Rightarrow> Mode \<Rightarrow> PipeFile \<Rightarrow> (go_error option, PipeFile) run" where
  "PipeFile_Open fid omode f =
     (let i = length (pf_streams f)
      in case AddReadWriter (NewBlockingStream 10) of
           Ret r s \<Rightarrow> Ret None (f\<lparr>pf_streams := pf_streams f @ [s], pf_fidReader := (pf_fidReader f)(fid \<mapsto> (i, r))\<rparr>)
         | Block s \<Rightarrow> Block (f\<lparr>pf_streams := pf_streams f @ [s]\<rparr>)
         | Panics \<Rightarrow> Panics)"

definition PipeFile_handler_done :: "nat \<Rightarrow> PipeFile \<Rightarrow> (go_error option, PipeFile) run" where
  "PipeFile_handler_done i f = map_run id (\<lambda>s. set_stream i s f) (baseStream_Close (pf_streams f ! i))"

definition PipeFile_Read ::
    "u64 \<Rightarrow> u64 \<Rightarrow> u64 \<Rightarrow> PipeFile \<Rightarrow> (go_error + bytes, PipeFile) run" where
  "PipeFile_Read fid offset cnt f =
     (case pf_fidReader f fid of
        None \<Rightarrow> Ret (Inl (ErrorString ''Failed to read stream. Server error.'')) f
      | Some (i, r) \<Rightarrow>
          map_run id (\<lambda>s. set_stream i s f) (base_reader_Read r (unat cnt) (pf_streams f ! i)))"

definition PipeFile_Write ::
    "u64 \<Rightarrow> u64 \<Rightarrow> bytes \<Rightarrow> PipeFile \<Rightarrow> (u32 \<times> go_error option, PipeFile) run" where
  "PipeFile_Write fid offset data f =
     (case pf_fidReader f fid of
        None \<Rightarrow> Ret (0, Some (ErrorString ''Failed to write stream. Server error.'')) f
      | Some (i, r) \<Rightarrow>
          map_run (\<lambda>res. case res of Inr n \<Rightarrow> (of_nat n, None) | Inl e \<Rightarrow> (0, Some e))
            (\<lambda>s. set_stream i s f) (chanReader_Write data (pf_streams f ! i)))"

definition PipeFile_Close :: "u64 \<Rightarrow> PipeFile \<Rightarrow> (go_error option, PipeFile) run" where
  "PipeFile_Close fid f =
     (case pf_fidReader f fid of
        None \<Rightarrow> Ret None f
      | Some (i, r) \<Rightarrow>
          map_run (\<lambda>_. None) (\<lambda>s. (set_stream i s f)\<lparr>pf_fidReader := (pf_fidReader f)(fid := None)\<rparr>)
            (baseStream_Close (pf_streams f ! i)))"

section \<open>Fids and their readers\<close>

lemma map_run_Ret:
  "map_run f g m = Ret b t \<longleftrightarrow> (\<exists>a s. m = Ret a s \<and> b = f a \<and> t = g s)"
  by (cases m) auto

lemma map_run_Block: "map_run f g m = Block t \<longleftrightarrow> (\<exists>s. m = Block s \<and> t = g s)"
  by (cases m) auto

lemma base_reader_Read_Ret:
  assumes "base_reader_Read r len s = Ret d s'"
  shows "d = Inr (take len (pending (bs_objs s ! r))) \<and>
    (\<exists>cr. s' = set_reader r cr s \<and> pending cr = drop len (pending (bs_objs s ! r)) \<and> same_reader (bs_objs s ! r) cr)"
  using assms chanReader_Read_Ret [of len "bs_objs s ! r"]
  unfolding base_reader_Read_def map_run_Ret by auto

text \<open>
  No two fids of a file share a reader, and every fid's reader exists. \<open>fid_pending\<close> are the bytes
  a fid has still to read.
\<close>

definition bidi_file_ok :: "BiDiStreamFile \<Rightarrow> bool" where
  "bidi_file_ok f \<longleftrightarrow> lives_ok (bd_s f) \<and> inj_on (bd_fidReader f) (dom (bd_fidReader f)) \<and>
     (\<forall>r \<in> ran (bd_fidReader f). r < length (bs_objs (bd_s f)))"

definition fid_pending :: "BiDiStreamFile \<Rightarrow> u64 \<Rightarrow> bytes option" where
  "fid_pending f fid =
     (case bd_fidReader f fid of None \<Rightarrow> None | Some r \<Rightarrow> Some (pending (bs_objs (bd_s f) ! r)))"

lemma bidi_okD:
  assumes "bidi_file_ok f"
  shows "lives_ok (bd_s f)" and "bd_fidReader f fid = Some r \<Longrightarrow> r < length (bs_objs (bd_s f))"
    and "bd_fidReader f fid = Some r \<Longrightarrow> bd_fidReader f fid' = Some r \<Longrightarrow> fid = fid'"
  using assms unfolding bidi_file_ok_def by (auto intro: ranI) (metis domI inj_onD)

lemma bidi_okI:
  assumes "lives_ok (bd_s f)" "\<And>fid r. bd_fidReader f fid = Some r \<Longrightarrow> r < length (bs_objs (bd_s f))"
    "\<And>fid fid' r. bd_fidReader f fid = Some r \<Longrightarrow> bd_fidReader f fid' = Some r \<Longrightarrow> fid = fid'"
  shows "bidi_file_ok f"
  using assms unfolding bidi_file_ok_def inj_on_def dom_def ran_def by auto

lemma lives_ok_set:
  "lives_ok s \<Longrightarrow> cr_live cr = (\<not> ch_closed (cr_read cr)) \<Longrightarrow> lives_ok (set_reader r cr s)"
  by (auto simp: lives_ok_def nth_update)

lemma BiDiStreamFile_Open_ok:
  assumes "bidi_file_ok f" "BiDiStreamFile_Open fid omode f = Ret e f'"
  shows "bidi_file_ok f' \<and> e = None \<and> fid_pending f' fid = Some [] \<and>
    (\<forall>fid'. fid' \<noteq> fid \<longrightarrow> fid_pending f' fid' = fid_pending f fid')"
proof -
  note ok = bidi_okD [OF assms(1)]
  let ?n = "length (bs_objs (bd_s f))"
  obtain cr rs where cr: "AddReadWriter (bd_s f) =
      Ret ?n ((bd_s f)\<lparr>bs_objs := bs_objs (bd_s f) @ [cr], bs_readers := rs\<rparr>)"
    "cr_live cr = (\<not> ch_closed (cr_read cr))" "pending cr = []"
    using ok(1) by (rule AddReadWriter_new)
  have f': "e = None" "f' = f\<lparr>bd_s := (bd_s f)\<lparr>bs_objs := bs_objs (bd_s f) @ [cr], bs_readers := rs\<rparr>,
      bd_fidReader := (bd_fidReader f)(fid \<mapsto> ?n)\<rparr>"
    using assms(2) cr(1) by (auto simp: BiDiStreamFile_Open_def)
  have "lives_ok (bd_s f')"
    using ok(1) cr(2) f'(2) by (auto simp: lives_ok_def nth_append less_Suc_eq)
  moreover have r: "r < ?n" if "bd_fidReader f q = Some r" for q r using that ok(2) by blast
  ultimately have "bidi_file_ok f'"
    using f'(2) ok(3) by (intro bidi_okI) (auto split: if_splits intro: less_SucI dest: r)
  then show ?thesis
    using f' cr(3) r by (auto simp: fid_pending_def nth_append split: option.splits)
qed

lemma BiDiStreamFile_Read_ok:
  assumes "bidi_file_ok f" "fid_pending f fid = Some p" "BiDiStreamFile_Read fid offset cnt f = Ret res f'"
  shows "bidi_file_ok f' \<and> res = Inr (take (unat cnt) p) \<and> fid_pending f' fid = Some (drop (unat cnt) p) \<and>
    (\<forall>fid'. fid' \<noteq> fid \<longrightarrow> fid_pending f' fid' = fid_pending f fid')"
proof -
  note ok = bidi_okD [OF assms(1)]
  obtain r where r: "bd_fidReader f fid = Some r" "p = pending (bs_objs (bd_s f) ! r)"
    using assms(2) by (auto simp: fid_pending_def split: option.splits)
  then obtain s where "base_reader_Read r (unat cnt) (bd_s f) = Ret res s" "f' = f\<lparr>bd_s := s\<rparr>"
    using assms(3) by (auto simp: BiDiStreamFile_Read_def map_run_Ret)
  then obtain cr where cr: "res = Inr (take (unat cnt) p)" "f' = f\<lparr>bd_s := set_reader r cr (bd_s f)\<rparr>"
    "pending cr = drop (unat cnt) p" "same_reader (bs_objs (bd_s f) ! r) cr"
    using base_reader_Read_Ret r(2) by blast
  have "cr_live cr = (\<not> ch_closed (cr_read cr))"
    using cr(4) ok(1) ok(2) [OF r(1)] by (simp add: same_reader_def lives_ok_def)
  then have "bidi_file_ok f'"
    using cr(2) ok lives_ok_set [OF ok(1)] by (intro bidi_okI) auto
  moreover have "fid_pending f' fid' = fid_pending f fid'" if "fid' \<noteq> fid" for fid'
    using that cr(2) ok(3) [OF r(1), of fid'] by (auto simp: fid_pending_def nth_update split: option.splits)
  ultimately show ?thesis
    using cr r(1) ok(2) [OF r(1)] by (auto simp: fid_pending_def)
qed

lemma BiDiStreamFile_Close_ok:
  assumes "bidi_file_ok f" "BiDiStreamFile_Close fid f = Ret e f'"
  shows "bidi_file_ok f' \<and> e = None \<and> fid_pending f' fid = None \<and>
    (\<forall>fid'. fid' \<noteq> fid \<longrightarrow> fid_pending f' fid' = fid_pending f fid')"
proof (cases "bd_fidReader f fid")
  case None
  then show ?thesis using assms by (auto simp: BiDiStreamFile_Close_def fid_pending_def)
next
  case (Some r)
  note ok = bidi_okD [OF assms(1)]
  let ?cr = "bs_objs (bd_s f) ! r"
  have f': "f' = f\<lparr>bd_s := (bd_s f)\<lparr>bs_objs := (bs_objs (bd_s f))[r := shut ?cr],
      bs_readers := filter ((\<noteq>) r) (bs_readers (bd_s f))\<rparr>, bd_fidReader := (bd_fidReader f)(fid := None)\<rparr>" "e = None"
    using assms(2) Some RemoveReader_eq [OF ok(1) ok(2) [OF Some]] by (auto simp: BiDiStreamFile_Close_def)
  have "lives_ok (bd_s f')"
    using ok(1) f'(1) by (auto simp: lives_ok_def nth_update)
  then have "bidi_file_ok f'"
    using f'(1) ok(2,3) by (intro bidi_okI) (auto split: if_splits)
  moreover have "pending (shut ?cr) = pending ?cr" by (simp add: pending_def)
  ultimately show ?thesis
    using f' by (auto simp: fid_pending_def nth_update split: option.splits)
qed

lemma BiDiStreamFile_Write_ok:
  assumes "bidi_file_ok f" "BiDiStreamFile_Write fid offset data f = Ret res f'"
  shows "bidi_file_ok f' \<and> (\<forall>fid'. fid_pending f' fid' = fid_pending f fid')"
proof -
  have "bs_objs (bd_s f') = bs_objs (bd_s f) \<and> bd_fidReader f' = bd_fidReader f"
    using assms(2)
    by (auto simp: BiDiStreamFile_Write_def map_run_Ret chanReader_Write_def chan_send_def split: option.splits if_splits)
  then show ?thesis
    using assms(1) by (auto simp: bidi_file_ok_def lives_ok_def fid_pending_def split: option.splits)
qed

end
