(* ===== verification/Listener.thy ===== *)
theory Listener
  imports Static_Store Go_Chan "HOL-Library.Sublist"
begin

text \<open>
  The listening file of fs/listener.go: a client's \<^verbatim>\<open>Open\<close> makes a connection of two
  \<^verbatim>\<open>io.Pipe\<close>s that the program accepts, the client's reads and writes on the fid are the
  other ends of them. The pipes of the standard library are modelled here, with the errors they
  give after each order of closing.
\<close>

section \<open>Pipes of the standard library\<close>

text \<open>
  A \<^verbatim>\<open>Write\<close> hands its slice to readers until nothing is left; \<open>pp_offer\<close> is the rest of
  the one in progress (a write of nothing waits for a read too). \<open>pp_rerr\<close> and \<open>pp_werr\<close>
  are the errors the reader and the writer were closed with.
\<close>

record io_pipe =
  pp_offer :: "bytes option"
  pp_rerr :: "go_error option"
  pp_werr :: "go_error option"

definition io_Pipe :: io_pipe where
  "io_Pipe = \<lparr>pp_offer = None, pp_rerr = None, pp_werr = None\<rparr>"

definition pipe_done :: "io_pipe \<Rightarrow> bool" where
  "pipe_done p \<longleftrightarrow> pp_rerr p \<noteq> None \<or> pp_werr p \<noteq> None"

definition readCloseError :: "io_pipe \<Rightarrow> go_error" where
  "readCloseError p =
     (case (pp_rerr p, pp_werr p) of (None, Some e) \<Rightarrow> e | _ \<Rightarrow> ErrClosedPipe)"

definition writeCloseError :: "io_pipe \<Rightarrow> go_error" where
  "writeCloseError p =
     (case (pp_werr p, pp_rerr p) of (None, Some e) \<Rightarrow> e | _ \<Rightarrow> ErrClosedPipe)"

definition PipeReader_CloseWithError :: "go_error \<Rightarrow> io_pipe \<Rightarrow> io_pipe" where
  "PipeReader_CloseWithError e p = (if pp_rerr p = None then p\<lparr>pp_rerr := Some e\<rparr> else p)"

definition PipeWriter_CloseWithError :: "go_error \<Rightarrow> io_pipe \<Rightarrow> io_pipe" where
  "PipeWriter_CloseWithError e p = (if pp_werr p = None then p\<lparr>pp_werr := Some e\<rparr> else p)"

definition PipeReader_Read :: "nat \<Rightarrow> io_pipe \<Rightarrow> (go_error + bytes, io_pipe) run" where
  "PipeReader_Read len p =
     (if pipe_done p then Ret (Inl (readCloseError p)) p
      else case pp_offer p of
             None \<Rightarrow> Block p
           | Some d \<Rightarrow>
               Ret (Inr (take len d)) (p\<lparr>pp_offer := (if length d \<le> len then None else Some (drop len d))\<rparr>))"

text \<open>
  A \<^verbatim>\<open>Write\<close> begins by offering its slice, when no other write is in progress, and returns
  once the offer is gone or the pipe closed.
\<close>

definition PipeWriter_begin :: "bytes \<Rightarrow> io_pipe \<Rightarrow> (go_error + unit, io_pipe) run" where
  "PipeWriter_begin data p =
     (if pipe_done p then Ret (Inl (writeCloseError p)) p
      else case pp_offer p of
             Some _ \<Rightarrow> Block p
           | None \<Rightarrow> Ret (Inr ()) (p\<lparr>pp_offer := Some data\<rparr>))"

definition PipeWriter_end :: "nat \<Rightarrow> io_pipe \<Rightarrow> (nat \<times> go_error option, io_pipe) run" where
  "PipeWriter_end len p =
     (case pp_offer p of
        None \<Rightarrow> Ret (len, None) p
      | Some rest \<Rightarrow>
          if pipe_done p then Ret (len - length rest, Some (writeCloseError p)) (p\<lparr>pp_offer := None\<rparr>)
          else Block p)"

section \<open>Connections\<close>

record fileConn =
  fc_fid :: u64
  fc_closed :: bool
  fc_out :: io_pipe
  fc_in :: io_pipe

definition fileConn_Close :: "fileConn \<Rightarrow> go_error option \<times> fileConn" where
  "fileConn_Close c =
     (let c = c\<lparr>fc_closed := True\<rparr>;
          c = c\<lparr>fc_in := PipeReader_CloseWithError EOF (fc_in c)\<rparr>;
          c = c\<lparr>fc_out := PipeWriter_CloseWithError EOF (fc_out c)\<rparr>;
          c = c\<lparr>fc_in := PipeWriter_CloseWithError EOF (fc_in c)\<rparr>;
          c = c\<lparr>fc_out := PipeReader_CloseWithError EOF (fc_out c)\<rparr>
      in (None, c))"

definition fileConn_isClosed :: "fileConn \<Rightarrow> bool" where
  "fileConn_isClosed c = fc_closed c"

definition handleRead :: "u64 \<Rightarrow> fileConn \<Rightarrow> (go_error + bytes, fileConn) run" where
  "handleRead cnt c =
     (case PipeReader_Read (unat cnt) (fc_out c) of
        Ret (Inr d) p \<Rightarrow> Ret (Inr d) (c\<lparr>fc_out := p\<rparr>)
      | Ret (Inl e) p \<Rightarrow> Ret (if e = EOF then Inr [] else Inl e) (c\<lparr>fc_out := p\<rparr>)
      | Block p \<Rightarrow> Block (c\<lparr>fc_out := p\<rparr>)
      | Panics \<Rightarrow> Panics)"

definition handleWrite_begin :: "bytes \<Rightarrow> fileConn \<Rightarrow> (go_error + unit, fileConn) run" where
  "handleWrite_begin data c =
     (case PipeWriter_begin data (fc_in c) of
        Ret r p \<Rightarrow> Ret r (c\<lparr>fc_in := p\<rparr>) | Block p \<Rightarrow> Block c | Panics \<Rightarrow> Panics)"

definition handleWrite_end :: "bytes \<Rightarrow> fileConn \<Rightarrow> (u32 \<times> go_error option, fileConn) run" where
  "handleWrite_end data c =
     (case PipeWriter_end (length data) (fc_in c) of
        Ret (n, e) p \<Rightarrow> Ret (of_nat n, e) (c\<lparr>fc_in := p\<rparr>) | Block p \<Rightarrow> Block c | Panics \<Rightarrow> Panics)"

definition fileConn_Read :: "nat \<Rightarrow> fileConn \<Rightarrow> (go_error + bytes, fileConn) run" where
  "fileConn_Read len c =
     (case PipeReader_Read len (fc_in c) of
        Ret (Inr d) p \<Rightarrow> Ret (Inr d) (c\<lparr>fc_in := p\<rparr>)
      | Ret (Inl e) p \<Rightarrow> Ret (Inl (if e = ErrClosedPipe then EOF else e)) (c\<lparr>fc_in := p\<rparr>)
      | Block p \<Rightarrow> Block (c\<lparr>fc_in := p\<rparr>)
      | Panics \<Rightarrow> Panics)"

definition fileConn_Write_begin :: "bytes \<Rightarrow> fileConn \<Rightarrow> (go_error + unit, fileConn) run" where
  "fileConn_Write_begin data c =
     (case PipeWriter_begin data (fc_out c) of
        Ret (Inr u) p \<Rightarrow> Ret (Inr u) (c\<lparr>fc_out := p\<rparr>)
      | Ret (Inl e) p \<Rightarrow> Ret (Inl (if e = ErrClosedPipe then EOF else e)) (c\<lparr>fc_out := p\<rparr>)
      | Block p \<Rightarrow> Block c
      | Panics \<Rightarrow> Panics)"

definition fileConn_Write_end :: "bytes \<Rightarrow> fileConn \<Rightarrow> (nat \<times> go_error option, fileConn) run" where
  "fileConn_Write_end data c =
     (case PipeWriter_end (length data) (fc_out c) of
        Ret (n, e) p \<Rightarrow> Ret (n, if e = Some ErrClosedPipe then Some EOF else e) (c\<lparr>fc_out := p\<rparr>)
      | Block p \<Rightarrow> Block c
      | Panics \<Rightarrow> Panics)"

definition fileConn_SetDeadline :: "fileConn \<Rightarrow> go_error option" where
  "fileConn_SetDeadline c = Some (ErrorString ''TODO'')"

section \<open>The listening file\<close>

text \<open>Connections are addresses into \<open>lf_objs\<close>.\<close>

record ListenFile = BaseFile +
  lf_closed :: bool
  lf_objs :: "fileConn list"
  lf_conns :: "u64 \<rightharpoonup> nat"
  lf_incoming :: "nat chan"

definition NewListenFile :: "Stat \<Rightarrow> ListenFile" where
  "NewListenFile s =
     \<lparr>bf_fStat = s, bf_parent = None, lf_closed = False, lf_objs = [], lf_conns = Map.empty,
      lf_incoming = make_chan 10\<rparr>"

abbreviation set_conn :: "nat \<Rightarrow> fileConn \<Rightarrow> ListenFile \<Rightarrow> ListenFile" where
  "set_conn i c f \<equiv> f\<lparr>lf_objs := (lf_objs f)[i := c]\<rparr>"

definition connForFid :: "u64 \<Rightarrow> ListenFile \<Rightarrow> nat option" where
  "connForFid fid f = lf_conns f fid"

text \<open>An \<^verbatim>\<open>Open\<close> that waits has registered its connection and only has to send it.\<close>

definition ListenFile_announce :: "nat \<Rightarrow> ListenFile \<Rightarrow> (go_error option, ListenFile) run" where
  "ListenFile_announce i f =
     (case chan_send i (lf_incoming f) of
        Ret _ ch \<Rightarrow> Ret None (f\<lparr>lf_incoming := ch\<rparr>) | Block _ \<Rightarrow> Block f | Panics \<Rightarrow> Panics)"

definition ListenFile_Open :: "u64 \<Rightarrow> Mode \<Rightarrow> ListenFile \<Rightarrow> (go_error option, ListenFile) run" where
  "ListenFile_Open fid omode f =
     (if lf_closed f then Ret (Some (ErrorString ''Server closed the connection.'')) f
      else (let i = length (lf_objs f);
                conn = \<lparr>fc_fid = fid, fc_closed = False, fc_out = io_Pipe, fc_in = io_Pipe\<rparr>;
                f = f\<lparr>lf_objs := lf_objs f @ [conn], lf_conns := (lf_conns f)(fid \<mapsto> i)\<rparr>
            in ListenFile_announce i f))"

definition ListenFile_Read ::
    "u64 \<Rightarrow> u64 \<Rightarrow> u64 \<Rightarrow> ListenFile \<Rightarrow> (go_error + bytes, ListenFile) run" where
  "ListenFile_Read fid offset cnt f =
     (case connForFid fid f of
        None \<Rightarrow> Ret (Inl (ErrorString ''Bad FID'')) f
      | Some i \<Rightarrow>
          (case handleRead cnt (lf_objs f ! i) of
             Ret d c \<Rightarrow> Ret d (set_conn i c f) | Block c \<Rightarrow> Block f | Panics \<Rightarrow> Panics))"

definition ListenFile_Write_begin ::
    "u64 \<Rightarrow> u64 \<Rightarrow> bytes \<Rightarrow> ListenFile \<Rightarrow> (go_error + unit, ListenFile) run" where
  "ListenFile_Write_begin fid offset data f =
     (case connForFid fid f of
        None \<Rightarrow> Ret (Inl (ErrorString ''Bad FID'')) f
      | Some i \<Rightarrow>
          (case handleWrite_begin data (lf_objs f ! i) of
             Ret d c \<Rightarrow> Ret d (set_conn i c f) | Block c \<Rightarrow> Block f | Panics \<Rightarrow> Panics))"

definition ListenFile_Close :: "u64 \<Rightarrow> ListenFile \<Rightarrow> go_error option \<times> ListenFile" where
  "ListenFile_Close fid f =
     (case lf_conns f fid of
        None \<Rightarrow> (Some (ErrorString ''Bad FID.''), f)
      | Some i \<Rightarrow>
          (let (e, c) = fileConn_Close (lf_objs f ! i)
           in (e, set_conn i c (f\<lparr>lf_conns := (lf_conns f)(fid := None)\<rparr>))))"

definition Accept :: "ListenFile \<Rightarrow> (go_error + nat, ListenFile) run" where
  "Accept l =
     (case chan_recv (lf_incoming l) of
        Ret None ch \<Rightarrow> Ret (Inl (ErrorString ''Connection Closed'')) l
      | Ret (Some conn) ch \<Rightarrow> Ret (Inr conn) (l\<lparr>lf_incoming := ch\<rparr>)
      | Block _ \<Rightarrow> Block l
      | Panics \<Rightarrow> Panics)"

text \<open>
  The loop of \<^verbatim>\<open>ListenFileListener.Close\<close> that closes the connections nobody accepted. Its
  \<^verbatim>\<open>break\<close> leaves the \<^verbatim>\<open>select\<close>, not the loop. \<^const>\<open>None\<close> is a loop that
  never ends (or, on a closed channel, the nil connection's panic).
\<close>

partial_function (option) Close_drain :: "ListenFile \<Rightarrow> ListenFile option" where
  "Close_drain l =
     (case chan_recv (lf_incoming l) of
        Ret (Some i) ch \<Rightarrow> Close_drain (set_conn i (snd (fileConn_Close (lf_objs l ! i))) (l\<lparr>lf_incoming := ch\<rparr>))
      | Ret None ch \<Rightarrow> None
      | Block _ \<Rightarrow> Close_drain l
      | Panics \<Rightarrow> None)"

definition close_conns :: "nat set \<Rightarrow> fileConn list \<Rightarrow> fileConn list" where
  "close_conns I cs = map (\<lambda>i. if i \<in> I then snd (fileConn_Close (cs ! i)) else cs ! i) [0..<length cs]"

definition ListenFileListener_Close :: "ListenFile \<Rightarrow> (go_error option \<times> ListenFile) option" where
  "ListenFileListener_Close l = do {
     l \<leftarrow> Close_drain (l\<lparr>lf_closed := True\<rparr>);
     (case chan_close (lf_incoming l) of
        Ret _ ch \<Rightarrow>
          Some (None, l\<lparr>lf_incoming := ch, lf_objs := close_conns (ran (lf_conns l)) (lf_objs l),
                        lf_conns := Map.empty\<rparr>)
      | _ \<Rightarrow> None)
   }"

section \<open>Closing the listener\<close>

lemma Close_drain_None: "Close_drain l = None"
proof -
  have "False" if "Close_drain l = Some l'" for l l'
  proof (rule Close_drain.raw_induct [OF _ that])
    fix drain l l'
    assume "\<And>x y. drain x = Some y \<Longrightarrow> False"
      "(case chan_recv (lf_incoming l) of
        Ret None ch \<Rightarrow> None
      | Ret (Some i) ch \<Rightarrow> drain (set_conn i (snd (fileConn_Close (lf_objs l ! i))) (l\<lparr>lf_incoming := ch\<rparr>))
      | Block _ \<Rightarrow> drain l
      | Panics \<Rightarrow> None) = Some (l' :: ListenFile)"
    then show False by (auto split: run.splits option.splits)
  qed
  then show ?thesis by (cases "Close_drain l") auto
qed

section \<open>What travels through a pipe\<close>

text \<open>
  The histories: the bytes of the writes begun, the bytes read, the length of the write in progress,
  and whether a write was given up because the pipe closed.
\<close>

record piping =
  pg_p :: io_pipe
  pg_written :: bytes
  pg_got :: bytes
  pg_lost :: bool

definition piping_init :: piping where
  "piping_init = \<lparr>pg_p = io_Pipe, pg_written = [], pg_got = [], pg_lost = False\<rparr>"

inductive pipe_step :: "piping \<Rightarrow> piping \<Rightarrow> bool" where
  begin_write: "PipeWriter_begin data (pg_p g) = Ret (Inr ()) p \<Longrightarrow>
    pipe_step g (g\<lparr>pg_p := p, pg_written := pg_written g @ data\<rparr>)"
| end_write: "PipeWriter_end len (pg_p g) = Ret r p \<Longrightarrow>
    pipe_step g (g\<lparr>pg_p := p, pg_lost := pg_lost g \<or> snd r \<noteq> None\<rparr>)"
| read: "PipeReader_Read len (pg_p g) = Ret (Inr d) p \<Longrightarrow>
    pipe_step g (g\<lparr>pg_p := p, pg_got := pg_got g @ d\<rparr>)"
| close_reader: "pipe_step g (g\<lparr>pg_p := PipeReader_CloseWithError e (pg_p g)\<rparr>)"
| close_writer: "pipe_step g (g\<lparr>pg_p := PipeWriter_CloseWithError e (pg_p g)\<rparr>)"

definition piping_ok :: "piping \<Rightarrow> bool" where
  "piping_ok g \<longleftrightarrow>
     (if pg_lost g then prefix (pg_got g) (pg_written g) \<and> pipe_done (pg_p g)
      else pg_got g @ (case pp_offer (pg_p g) of Some rest \<Rightarrow> rest | None \<Rightarrow> []) = pg_written g)"

lemma pipe_step_ok:
  assumes "pipe_step g g'" "piping_ok g"
  shows "piping_ok g'"
  using assms(1)
proof (cases rule: pipe_step.cases)
  case (begin_write data p)
  then show ?thesis
    using assms(2) by (auto simp: piping_ok_def PipeWriter_begin_def split: if_splits option.splits)
next
  case (end_write len r p)
  then show ?thesis
    using assms(2)
    by (auto simp: piping_ok_def PipeWriter_end_def pipe_done_def split: if_splits option.splits
        intro: prefixI [OF sym])
next
  case (read len d p)
  then show ?thesis
    using assms(2) by (auto simp: piping_ok_def PipeReader_Read_def split: if_splits option.splits)
next
  case (close_reader e)
  then show ?thesis
    using assms(2)
    by (auto simp: piping_ok_def PipeReader_CloseWithError_def pipe_done_def split: if_splits)
next
  case (close_writer e)
  then show ?thesis
    using assms(2)
    by (auto simp: piping_ok_def PipeWriter_CloseWithError_def pipe_done_def split: if_splits)
qed

lemma pipe_run_ok:
  assumes "pipe_step\<^sup>*\<^sup>* piping_init g"
  shows "piping_ok g"
  using assms
proof (induction rule: rtranclp_induct)
  case base
  then show ?case by (simp add: piping_ok_def piping_init_def io_Pipe_def)
qed (rule pipe_step_ok)

text \<open>After the close both ends of both pipes report a closed pipe.\<close>

lemma closed_conn_pipes:
  "pipe_done (fc_out (snd (fileConn_Close c)))" "pipe_done (fc_in (snd (fileConn_Close c)))"
  "pp_rerr (fc_out (snd (fileConn_Close c))) \<noteq> None" "pp_rerr (fc_in (snd (fileConn_Close c))) \<noteq> None"
  "pp_werr (fc_out (snd (fileConn_Close c))) \<noteq> None" "pp_werr (fc_in (snd (fileConn_Close c))) \<noteq> None"
  by (simp_all add: fileConn_Close_def PipeReader_CloseWithError_def PipeWriter_CloseWithError_def
      pipe_done_def Let_def)

lemma closed_conn_errors:
  "handleRead n (snd (fileConn_Close c)) = Ret (Inl ErrClosedPipe) (snd (fileConn_Close c))"
  "fileConn_Read m (snd (fileConn_Close c)) = Ret (Inl EOF) (snd (fileConn_Close c))"
  using closed_conn_pipes [of c]
  by (auto simp: handleRead_def fileConn_Read_def PipeReader_Read_def readCloseError_def split: option.splits)

end
