(* ===== verification/Stream_Claims.thy ===== *)
theory Stream_Claims
  imports Stream_Progress Stream_File Listener
begin

text \<open>
  What the streams, stream files and the listening file of the package fs guarantee.
\<close>

section \<open>A run with one reader and one slice\<close>

definition ex_reader :: "bytes list \<Rightarrow> chanReader" where
  "ex_reader sl = \<lparr>cr_read = \<lparr>ch_buf = sl, ch_cap = 1, ch_closed = False\<rparr>, cr_unread = [], cr_live = True\<rparr>"

definition ex_stream :: "bytes list \<Rightarrow> baseStream" where
  "ex_stream sl = \<lparr>bs_objs = [ex_reader sl], bs_readers = [0], bs_read = [], bs_bufflen = 1,
     bs_incoming = make_chan 10, bs_close = make_chan 0\<rparr>"

definition ex_sys :: "bytes list \<Rightarrow> bytes list \<Rightarrow> write_state \<Rightarrow> sys" where
  "ex_sys wr sl st = \<lparr>y_s = ex_stream sl, y_w = st, y_written = (\<lambda>r. if r = 0 then wr else []),
     y_sent = (\<lambda>r. if r = 0 then sl else []), y_got = (\<lambda>_. []), y_in = [], y_srv = []\<rparr>"

lemma ex_sys_sel [simp]:
  "y_s (ex_sys wr sl st) = ex_stream sl" "y_w (ex_sys wr sl st) = st" "y_got (ex_sys wr sl st) r = []"
  "y_written (ex_sys wr sl st) 0 = wr" "y_in (ex_sys wr sl st) = []" "y_srv (ex_sys wr sl st) = []"
  "bs_objs (ex_stream sl) = [ex_reader sl]" "bs_readers (ex_stream sl) = [0]"
  "cr_live (ex_reader sl)" "pending (ex_reader sl) = concat sl" "arrived (ex_stream sl) = []"
  by (simp_all add: ex_sys_def ex_stream_def ex_reader_def pending_def arrived_def)

lemma ex_add:
  assumes "s \<in> {NewDroppingStream 1, NewBlockingStream 1, NewSkippingStream 1}"
  shows "base_step (sys_init s) (ex_sys [] [] NoWrite)"
proof -
  have "AddReadWriter s = Ret 0 (ex_stream [])"
    using assms by (auto simp: NewDroppingStream_def NewBlockingStream_def NewSkippingStream_def
        AddReadWriter_def baseStream_closed_def make_chan_def chan_recv_def ex_stream_def ex_reader_def Let_def)
  then have "base_step (sys_init s) ((sys_init s)\<lparr>y_s := ex_stream []\<rparr>)"
    by (intro base_step.add) (simp_all add: sys_init_def)
  then show ?thesis by (simp add: sys_init_def ex_sys_def)
qed

lemma stream_run:
  "(stream_step w)\<^sup>*\<^sup>* y y1 \<Longrightarrow> w y1 y2 \<Longrightarrow> (stream_step w)\<^sup>*\<^sup>* y y2"
  "(stream_step w)\<^sup>*\<^sup>* y y1 \<Longrightarrow> base_step y1 y2 \<Longrightarrow> (stream_step w)\<^sup>*\<^sup>* y y2"
  by (simp_all add: rtranclp.rtrancl_into_rtrancl stream_step_def)

lemma ex_log:
  "log_slice {0} p (\<lambda>r. if r = 0 then sl else []) = (\<lambda>r. if r = (0 :: nat) then sl @ [p] else [])"
  "log_slice {0} p (\<lambda>r. []) = (\<lambda>r. if r = (0 :: nat) then [p] else [])"
  by (auto simp: log_slice_def)




lemma ex_looping:
  assumes "w = dropping_write \<and> s = NewDroppingStream 1 \<or> w = skipping_write \<and> s = NewSkippingStream 1"
  shows "(stream_step w)\<^sup>*\<^sup>* (sys_init s) (ex_sys [p] [p] (Looping p [] [0]))"
proof -
  let ?y = "ex_sys [] [] NoWrite" and ?y1 = "ex_sys [p] [] (Looping p [0] [])"
  have "dropping_write ?y (?y\<lparr>y_w := Looping p [0] [], y_written := log_slice (set [0]) p (y_written ?y)\<rparr>)"
    "skipping_write ?y (?y\<lparr>y_w := Looping p [0] [], y_written := log_slice (set [0]) p (y_written ?y)\<rparr>)"
    by (rule dropping_write.start skipping_write.start; simp)+
  then have 1: "w ?y ?y1" using assms by (auto simp: ex_sys_def ex_log cong: if_cong)
  have off: "offer 0 p (ex_stream []) = Ret () (ex_stream [p])"
    by (simp add: ex_stream_def ex_reader_def offer_def chan_send_def)
  have "dropping_write ?y1 (?y1\<lparr>y_s := ex_stream [p], y_w := Looping p [] ([] @ [0]), y_sent := log_slice {0} p (y_sent ?y1)\<rparr>)"
    by (rule dropping_write.deliver) (simp_all add: DroppingStream_body_def off)
  moreover have "skipping_write ?y1 (?y1\<lparr>y_s := ex_stream [p], y_w := Looping p [] ([] @ [0]), y_sent := log_slice {0} p (y_sent ?y1)\<rparr>)"
    by (rule skipping_write.deliver) (simp_all add: SkippingStream_body_def off)
  ultimately have 2: "w ?y1 (ex_sys [p] [p] (Looping p [] [0]))" using assms by (auto simp: ex_sys_def ex_log cong: if_cong)
  have "(stream_step w)\<^sup>*\<^sup>* (sys_init s) ?y"
    using ex_add [of s] assms by (intro stream_run(2) [OF rtranclp.rtrancl_refl]) auto
  then show ?thesis using 1 2 by (blast intro: stream_run(1))
qed

section \<open>Fan-out streams\<close>

lemma gapless_delivers:
  assumes "gapless y" "r < length (bs_objs (y_s y))"
    "y_got y r @ pending (bs_objs (y_s y) ! r) = concat (y_sent y r)"
  shows "prefix (y_got y r @ pending (bs_objs (y_s y) ! r)) (concat (y_written y r)) \<and>
    (cr_live (bs_objs (y_s y) ! r) \<longrightarrow>
       y_got y r @ pending (bs_objs (y_s y) ! r) @ concat (due (y_w y) r) = concat (y_written y r))"
  using concat_prefix [OF gaplessD(1) [OF assms(1), of r]] gaplessD(2) [OF assms(1,2), symmetric] assms(3)
  by (metis append.assoc concat_append)





text \<open>
  C17: A reader of a dropping stream never misses data in the middle: what it reads is a beginning of
  what was written since it was added, and as long as the stream has not dropped it, it is
  everything.
\<close>

theorem dropping_stream_prefix:
  assumes "(stream_step dropping_write)\<^sup>*\<^sup>* (sys_init (NewDroppingStream n)) y"
    and "r < length (bs_objs (y_s y))"
  shows "prefix (y_got y r @ pending (bs_objs (y_s y) ! r)) (concat (y_written y r)) \<and>
    (cr_live (bs_objs (y_s y) ! r) \<longrightarrow>
       y_got y r @ pending (bs_objs (y_s y) ! r) @ concat (due (y_w y) r) = concat (y_written y r))"
  using dropping.run_ok [OF assms(1)] dropping.run_reader [OF assms(1) _ assms(2)] assms(2)
  by (intro gapless_delivers) simp_all

theorem dropping_stream_prefix_witness:
  "(stream_step dropping_write)\<^sup>*\<^sup>* (sys_init (NewDroppingStream 1)) (ex_sys [[1, 2]] [[1, 2]] (Looping [1, 2] [] [0])) \<and>
   prefix ([] @ pending (ex_reader [[1, 2]])) (concat [[1, 2]])"
  using dropping_stream_prefix [OF ex_looping [of dropping_write "NewDroppingStream 1" "[1, 2]"], of 0]
    ex_looping [of dropping_write "NewDroppingStream 1" "[1, 2]"]
  by simp

text \<open>
  C18: A reader of a skipping stream may miss slices, but never a part of one: what it reads, with
  what waits for it, is made of whole slices written since it was added, in their order.
\<close>

theorem skipping_stream_subsequence:
  assumes "(stream_step skipping_write)\<^sup>*\<^sup>* (sys_init (NewSkippingStream n)) y"
    and "r < length (bs_objs (y_s y))"
  shows "\<exists>sl. subseq sl (y_written y r) \<and> y_got y r @ pending (bs_objs (y_s y) ! r) = concat sl"
proof -
  have "gappy y" using skipping.run_ok [OF assms(1)] by simp
  then obtain w where "y_written y r = w @ due (y_w y) r" "subseq (y_sent y r) w"
    unfolding gappy_def by blast
  then have "subseq (y_sent y r) (y_written y r)" by (simp add: subseq_rev_drop_many)
  moreover have "y_got y r @ pending (bs_objs (y_s y) ! r) = concat (y_sent y r)"
    using skipping.run_reader [OF assms(1) _ assms(2)] by simp
  ultimately show ?thesis by blast
qed

theorem skipping_stream_subsequence_witness:
  "(stream_step skipping_write)\<^sup>*\<^sup>* (sys_init (NewSkippingStream 1)) (ex_sys [[1, 2]] [[1, 2]] (Looping [1, 2] [] [0])) \<and>
   (\<exists>sl. subseq sl [[1, 2]] \<and> [] @ pending (ex_reader [[1, 2]]) = concat sl)"
  using skipping_stream_subsequence [OF ex_looping [of skipping_write "NewSkippingStream 1" "[1, 2]"], of 0]
    ex_looping [of skipping_write "NewSkippingStream 1" "[1, 2]"]
  by simp

text \<open>
  C36: In the other direction nothing is lost on any of the three streams: what the program has read
  from the stream and what is still under way to it are the data its readers wrote, in the
  order of their writes.
\<close>

theorem readers_data_arrives:
  assumes "w = dropping_write \<or> w = blocking_write \<or> w = skipping_write" "new_stream s"
    and "(stream_step w)\<^sup>*\<^sup>* (sys_init s) y"
  shows "y_srv y @ arrived (y_s y) = concat (y_in y)"
  using assms dropping.run_stream blocking.run_stream skipping.run_stream by blast

theorem readers_data_arrives_witness:
  "\<exists>y. (stream_step blocking_write)\<^sup>*\<^sup>* (sys_init (NewBlockingStream 1)) y \<and> y_in y = [[7, 8], [9]] \<and>
     y_srv y @ arrived (y_s y) = [7, 8, 9]"
proof -
  let ?s = "NewBlockingStream 1" and ?ch = "\<lambda>b. (make_chan 10)\<lparr>ch_buf := b\<rparr> :: bytes chan"
  let ?y1 = "(sys_init ?s)\<lparr>y_s := ?s\<lparr>bs_incoming := ?ch [[7, 8]]\<rparr>, y_in := [[7, 8]]\<rparr>"
  let ?y = "(sys_init ?s)\<lparr>y_s := ?s\<lparr>bs_incoming := ?ch [[7, 8], [9]]\<rparr>, y_in := [[7, 8], [9]]\<rparr>"
  have w: "chanReader_Write p (?s\<lparr>bs_incoming := ?ch b\<rparr>) = Ret (Inr (length p)) (?s\<lparr>bs_incoming := ?ch (b @ [p])\<rparr>)"
    if "length b < 10" for p b
    using that by (simp add: chanReader_Write_def NewBlockingStream_def baseStream_closed_def chan_recv_def
        make_chan_def chan_send_def)
  have "base_step (sys_init ?s) ?y1"
    using base_step.reader_write [of "[7, 8]" "sys_init ?s"] w [of "[]" "[7, 8]"]
    by (simp add: sys_init_def NewBlockingStream_def make_chan_def)
  moreover have "base_step ?y1 ?y"
    using base_step.reader_write [of "[9]" ?y1] w [of "[[7, 8]]" "[9]"]
    by (simp add: sys_init_def NewBlockingStream_def make_chan_def)
  ultimately have run: "(stream_step blocking_write)\<^sup>*\<^sup>* (sys_init ?s) ?y"
    by (blast intro: stream_run(2) rtranclp.rtrancl_refl)
  from readers_data_arrives [OF _ _ run] show ?thesis using run by (intro exI [of _ ?y]) simp
qed

section \<open>Saved and single streams\<close>

text \<open>
  C16: A reader of a saved stream gets the file's old contents and everything written since, in order:
  what it has read is a beginning of it, and the next read of a live reader returns what follows.
  It waits only when nothing follows, and sees the end of the stream only then and after the
  stream is closed.
\<close>

theorem saved_stream_replays:
  assumes "saved_step\<^sup>*\<^sup>* (saved_init disk s) v" "NewSavedStream None disk = Inr s"
    and "r < length (sv_objs (v_s v))" "fr_live (sv_objs (v_s v) ! r)" "0 < len"
  defines "rest \<equiv> drop (length (v_got v r)) (disk @ v_written v)"
  shows "v_got v r @ rest = disk @ v_written v \<and>
    (case fileReader_Read None len (sv_disk (v_s v)) (sv_objs (v_s v) ! r) of
       Ret (Inr d) fr \<Rightarrow> rest \<noteq> [] \<and> d = take len rest
     | Ret (Inl e) fr \<Rightarrow> rest = [] \<and> e = EOF \<and> sv_closed (v_s v)
     | Block fr \<Rightarrow> rest = []
     | Panics \<Rightarrow> False)"
proof -
  note ok = saved_okD [OF saved_run_ok [OF assms(1,2)]]
  let ?fr = "sv_objs (v_s v) ! r" and ?disk = "sv_disk (v_s v)"
  have disk: "?disk = disk @ v_written v" using ok(1) saved_start [OF assms(1)] by (simp add: saved_init_def)
  have fr: "fr_off ?fr \<le> length ?disk" "v_got v r = take (fr_off ?fr) ?disk"
    "ch_closed (fr_signal ?fr) \<longrightarrow> sv_closed (v_s v)"
    using ok(2) [OF assms(3)] by (simp_all add: file_reader_ok_def Let_def)
  have rest: "rest = drop (fr_off ?fr) ?disk" unfolding rest_def disk [symmetric] using fr(1,2) by simp
  show ?thesis
  proof (cases "fr_off ?fr < length ?disk")
    case True
    then show ?thesis
      using fileReader_Read_data [OF assms(4), of len ?disk] rest fr(2)
      unfolding disk [symmetric] by simp
  next
    case False
    then show ?thesis
      using fileReader_Read_end [OF assms(4,5), of ?disk] rest fr
      unfolding disk [symmetric] by (simp add: Let_def)
  qed
qed

theorem saved_stream_replays_witness:
  "\<exists>s v. NewSavedStream None [1, 2] = Inr s \<and> saved_step\<^sup>*\<^sup>* (saved_init [1, 2] s) v \<and>
     fr_live (sv_objs (v_s v) ! 0) \<and>
     (case fileReader_Read None 1 (sv_disk (v_s v)) (sv_objs (v_s v) ! 0) of Ret (Inr d) fr \<Rightarrow> d = [1] | _ \<Rightarrow> False)"
proof -
  let ?s = "\<lparr>sv_disk = [1, 2], sv_open = True, sv_objs = [], sv_readers = [], sv_closed = False\<rparr>"
  let ?fr = "\<lparr>fr_file = True, fr_off = 0, fr_signal = make_chan 1, fr_live = True\<rparr>"
  let ?v = "(saved_init [1, 2] ?s)\<lparr>v_s := ?s\<lparr>sv_objs := [?fr], sv_readers := [0]\<rparr>\<rparr>"
  have s: "NewSavedStream None [1, 2] = Inr ?s" by (simp add: NewSavedStream_def)
  have "SavedStream_AddReader None ?s = Ret 0 (?s\<lparr>sv_objs := [?fr], sv_readers := [0]\<rparr>)"
    by (simp add: SavedStream_AddReader_def Let_def)
  then have run: "saved_step\<^sup>*\<^sup>* (saved_init [1, 2] ?s) ?v"
    by (intro r_into_rtranclp saved_step.add) (simp add: saved_init_def)
  from saved_stream_replays [OF run s, of 0 1]
  have "case fileReader_Read None 1 [1, 2] ?fr of Ret (Inr d) fr \<Rightarrow> d = [1] | _ \<Rightarrow> False"
    by (auto simp: saved_init_def split: run.splits sum.splits)
  then show ?thesis using s run by (intro exI [of _ ?s] exI [of _ ?v]) (simp add: saved_init_def)
qed



section \<open>Stream files and the listening file\<close>

text \<open>
  C38: The fids of a two-way stream file do not disturb each other: a read through a fid returns the
  next bytes waiting for that fid and takes exactly them; what waits for the other fids stays. The
  same holds, with nothing taken, for opening and closing other fids and for writes.
\<close>

theorem stream_file_fids_independent:
  assumes "bidi_file_ok f" "fid_pending f fid = Some p"
  shows "(BiDiStreamFile_Read fid offset cnt f = Ret res f1 \<longrightarrow>
      res = Inr (take (unat cnt) p) \<and> fid_pending f1 = (fid_pending f)(fid \<mapsto> drop (unat cnt) p) \<and> bidi_file_ok f1) \<and>
    (BiDiStreamFile_Open fid' omode f = Ret e f1 \<longrightarrow>
      e = None \<and> fid_pending f1 = (fid_pending f)(fid' \<mapsto> []) \<and> bidi_file_ok f1) \<and>
    (BiDiStreamFile_Close fid' f = Ret e f1 \<longrightarrow>
      e = None \<and> fid_pending f1 = (fid_pending f)(fid' := None) \<and> bidi_file_ok f1) \<and>
    (BiDiStreamFile_Write fid' offset data f = Ret n f1 \<longrightarrow> fid_pending f1 = fid_pending f \<and> bidi_file_ok f1)"
  using BiDiStreamFile_Read_ok [OF assms, of offset cnt res f1] BiDiStreamFile_Open_ok [OF assms(1), of fid' omode e f1]
    BiDiStreamFile_Close_ok [OF assms(1), of fid' e f1] BiDiStreamFile_Write_ok [OF assms(1), of fid' offset data n f1]
  by (auto simp: fun_eq_iff)

definition ex_bidi :: "bytes list \<Rightarrow> BiDiStreamFile" where
  "ex_bidi sl = \<lparr>bf_fStat = \<lparr>st_Type = 0, st_Dev = 0, st_Qid = \<lparr>q_Qtype = 0, q_Vers = 0, q_Uid = 0\<rparr>,
       st_Mode = 438, st_Atime = 0, st_Mtime = 0, st_Length = 0, st_Name = ''log'', st_Uid = ''glenda'',
       st_Gid = ''glenda'', st_Muid = ''''\<rparr>, bf_parent = None,
     bd_s = ex_stream sl, bd_fidReader = [3 \<mapsto> 0]\<rparr>"

theorem stream_file_fids_independent_witness:
  "bidi_file_ok (ex_bidi [[1, 2]]) \<and> fid_pending (ex_bidi [[1, 2]]) 3 = Some [1, 2] \<and>
   (\<exists>f1. BiDiStreamFile_Open 4 Oread (ex_bidi [[1, 2]]) = Ret None f1 \<and> fid_pending f1 3 = Some [1, 2] \<and>
      fid_pending f1 4 = Some [])"
proof -
  have ok: "bidi_file_ok (ex_bidi [[1, 2]])" "fid_pending (ex_bidi [[1, 2]]) 3 = Some [1, 2]"
    by (simp_all add: ex_bidi_def bidi_file_ok_def fid_pending_def lives_ok_def ex_stream_def ex_reader_def pending_def)
  obtain f1 where f1: "BiDiStreamFile_Open 4 Oread (ex_bidi [[1, 2]]) = Ret None f1"
    by (simp add: ex_bidi_def BiDiStreamFile_Open_def ex_stream_def AddReadWriter_def baseStream_closed_def
        make_chan_def chan_recv_def Let_def)
  have "fid_pending f1 = (fid_pending (ex_bidi [[1, 2]]))(4 \<mapsto> [])"
    using stream_file_fids_independent [OF ok, of 0 0 undefined f1 4 Oread None] f1 by simp
  then show ?thesis using ok f1 by auto
qed

text \<open>
  C39: Opening a listening file makes a connection: it is queued behind the earlier ones for
  \<^verbatim>\<open>Accept\<close>, no other fid's connection changes, and the two ends are joined in both directions:
  what the client writes to the fid the program reads from the connection, and what the program
  writes the client reads.
\<close>

theorem listener_open_connects:
  assumes "\<not> lf_closed f" "\<not> ch_closed (lf_incoming f)" "length (ch_buf (lf_incoming f)) < ch_cap (lf_incoming f)"
    and "\<forall>fid'. \<forall>j. lf_conns f fid' = Some j \<longrightarrow> j < length (lf_objs f)"
  defines "i \<equiv> length (lf_objs f)"
  shows "\<exists>f1. ListenFile_Open fid omode f = Ret None f1 \<and>
    ch_buf (lf_incoming f1) = ch_buf (lf_incoming f) @ [i] \<and> connForFid fid f1 = Some i \<and>
    (\<forall>fid'. \<forall>j. fid' \<noteq> fid \<and> connForFid fid' f = Some j \<longrightarrow>
       connForFid fid' f1 = Some j \<and> lf_objs f1 ! j = lf_objs f ! j) \<and>
    (\<exists>f2 c. ListenFile_Write_begin fid offset data f1 = Ret (Inr ()) f2 \<and>
       fileConn_Read len (lf_objs f2 ! i) = Ret (Inr (take len data)) c) \<and>
    (\<exists>c f2. fileConn_Write_begin data (lf_objs f1 ! i) = Ret (Inr ()) c \<and>
       ListenFile_Read fid offset cnt (set_conn i c f1) = Ret (Inr (take (unat cnt) data)) f2)"
proof -
  let ?c = "\<lparr>fc_fid = fid, fc_closed = False, fc_out = io_Pipe, fc_in = io_Pipe\<rparr>"
  let ?f = "f\<lparr>lf_objs := lf_objs f @ [?c], lf_conns := (lf_conns f)(fid \<mapsto> i),
      lf_incoming := (lf_incoming f)\<lparr>ch_buf := ch_buf (lf_incoming f) @ [i]\<rparr>\<rparr>"
  have 1: "ListenFile_Open fid omode f = Ret None ?f"
    using assms(1-3) by (simp add: ListenFile_Open_def ListenFile_announce_def chan_send_def Let_def i_def)
  have 2: "ListenFile_Write_begin fid offset data ?f =
      Ret (Inr ()) (set_conn i (?c\<lparr>fc_in := io_Pipe\<lparr>pp_offer := Some data\<rparr>\<rparr>) ?f)"
    by (simp add: ListenFile_Write_begin_def connForFid_def handleWrite_begin_def PipeWriter_begin_def
        pipe_done_def io_Pipe_def i_def)
  have 3: "fileConn_Write_begin data ?c = Ret (Inr ()) (?c\<lparr>fc_out := io_Pipe\<lparr>pp_offer := Some data\<rparr>\<rparr>)"
    by (simp add: fileConn_Write_begin_def PipeWriter_begin_def pipe_done_def io_Pipe_def)
  have 4: "\<exists>c. fileConn_Read len (?c\<lparr>fc_in := io_Pipe\<lparr>pp_offer := Some data\<rparr>\<rparr>) = Ret (Inr (take len data)) c"
    by (simp add: fileConn_Read_def PipeReader_Read_def pipe_done_def io_Pipe_def)
  have 5: "\<exists>c. handleRead cnt (?c\<lparr>fc_out := io_Pipe\<lparr>pp_offer := Some data\<rparr>\<rparr>) = Ret (Inr (take (unat cnt) data)) c"
    by (simp add: handleRead_def PipeReader_Read_def pipe_done_def io_Pipe_def)
  have 6: "lf_objs ?f ! i = ?c" "i < length (lf_objs ?f)" by (simp_all add: i_def)
  show ?thesis
    using assms(4) 2 3 4 5 6 unfolding 1
    by (intro exI [of _ ?f]) (auto simp: connForFid_def nth_append ListenFile_Read_def)
qed

theorem listener_open_connects_witness:
  "\<exists>f1. ListenFile_Open 3 Ordwr (NewListenFile (bf_fStat (ex_bidi []))) = Ret None f1 \<and>
     (\<exists>f2 c. ListenFile_Write_begin 3 0 [1, 2, 3] f1 = Ret (Inr ()) f2 \<and> fileConn_Read 2 (lf_objs f2 ! 0) = Ret (Inr [1, 2]) c)"
proof -
  let ?f = "NewListenFile (bf_fStat (ex_bidi []))"
  have "\<not> lf_closed ?f" "\<not> ch_closed (lf_incoming ?f)" "length (ch_buf (lf_incoming ?f)) < ch_cap (lf_incoming ?f)"
    "\<forall>fid'. \<forall>j. lf_conns ?f fid' = Some j \<longrightarrow> j < length (lf_objs ?f)"
    by (simp_all add: NewListenFile_def make_chan_def)
  from listener_open_connects [OF this, of 3 Ordwr 0 "[1, 2, 3]" 2 0]
  show ?thesis by (auto simp: NewListenFile_def)
qed

text \<open>
  C40: \<^verbatim>\<open>Close\<close> of the listener never returns: the loop that drains the connections nobody accepted
  has no way out, so it spins with the lock held.
\<close>

theorem listener_close_never_returns: "ListenFileListener_Close l = None"
  by (simp add: ListenFileListener_Close_def Close_drain_None)

end
