(* ===== verification/Go_Path.thy ===== *)
theory Go_Path
  imports Go_Chan
begin

text \<open>
  The functions of Go's packages strings, path and path/filepath that the client and the union file
  system use on slash-separated names: \<^verbatim>\<open>strings.Split\<close>, \<^verbatim>\<open>strings.TrimPrefix\<close>,
  \<^verbatim>\<open>path.Clean\<close>, \<^verbatim>\<open>path.Dir\<close>, \<^verbatim>\<open>path.Base\<close>, \<^verbatim>\<open>filepath.Join\<close>
  and \<^verbatim>\<open>filepath.Rel\<close> on Unix.
\<close>

fun split_on :: "char \<Rightarrow> string \<Rightarrow> string list" where
  "split_on c [] = [[]]"
| "split_on c (x # xs) =
     (if x = c then [] # split_on c xs
      else case split_on c xs of p # ps \<Rightarrow> (x # p) # ps | [] \<Rightarrow> [[x]])"

fun join_with :: "char \<Rightarrow> string list \<Rightarrow> string" where
  "join_with c [] = []"
| "join_with c [p] = p"
| "join_with c (p # ps) = p @ c # join_with c ps"

abbreviation (input) slash :: char where "slash \<equiv> CHR ''/''"

definition TrimPrefix :: "string \<Rightarrow> string \<Rightarrow> string" where
  "TrimPrefix s pre = (if take (length pre) s = pre then drop (length pre) s else s)"

text \<open>The elements of a cleaned path; \<open>out\<close> holds those found, the last one first.\<close>

fun clean_parts :: "bool \<Rightarrow> string list \<Rightarrow> string list \<Rightarrow> string list" where
  "clean_parts rooted out [] = rev out"
| "clean_parts rooted out (p # ps) =
     (if p = [] \<or> p = ''.'' then clean_parts rooted out ps
      else if p = ''..''
      then (case out of
              q # qs \<Rightarrow> if q = ''..'' then clean_parts rooted (''..'' # out) ps else clean_parts rooted qs ps
            | [] \<Rightarrow> if rooted then clean_parts rooted [] ps else clean_parts rooted [''..''] ps)
      else clean_parts rooted (p # out) ps)"

definition is_rooted :: "string \<Rightarrow> bool" where
  "is_rooted s \<longleftrightarrow> take 1 s = [slash]"

definition path_Clean :: "string \<Rightarrow> string" where
  "path_Clean s =
     (if s = [] then ''.''
      else let body = join_with slash (clean_parts (is_rooted s) [] (split_on slash s))
           in if is_rooted s then slash # body else if body = [] then ''.'' else body)"

definition path_Dir :: "string \<Rightarrow> string" where
  "path_Dir s = path_Clean (rev (dropWhile (\<lambda>x. x \<noteq> slash) (rev s)))"

definition path_Base :: "string \<Rightarrow> string" where
  "path_Base s =
     (if s = [] then ''.''
      else let t = rev (dropWhile (\<lambda>x. x = slash) (rev s));
               u = rev (takeWhile (\<lambda>x. x \<noteq> slash) (rev t))
           in if u = [] then ''/'' else u)"

definition filepath_Join :: "string \<Rightarrow> string \<Rightarrow> string" where
  "filepath_Join a b =
     (case filter (\<lambda>s. s \<noteq> []) [a, b] of
        [] \<Rightarrow> []
      | ps \<Rightarrow> path_Clean (join_with slash ps))"

text \<open>
  \<^verbatim>\<open>filepath.Rel\<close> compares the cleaned paths element by element; it fails when one path is
  rooted and the other is not, or when it would have to go up through a \<^verbatim>\<open>..\<close> of the base.
\<close>

fun strip_common :: "string list \<Rightarrow> string list \<Rightarrow> string list \<times> string list" where
  "strip_common (x # xs) (y # ys) = (if x = y then strip_common xs ys else (x # xs, y # ys))"
| "strip_common xs ys = (xs, ys)"

definition path_elems :: "string \<Rightarrow> string list" where
  "path_elems s = filter (\<lambda>p. p \<noteq> [] \<and> p \<noteq> ''.'') (split_on slash (path_Clean s))"

definition filepath_Rel :: "string \<Rightarrow> string \<Rightarrow> string option" where
  "filepath_Rel basepath targpath =
     (if path_Clean basepath = path_Clean targpath then Some ''.''
      else if is_rooted (path_Clean basepath) \<noteq> is_rooted (path_Clean targpath) then None
      else let (b, t) = strip_common (path_elems basepath) (path_elems targpath)
           in if b \<noteq> [] \<and> hd b = ''..'' then None
              else Some (join_with slash (replicate (length b) ''..'' @ t)))"

lemma split_on_not_Nil [simp]: "split_on c s \<noteq> []"
  by (cases s) (auto split: list.splits)

lemma join_split [simp]: "join_with c (split_on c s) = s"
proof (induction s)
  case (Cons x xs)
  show ?case
  proof (cases "split_on c xs")
    case (Cons p ps)
    then show ?thesis using Cons.IH by (cases ps) auto
  qed simp
qed simp

lemma split_on_clean: "p \<in> set (split_on c s) \<Longrightarrow> c \<notin> set p"
proof (induction s arbitrary: p)
  case (Cons x xs)
  then show ?case by (cases "split_on c xs") (auto split: if_splits)
qed simp

end
