(* ===== verification/Client.thy ===== *)
theory Client
  imports Fcall_Codec Go_Path "HOL-Library.AList"
begin

text \<open>
  The 9P client of client/client.go. The connection with the server at its other end is a parameter
  \<open>rpc\<close> over a state \<open>'w\<close>: what becomes of a request, an error when it cannot be written, else
  the message the worker reads for it. An operation is \<^const>\<open>None\<close> when it panics or does not
  return. A goroutine the client starts for a clunk has done its work when the call that started
  it returns; the theory Client_Tags lets requests overlap.
\<close>

type_synonym 'w rpc = "fcall \<Rightarrow> 'w \<Rightarrow> (go_error + fcall) \<times> 'w"

section \<open>Tags and fids\<close>

text \<open>
  Response channels are numbered in the order they are made. \<open>cl_tagFids\<close> is an association list;
  its order is the order in which the map is iterated.
\<close>

record Client =
  cl_rootFid :: u32
  cl_tags :: "u16 list"
  cl_lastTag :: u16
  cl_fids :: "u32 list"
  cl_lastFid :: u32
  cl_calls :: "u16 \<rightharpoonup> nat"
  cl_nextch :: nat
  cl_tagFids :: "(u16 \<times> u32) list"
  cl_closed :: bool
  cl_pathCache :: "string \<rightharpoonup> u32"
  cl_msize :: u32

record File =
  fl_fid :: u32
  fl_offset :: u64
  fl_iounit :: u32

abbreviation (input) "NOFID \<equiv> - 1 :: u32"

definition stop :: "Client \<Rightarrow> Client" where
  "stop c = c\<lparr>cl_closed := True\<rparr>"

definition lockedTakeTag :: "u32 \<Rightarrow> Client \<Rightarrow> u16 \<times> Client" where
  "lockedTakeTag fid c =
     (if cl_tags c = [] then (let t = cl_lastTag c + 1 in (t, c\<lparr>cl_lastTag := t\<rparr>))
      else (let t = last (cl_tags c)
            in (t, c\<lparr>cl_tags := butlast (cl_tags c), cl_tagFids := AList.update t fid (cl_tagFids c)\<rparr>)))"

definition takeTag :: "u32 \<Rightarrow> Client \<Rightarrow> u16 \<times> Client" where
  "takeTag fid c = lockedTakeTag fid c"

definition returnTag :: "u16 \<Rightarrow> Client \<Rightarrow> Client" where
  "returnTag tag c =
     (if tag = 0 then c
      else c\<lparr>cl_tags := cl_tags c @ [tag], cl_calls := (cl_calls c)(tag := None),
             cl_tagFids := AList.delete tag (cl_tagFids c)\<rparr>)"

definition takeFid :: "Client \<Rightarrow> u32 \<times> Client" where
  "takeFid c =
     (if cl_fids c = [] then (let f = cl_lastFid c + 1 in (f, c\<lparr>cl_lastFid := f\<rparr>))
      else (last (cl_fids c), c\<lparr>cl_fids := butlast (cl_fids c)\<rparr>))"

definition returnFid :: "u32 \<Rightarrow> Client \<Rightarrow> Client" where
  "returnFid fid c = c\<lparr>cl_fids := cl_fids c @ [fid]\<rparr>"

section \<open>Requests and replies\<close>

text \<open>One message in the loop of \<^verbatim>\<open>worker\<close>: the channel it is sent to, if any waits for it.\<close>

definition worker_message :: "fcall \<Rightarrow> Client \<Rightarrow> nat option \<times> Client" where
  "worker_message call c =
     (let tag = GetTag call
      in case cl_calls c tag of
           None \<Rightarrow> (None, c)
         | Some rchan \<Rightarrow> (Some rchan, returnTag tag c))"

definition register :: "u16 \<Rightarrow> Client \<Rightarrow> nat \<times> Client" where
  "register tag c =
     (cl_nextch c, c\<lparr>cl_calls := (cl_calls c)(tag \<mapsto> cl_nextch c), cl_nextch := Suc (cl_nextch c)\<rparr>)"

definition getResponse ::
    "'w rpc \<Rightarrow> fcall \<Rightarrow> Client \<Rightarrow> 'w \<Rightarrow> ((go_error + fcall) \<times> Client \<times> 'w) option" where
  "getResponse rpc call c w =
     (let (response, c) = register (GetTag call) c
      in case fcall_Compose call of
           None \<Rightarrow> None
         | Some _ \<Rightarrow>
             (case rpc call w of
                (Inl err, w) \<Rightarrow> Some (Inl err, c, w)
              | (Inr r, w) \<Rightarrow>
                  (let (rchan, c) = worker_message r c
                   in if rchan = Some response then Some (Inr r, c, w) else None)))"

definition mk_hdr :: "u8 \<Rightarrow> u16 \<Rightarrow> Header" where
  "mk_hdr ty tag = \<lparr>h_Type = ty, h_Tag = tag\<rparr>"

definition clunkFid :: "'w rpc \<Rightarrow> u32 \<Rightarrow> Client \<Rightarrow> 'w \<Rightarrow> (Client \<times> 'w) option" where
  "clunkFid rpc fid c w =
     (if fid = 0 then None
      else (let (tag, c) = takeTag 0 c
            in case getResponse rpc (F_TClunk \<lparr>tcl_Header = mk_hdr Tclunk tag, tcl_Fid = fid\<rparr>) c w of
                 None \<Rightarrow> None
               | Some (_, c, w) \<Rightarrow> Some (returnFid fid c, w)))"

section \<open>Walking\<close>

definition removeBlank :: "string list \<Rightarrow> string list" where
  "removeBlank ss = compact (\<lambda>s. s \<noteq> []) ss"

text \<open>The three tests that follow every response: an error, a reply of the wrong type, or neither.\<close>

definition expect :: "string \<Rightarrow> (fcall \<Rightarrow> 'a option) \<Rightarrow> go_error + fcall \<Rightarrow> go_error + 'a" where
  "expect msg f res =
     (case res of
        Inl err \<Rightarrow> Inl err
      | Inr (F_RError rerror) \<Rightarrow> Inl (ErrorString (rer_Ename rerror))
      | Inr m \<Rightarrow> (case f m of Some x \<Rightarrow> Inr x | None \<Rightarrow> Inl (ErrorString msg)))"

definition walkFid ::
    "'w rpc \<Rightarrow> string \<Rightarrow> Client \<Rightarrow> 'w \<Rightarrow> ((go_error + u32) \<times> Client \<times> 'w) option" where
  "walkFid rpc path c w =
     (let parts = removeBlank (split_on slash path);
          (newfid, c) = takeFid c;
          (tag, c) = takeTag (cl_rootFid c) c;
          walk = \<lparr>twk_Header = mk_hdr Twalk tag, twk_Fid = cl_rootFid c, twk_Newfid = newfid,
                  twk_Nwname = of_nat (length parts), twk_Wname = parts\<rparr>
      in do {
        (res, c, w) \<leftarrow> getResponse rpc (F_TWalk walk) c w;
        (case expect ''Unexpected response to TWalk.''
                (\<lambda>m. case m of F_RWalk r \<Rightarrow> Some r | _ \<Rightarrow> None) res of
           Inl err \<Rightarrow> do {
             (c, w) \<leftarrow> clunkFid rpc newfid c w;
             Some (Inl err, c, w)
           }
         | Inr _ \<Rightarrow> Some (Inr newfid, c, w))
      })"

definition lookupFid :: "string \<Rightarrow> Client \<Rightarrow> u32 option" where
  "lookupFid path c = cl_pathCache c path"

definition cacheFid ::
    "'w rpc \<Rightarrow> string \<Rightarrow> Client \<Rightarrow> 'w \<Rightarrow> ((go_error + u32) \<times> Client \<times> 'w) option" where
  "cacheFid rpc path c w =
     (case lookupFid path c of
        Some fid \<Rightarrow> Some (Inr fid, c, w)
      | None \<Rightarrow> do {
          (res, c, w) \<leftarrow> walkFid rpc path c w;
          (case res of
             Inl err \<Rightarrow> Some (Inl err, c, w)
           | Inr fid \<Rightarrow> Some (Inr fid, c\<lparr>cl_pathCache := (cl_pathCache c)(path \<mapsto> fid)\<rparr>, w))
        })"

definition dropCachedFid :: "string \<Rightarrow> Client \<Rightarrow> Client" where
  "dropCachedFid path c = c\<lparr>cl_pathCache := (cl_pathCache c)(path := None)\<rparr>"

section \<open>Stats\<close>

definition Client_Stat ::
    "'w rpc \<Rightarrow> string \<Rightarrow> Client \<Rightarrow> 'w \<Rightarrow> ((go_error + Stat) \<times> Client \<times> 'w) option" where
  "Client_Stat rpc path c w = do {
     (res, c, w) \<leftarrow> cacheFid rpc path c w;
     (case res of
        Inl err \<Rightarrow> Some (Inl err, c, w)
      | Inr newFid \<Rightarrow>
          (let (tag, c) = takeTag newFid c
           in do {
             (res, c, w) \<leftarrow> getResponse rpc (F_TStat \<lparr>tst_Header = mk_hdr Tstat tag, tst_Fid = newFid\<rparr>) c w;
             Some (expect ''Unexpected response to RStat.''
                     (\<lambda>m. case m of F_RStat r \<Rightarrow> Some (rst_Stat r) | _ \<Rightarrow> None) res, c, w)
           }))
   }"

text \<open>The message for an unexpected response prints the response, which is left out here.\<close>

definition Client_WStat ::
    "'w rpc \<Rightarrow> string \<Rightarrow> Stat \<Rightarrow> Client \<Rightarrow> 'w \<Rightarrow> (go_error option \<times> Client \<times> 'w) option" where
  "Client_WStat rpc path stat c w = do {
     (res, c, w) \<leftarrow> cacheFid rpc path c w;
     (case res of
        Inl err \<Rightarrow> Some (Some err, c, w)
      | Inr newFid \<Rightarrow>
          (let (tag, c) = takeTag newFid c
           in do {
             (res, c, w) \<leftarrow> getResponse rpc
               (F_TWstat \<lparr>tws_Header = mk_hdr Twstat tag, tws_Fid = newFid, tws_Stat = stat\<rparr>) c w;
             Some (case expect ''Unexpected response to RWstat: ''
                      (\<lambda>m. case m of F_RWstat r \<Rightarrow> Some r | _ \<Rightarrow> None) res of
                     Inl err \<Rightarrow> Some err | Inr _ \<Rightarrow> None, c, w)
           }))
   }"

section \<open>Opening files\<close>

definition new_File :: "u32 \<Rightarrow> u32 \<Rightarrow> File" where
  "new_File fid iounit = \<lparr>fl_fid = fid, fl_offset = 0, fl_iounit = (if iounit = 0 then - 1 else iounit)\<rparr>"

definition Client_Create ::
    "'w rpc \<Rightarrow> string \<Rightarrow> u32 \<Rightarrow> Client \<Rightarrow> 'w \<Rightarrow> ((go_error + File) \<times> Client \<times> 'w) option" where
  "Client_Create rpc name perm c w = do {
     (res, c, w) \<leftarrow> walkFid rpc (path_Dir name) c w;
     (case res of
        Inl err \<Rightarrow> Some (Inl err, c, w)
      | Inr newFid \<Rightarrow>
          (let (tag, c) = takeTag newFid c
           in do {
             (res, c, w) \<leftarrow> getResponse rpc
               (F_TCreate \<lparr>tcr_Header = mk_hdr Tcreate tag, tcr_Fid = newFid, tcr_Name = path_Base name,
                           tcr_Perm = perm, tcr_Mode = Ordwr\<rparr>) c w;
             (case expect ''Unexpected response to TCreate.''
                     (\<lambda>m. case m of F_RCreate r \<Rightarrow> Some (rcr_Iounit r) | _ \<Rightarrow> None) res of
                Inl err \<Rightarrow> do {
                  (c, w) \<leftarrow> clunkFid rpc newFid c w;
                  Some (Inl err, c, w)
                }
              | Inr iounit \<Rightarrow> Some (Inr (new_File newFid iounit), c, w))
           }))
   }"

definition Client_Open ::
    "'w rpc \<Rightarrow> string \<Rightarrow> Mode \<Rightarrow> Client \<Rightarrow> 'w \<Rightarrow> ((go_error + File) \<times> Client \<times> 'w) option" where
  "Client_Open rpc path mode c w = do {
     (res, c, w) \<leftarrow> walkFid rpc path c w;
     (case res of
        Inl err \<Rightarrow> Some (Inl err, c, w)
      | Inr newFid \<Rightarrow>
          (let (tag, c) = takeTag newFid c
           in do {
             (res, c, w) \<leftarrow> getResponse rpc
               (F_TOpen \<lparr>top_Header = mk_hdr Topen tag, top_Fid = newFid, top_Mode = mode\<rparr>) c w;
             (case expect ''Unexpected response to TOpen.''
                     (\<lambda>m. case m of F_ROpen r \<Rightarrow> Some (rop_Iounit r) | _ \<Rightarrow> None) res of
                Inl err \<Rightarrow> do {
                  (c, w) \<leftarrow> clunkFid rpc newFid c w;
                  Some (Inl err, c, w)
                }
              | Inr iounit \<Rightarrow> Some (Inr (new_File newFid iounit), c, w))
           }))
   }"

section \<open>Closing files\<close>

text \<open>
  A flush is written and its reply not waited for: no channel is registered under its tag, so the
  worker ignores the reply. Closing the channel of a tag without one panics.
\<close>

primrec flush_tags ::
    "'w rpc \<Rightarrow> u16 list \<Rightarrow> Client \<Rightarrow> 'w \<Rightarrow> (go_error option \<times> Client \<times> 'w) option" where
  "flush_tags rpc [] c w = Some (None, c, w)"
| "flush_tags rpc (t # ts) c w =
     (let (tag, c) = lockedTakeTag 0 c
      in case rpc (F_TFlush \<lparr>tfl_Header = mk_hdr Tflush tag, tfl_Oldtag = t\<rparr>) w of
           (Inl err, w) \<Rightarrow> Some (Some err, c, w)
         | (Inr _, w) \<Rightarrow>
             (case cl_calls c t of
                None \<Rightarrow> None
              | Some _ \<Rightarrow> flush_tags rpc ts (c\<lparr>cl_calls := (cl_calls c)(t := None)\<rparr>) w))"

definition flushAll :: "'w rpc \<Rightarrow> u32 \<Rightarrow> Client \<Rightarrow> 'w \<Rightarrow> (go_error option \<times> Client \<times> 'w) option" where
  "flushAll rpc fid c w =
     flush_tags rpc (map fst (filter (\<lambda>(t, cf). cf = fid) (cl_tagFids c))) c w"

definition File_Close :: "'w rpc \<Rightarrow> File \<Rightarrow> Client \<Rightarrow> 'w \<Rightarrow> (go_error option \<times> Client \<times> 'w) option" where
  "File_Close rpc f c w = do {
     (res, c, w) \<leftarrow> flushAll rpc (fl_fid f) c w;
     (case res of
        Some err \<Rightarrow> Some (Some err, c, w)
      | None \<Rightarrow> do {
          (c, w) \<leftarrow> clunkFid rpc (fl_fid f) c w;
          Some (None, c, w)
        })
   }"

section \<open>Reading and writing\<close>

text \<open>The common body of \<^verbatim>\<open>Read\<close> and \<^verbatim>\<open>ReadAt\<close>, which differ in the offset.\<close>

definition tread ::
    "'w rpc \<Rightarrow> nat \<Rightarrow> u64 \<Rightarrow> File \<Rightarrow> Client \<Rightarrow> 'w \<Rightarrow>
       ((go_error + bytes) \<times> File \<times> Client \<times> 'w) option" where
  "tread rpc len off f c w =
     (let len = (if len > unat (cl_msize c - 11) then unat (cl_msize c - 11) else len);
          len = (if len > unat (fl_iounit f) then unat (fl_iounit f) else len);
          (tag, c) = takeTag (fl_fid f) c
      in do {
        (res, c, w) \<leftarrow> getResponse rpc
          (F_TRead \<lparr>trd_Header = mk_hdr Tread tag, trd_Fid = fl_fid f, trd_Offset = off,
                    trd_Count = of_nat len\<rparr>) c w;
        (case res of
           Inl err \<Rightarrow> Some (Inl err, f, c, w)
         | Inr (F_RError rerror) \<Rightarrow>
             Some (Inl (if rer_Ename rerror = ''EOF'' then EOF else ErrorString (rer_Ename rerror)), f, c, w)
         | Inr (F_RRead rresp) \<Rightarrow>
             (let n = min len (length (rrd_Data rresp))
              in if of_nat n \<noteq> rrd_Count rresp then None
                 else (let f = f\<lparr>fl_offset := fl_offset f + of_nat n\<rparr>
                       in if rrd_Data rresp = [] then Some (Inl EOF, f, c, w)
                          else Some (Inr (take len (rrd_Data rresp)), f, c, w)))
         | Inr _ \<Rightarrow> Some (Inl (ErrorString ''Unexpected response to TRead.''), f, c, w))
      })"

definition File_Read ::
    "'w rpc \<Rightarrow> nat \<Rightarrow> File \<Rightarrow> Client \<Rightarrow> 'w \<Rightarrow> ((go_error + bytes) \<times> File \<times> Client \<times> 'w) option" where
  "File_Read rpc len f c w = tread rpc len (fl_offset f) f c w"

definition File_ReadAt ::
    "'w rpc \<Rightarrow> nat \<Rightarrow> u64 \<Rightarrow> File \<Rightarrow> Client \<Rightarrow> 'w \<Rightarrow>
       ((go_error + bytes) \<times> File \<times> Client \<times> 'w) option" where
  "File_ReadAt rpc len off f c w = tread rpc len off f c w"

text \<open>
  The loop of \<^verbatim>\<open>twrite\<close>. It ends when everything is written or an error comes; the result
  is the number of bytes written and the error. A server that reports more bytes than it was
  given makes it panic, one that keeps reporting none makes it run forever.
\<close>

partial_function (option) twrite_loop ::
    "'w rpc \<Rightarrow> bytes \<Rightarrow> u64 \<Rightarrow> nat \<Rightarrow> File \<Rightarrow> Client \<Rightarrow> 'w \<Rightarrow>
       ((nat \<times> go_error option) \<times> Client \<times> 'w) option" where
  "twrite_loop rpc p off wrote f c w =
     (if p = [] then Some ((wrote, None), c, w)
      else (let b = (if length p > unat (cl_msize c - 23) then take (unat (cl_msize c - 23)) p else p);
                b = (if length b > unat (fl_iounit f) then take (unat (fl_iounit f)) b else b);
                (tag, c) = takeTag (fl_fid f) c
            in case getResponse rpc
                 (F_TWrite \<lparr>twr_Header = mk_hdr Twrite tag, twr_Fid = fl_fid f,
                            twr_Offset = off + of_nat wrote, twr_Count = of_nat (length b), twr_Data = b\<rparr>) c w of
                 None \<Rightarrow> None
               | Some (res, c, w) \<Rightarrow>
                   (case expect ''Unexpected response to TWrite.''
                           (\<lambda>m. case m of F_RWrite r \<Rightarrow> Some (rwr_Count r) | _ \<Rightarrow> None) res of
                      Inl err \<Rightarrow> Some ((wrote, Some err), c, w)
                    | Inr n \<Rightarrow>
                        if unat n > length p then None
                        else twrite_loop rpc (drop (unat n) p) off (wrote + unat n) f c w)))"

definition twrite ::
    "'w rpc \<Rightarrow> bytes \<Rightarrow> u64 \<Rightarrow> File \<Rightarrow> Client \<Rightarrow> 'w \<Rightarrow>
       ((nat \<times> go_error option) \<times> Client \<times> 'w) option" where
  "twrite rpc p off f c w = twrite_loop rpc p off 0 f c w"

definition File_Write ::
    "'w rpc \<Rightarrow> bytes \<Rightarrow> File \<Rightarrow> Client \<Rightarrow> 'w \<Rightarrow>
       ((nat \<times> go_error option) \<times> File \<times> Client \<times> 'w) option" where
  "File_Write rpc p f c w = do {
     ((n, err), c, w) \<leftarrow> twrite rpc p (fl_offset f) f c w;
     Some ((n, err), f\<lparr>fl_offset := fl_offset f + of_nat n\<rparr>, c, w)
   }"

definition File_WriteAt ::
    "'w rpc \<Rightarrow> bytes \<Rightarrow> u64 \<Rightarrow> File \<Rightarrow> Client \<Rightarrow> 'w \<Rightarrow>
       ((nat \<times> go_error option) \<times> Client \<times> 'w) option" where
  "File_WriteAt rpc b off f c w = twrite rpc b off f c w"

text \<open>
  \<^verbatim>\<open>bytes.Buffer.ReadFrom\<close> reads until the end of the file; \<open>grow\<close> tells how much room
  the buffer has when it holds so many bytes. The error is dropped by \<^verbatim>\<open>Readdir\<close>.
\<close>

partial_function (option) readAll_loop ::
    "'w rpc \<Rightarrow> (nat \<Rightarrow> nat) \<Rightarrow> bytes \<Rightarrow> File \<Rightarrow> Client \<Rightarrow> 'w \<Rightarrow>
       ((bytes \<times> go_error option) \<times> File \<times> Client \<times> 'w) option" where
  "readAll_loop rpc grow buff f c w =
     (case File_Read rpc (grow (length buff)) f c w of
        None \<Rightarrow> None
      | Some (Inl e, f, c, w) \<Rightarrow> Some ((buff, if e = EOF then None else Some e), f, c, w)
      | Some (Inr bs, f, c, w) \<Rightarrow> readAll_loop rpc grow (buff @ bs) f c w)"

definition readAll ::
    "'w rpc \<Rightarrow> (nat \<Rightarrow> nat) \<Rightarrow> File \<Rightarrow> Client \<Rightarrow> 'w \<Rightarrow>
       ((bytes \<times> go_error option) \<times> File \<times> Client \<times> 'w) option" where
  "readAll rpc grow f c w = readAll_loop rpc grow [] f c w"

definition Readdir ::
    "'w rpc \<Rightarrow> (nat \<Rightarrow> nat) \<Rightarrow> string \<Rightarrow> Client \<Rightarrow> 'w \<Rightarrow>
       ((go_error + Stat list) \<times> Client \<times> 'w) option" where
  "Readdir rpc grow path c w = do {
     (res, c, w) \<leftarrow> Client_Open rpc path Oread c w;
     (case res of
        Inl err \<Rightarrow> Some (Inl err, c, w)
      | Inr f \<Rightarrow> do {
          ((bs, _), f, c, w) \<leftarrow> readAll rpc grow f c w;
          stats \<leftarrow> (case ParseStats bs of Ok sts \<Rightarrow> Some (Inr sts) | Err e \<Rightarrow> Some (Inl e) | Panic \<Rightarrow> None);
          (_, c, w) \<leftarrow> File_Close rpc f c w;
          Some (stats, c, w)
        })
   }"

text \<open>
  \<^verbatim>\<open>Remove\<close>: the two deferred calls run at every return, first the fid goes back, then the
  cached fid of the path is forgotten.
\<close>

definition Client_Remove ::
    "'w rpc \<Rightarrow> string \<Rightarrow> Client \<Rightarrow> 'w \<Rightarrow> (go_error option \<times> Client \<times> 'w) option" where
  "Client_Remove rpc path c w = do {
     (res, c, w) \<leftarrow> walkFid rpc path c w;
     (case res of
        Inl err \<Rightarrow> Some (Some err, dropCachedFid path c, w)
      | Inr newFid \<Rightarrow>
          (let (tag, c) = takeTag newFid c
           in do {
             (res, c, w) \<leftarrow> getResponse rpc (F_TRemove \<lparr>trm_Header = mk_hdr Tremove tag, trm_Fid = newFid\<rparr>) c w;
             (case res of
                Inl err \<Rightarrow> Some (Some err, dropCachedFid path (returnFid newFid c), w)
              | Inr (F_RError rerror) \<Rightarrow> do {
                  (c, w) \<leftarrow> clunkFid rpc newFid c w;
                  Some (Some (ErrorString (rer_Ename rerror)), dropCachedFid path (returnFid newFid c), w)
                }
              | Inr (F_RRemove _) \<Rightarrow> Some (None, dropCachedFid path (returnFid newFid c), w)
              | Inr _ \<Rightarrow> Some (Some (ErrorString ''Unexpected response to TRemove.''),
                            dropCachedFid path (returnFid newFid c), w))
           }))
   }"

section \<open>A new client\<close>

definition new_Client :: Client where
  "new_Client =
     \<lparr>cl_rootFid = 0, cl_tags = [], cl_lastTag = 1, cl_fids = [], cl_lastFid = 0, cl_calls = Map.empty,
      cl_nextch = 0, cl_tagFids = [], cl_closed = False, cl_pathCache = Map.empty, cl_msize = 0\<rparr>"

text \<open>
  The end of \<^verbatim>\<open>NewClient\<close>: the attach, and the deferred close of the authentication file.
  The messages for unexpected responses leave out the response.
\<close>

definition NewClient_attach ::
    "'w rpc \<Rightarrow> string \<Rightarrow> string \<Rightarrow> u32 \<Rightarrow> Client \<Rightarrow> 'w \<Rightarrow> ((go_error + unit) \<times> Client \<times> 'w) option" where
  "NewClient_attach rpc user aname afid c w = do {
     (res, c, w) \<leftarrow> getResponse rpc
       (F_TAttach \<lparr>tat_Header = mk_hdr Tattach 0, tat_Fid = cl_rootFid c, tat_Afid = afid,
                   tat_Uname = user, tat_Aname = aname\<rparr>) c w;
     (case res of
        Inl err \<Rightarrow> Some (Inl err, stop c, w)
      | Inr (F_RError rerror) \<Rightarrow>
          Some (Inl (ErrorString (''Failed to attach to filesystem: '' @ rer_Ename rerror)), stop c, w)
      | Inr (F_RAttach _) \<Rightarrow> Some (Inr (), c, w)
      | Inr _ \<Rightarrow> Some (Inl (ErrorString ''Unexpected response while attaching: ''), stop c, w))
   }"

text \<open>
  \<open>authFunc\<close> is the authentication function with its reads and writes on the file; its result is
  not looked at.
\<close>

definition NewClient ::
    "'w rpc \<Rightarrow> string \<Rightarrow> string \<Rightarrow> (string \<Rightarrow> File \<Rightarrow> Client \<Rightarrow> 'w \<Rightarrow> (Client \<times> 'w) option) option \<Rightarrow> 'w \<Rightarrow>
       ((go_error + unit) \<times> Client \<times> 'w) option" where
  "NewClient rpc user aname authFunc w = do {
     (res, c, w) \<leftarrow> getResponse rpc
       (F_TRVersion \<lparr>ver_Header = mk_hdr Tversion 0, ver_Msize = 65536, ver_Version = ''9P2000''\<rparr>) new_Client w;
     (case expect ''Unexpected response while performing version: ''
             (\<lambda>m. case m of F_TRVersion ver \<Rightarrow> Some (ver_Msize ver) | _ \<Rightarrow> None) res of
        Inl err \<Rightarrow> Some (Inl err, stop c, w)
      | Inr msize \<Rightarrow>
          (let c = c\<lparr>cl_msize := msize\<rparr>
           in case authFunc of
                None \<Rightarrow> NewClient_attach rpc user aname NOFID c w
              | Some auth \<Rightarrow>
                  (let (afid, c) = takeFid c
                   in do {
                     (res, c, w) \<leftarrow> getResponse rpc
                       (F_TAuth \<lparr>tau_Header = mk_hdr Tauth 0, tau_Afid = afid, tau_Uname = user,
                                 tau_Aname = aname\<rparr>) c w;
                     (case expect ''Unexpected response while performing auth: ''
                             (\<lambda>m. case m of F_RAuth r \<Rightarrow> Some r | _ \<Rightarrow> None) res of
                        Inl err \<Rightarrow> Some (Inl err, stop c, w)
                      | Inr _ \<Rightarrow>
                          (let f = \<lparr>fl_fid = afid, fl_offset = 0, fl_iounit = - 1\<rparr>
                           in do {
                             (c, w) \<leftarrow> auth user f c w;
                             (res, c, w) \<leftarrow> NewClient_attach rpc user aname afid c w;
                             (_, c, w) \<leftarrow> File_Close rpc f c w;
                             Some (res, c, w)
                           }))
                   })))
   }"

end
