(* ===== verification/Client_Tags.thy ===== *)
theory Client_Tags
  imports Client
begin

text \<open>
  Overlapping requests of the client (client/client.go): goroutines take tags and send requests, the
  server answers in any order, the worker hands each answer to the goroutine that waits and takes
  the tag back, files are closed and their requests flushed. Of the requests only the tags matter
  here: \<open>tw_wire\<close> are the tags of the requests the server has not answered, \<open>tw_fresh\<close>
  counts the tags taken from \<^verbatim>\<open>lastTag\<close>.
\<close>

section \<open>Steps\<close>

text \<open>A connection that takes every request and keeps its tag.\<close>

definition wire_rpc :: "fcall \<Rightarrow> u16 list rpc" where
  "wire_rpc r call w = (Inr r, w @ [GetTag call])"

record tagworld =
  tw_c :: Client
  tw_wire :: "u16 list"
  tw_fresh :: nat

definition fresh_tags :: "Client \<Rightarrow> Client \<Rightarrow> nat" where
  "fresh_tags c c' = unat (cl_lastTag c' - cl_lastTag c)"

inductive tag_step :: "tagworld \<Rightarrow> tagworld \<Rightarrow> bool" where
  request: "takeTag fid (tw_c y) = (tag, c1) \<Longrightarrow> register tag c1 = (ch, c2) \<Longrightarrow>
    tag_step y \<lparr>tw_c = c2, tw_wire = tw_wire y @ [tag], tw_fresh = tw_fresh y + fresh_tags (tw_c y) c2\<rparr>"
| answer: "GetTag call \<in> set (tw_wire y) \<Longrightarrow> worker_message call (tw_c y) = (ch, c1) \<Longrightarrow>
    tag_step y \<lparr>tw_c = c1, tw_wire = remove1 (GetTag call) (tw_wire y), tw_fresh = tw_fresh y\<rparr>"
| flush: "(t, fid) \<in> set (cl_tagFids (tw_c y)) \<Longrightarrow> flush_tags (wire_rpc r) [t] (tw_c y) (tw_wire y) = Some (e, c1, wire) \<Longrightarrow>
    tag_step y \<lparr>tw_c = c1, tw_wire = wire, tw_fresh = tw_fresh y + fresh_tags (tw_c y) c1\<rparr>"

section \<open>Tags in flight\<close>

definition tags_ok :: "tagworld \<Rightarrow> bool" where
  "tags_ok y \<longleftrightarrow> unat (cl_lastTag (tw_c y)) = Suc (tw_fresh y) \<and>
     distinct (cl_tags (tw_c y) @ tw_wire y) \<and>
     (\<forall>t \<in> set (cl_tags (tw_c y)) \<union> set (tw_wire y). 1 < unat t \<and> unat t \<le> Suc (tw_fresh y)) \<and>
     dom (cl_calls (tw_c y)) \<subseteq> insert 0 (set (tw_wire y))"

lemma tags_okD:
  assumes "tags_ok y"
  shows "unat (cl_lastTag (tw_c y)) = Suc (tw_fresh y)" "distinct (cl_tags (tw_c y) @ tw_wire y)"
    "t \<in> set (cl_tags (tw_c y)) \<union> set (tw_wire y) \<Longrightarrow> 1 < unat t \<and> unat t \<le> Suc (tw_fresh y)"
    "dom (cl_calls (tw_c y)) \<subseteq> insert 0 (set (tw_wire y))"
  using assms unfolding tags_ok_def by blast+

lemma lockedTakeTag_cases:
  assumes "lockedTakeTag fid c = (t, c')"
  obtains (fresh) "cl_tags c = []" "t = cl_lastTag c + 1" "c' = c\<lparr>cl_lastTag := t\<rparr>"
    | (reused) ts where "cl_tags c = ts @ [t]" "cl_tags c' = ts" "cl_lastTag c' = cl_lastTag c" "cl_calls c' = cl_calls c"
        "cl_tagFids c' = AList.update t fid (cl_tagFids c)"
proof (cases "cl_tags c = []")
  case True
  then show ?thesis using assms fresh by (auto simp: lockedTakeTag_def Let_def)
next
  case False
  then show ?thesis
    using assms reused [of "butlast (cl_tags c)"] by (auto simp: lockedTakeTag_def Let_def)
qed

lemma unat_Suc_tag: "unat (t :: u16) < 65535 \<Longrightarrow> unat (t + 1) = Suc (unat t)"
  by (simp add: unat_word_ariths)

text \<open>Taking a tag and putting a request with it on the wire.\<close>

lemma take_tag_ok:
  assumes "tags_ok y" "lockedTakeTag fid (tw_c y) = (tag, c1)"
    "tw_fresh y + fresh_tags (tw_c y) c1 < 65534"
    "cl_tags c2 = cl_tags c1" "cl_lastTag c2 = cl_lastTag c1" "dom (cl_calls c2) \<subseteq> insert tag (dom (cl_calls c1))"
  shows "tags_ok \<lparr>tw_c = c2, tw_wire = tw_wire y @ [tag], tw_fresh = tw_fresh y + fresh_tags (tw_c y) c1\<rparr>"
  using assms(2)
proof (cases rule: lockedTakeTag_cases)
  case fresh
  have l: "unat (cl_lastTag (tw_c y)) = Suc (tw_fresh y)" using assms(1) by (simp add: tags_ok_def)
  have f: "fresh_tags (tw_c y) c1 = 1" using fresh by (simp add: fresh_tags_def)
  have t: "unat tag = Suc (Suc (tw_fresh y))"
    using fresh(2) l f assms(3) unat_Suc_tag [of "cl_lastTag (tw_c y)"] by simp
  have "tag \<notin> set (tw_wire y)"
  proof
    assume "tag \<in> set (tw_wire y)"
    then have "unat tag \<le> Suc (tw_fresh y)" using assms(1) unfolding tags_ok_def by blast
    then show False using t by simp
  qed
  then show ?thesis
    using assms fresh f t unfolding tags_ok_def by (auto simp: less_Suc_eq_le le_Suc_eq)
next
  case (reused ts)
  then have "fresh_tags (tw_c y) c1 = 0" by (simp add: fresh_tags_def)
  moreover have "dom (cl_calls c2) \<subseteq> insert 0 (set (tw_wire y @ [tag]))"
    using assms(6) reused(4) tags_okD(4) [OF assms(1)] by auto
  ultimately show ?thesis
    using assms(4,5) reused(1-3) tags_okD(1,2) [OF assms(1)] tags_okD(3) [OF assms(1)]
    unfolding tags_ok_def by auto
qed

lemma tag_step_ok:
  assumes "tag_step y y'" "tags_ok y" "tw_fresh y' < 65534"
  shows "tags_ok y'"
  using assms(1)
proof (cases rule: tag_step.cases)
  case (request fid tag c1 ch c2)
  have c2: "c2 = c1\<lparr>cl_calls := (cl_calls c1)(tag \<mapsto> cl_nextch c1), cl_nextch := Suc (cl_nextch c1)\<rparr>"
    using request(3) by (auto simp: register_def)
  then have "fresh_tags (tw_c y) c2 = fresh_tags (tw_c y) c1" by (simp add: fresh_tags_def)
  then show ?thesis
    using request(1,2) assms(3) c2 take_tag_ok [OF assms(2), of fid tag c1 c2] by (simp add: takeTag_def)
next
  case (answer call ch c1)
  let ?t = "GetTag call"
  have "1 < unat ?t" using tags_okD(3) [OF assms(2), of ?t] answer(2) by blast
  then have t: "?t \<noteq> 0" "distinct (tw_wire y)" "?t \<notin> set (cl_tags (tw_c y))"
    using tags_okD(2) [OF assms(2)] answer(2) by auto
  show ?thesis
  proof (cases "cl_calls (tw_c y) ?t")
    case None
    then have "c1 = tw_c y" using answer(3) by (simp add: worker_message_def Let_def)
    moreover have "?t \<notin> dom (cl_calls (tw_c y))" using None by auto
    ultimately show ?thesis
      using assms(2) t unfolding answer(1) tags_ok_def by (auto simp: distinct_remove1 dest: notin_set_remove1)
  next
    case (Some rchan)
    then have "c1 = (tw_c y)\<lparr>cl_tags := cl_tags (tw_c y) @ [?t], cl_calls := (cl_calls (tw_c y))(?t := None),
             cl_tagFids := AList.delete ?t (cl_tagFids (tw_c y))\<rparr>"
      using answer(3) t(1) by (simp add: worker_message_def Let_def returnTag_def)
    then show ?thesis
      using assms(2) t answer(2) unfolding answer(1) tags_ok_def
      by (auto simp: distinct_remove1 dest: notin_set_remove1)
  qed
next
  case (flush t fid r e c1 wire)
  obtain tag c0 where c0: "lockedTakeTag 0 (tw_c y) = (tag, c0)" by fastforce
  then have c1: "c1 = c0\<lparr>cl_calls := (cl_calls c0)(t := None)\<rparr>" "wire = tw_wire y @ [tag]"
    using flush(3) by (auto simp: wire_rpc_def GetTag_def mk_hdr_def split: option.splits)
  then have "fresh_tags (tw_c y) c1 = fresh_tags (tw_c y) c0" by (simp add: fresh_tags_def)
  then show ?thesis
    using flush(1) assms(3) c1 take_tag_ok [OF assms(2) c0, of c1] by auto
qed

lemma tag_step_fresh: "tag_step y y' \<Longrightarrow> tw_fresh y \<le> tw_fresh y'"
  by (auto elim!: tag_step.cases)

definition tag_init :: "Client \<Rightarrow> tagworld" where
  "tag_init c = \<lparr>tw_c = c, tw_wire = [], tw_fresh = 0\<rparr>"

lemma tag_run_ok:
  assumes "tag_step\<^sup>*\<^sup>* (tag_init c) y" "tw_fresh y < 65534"
    "cl_tags c = []" "cl_lastTag c = 1" "dom (cl_calls c) \<subseteq> {0}"
  shows "tags_ok y"
  using assms(1,2)
proof (induction rule: rtranclp_induct)
  case base
  then show ?case using assms(3-5) by (simp add: tags_ok_def tag_init_def)
next
  case (step y y')
  then show ?case using tag_step_ok tag_step_fresh by (meson le_less_trans)
qed

section \<open>Flushed tags\<close>

text \<open>
  A flush gives the tag back to nobody: the channel is gone, so the worker ignores a late answer,
  and the fid stays noted for the tag.
\<close>

definition tagFids_ok :: "Client \<Rightarrow> bool" where
  "tagFids_ok c \<longleftrightarrow> distinct (cl_tags c) \<and> fst ` set (cl_tagFids c) \<inter> set (cl_tags c) = {}"

lemma flush_one:
  assumes "flush_tags rpc (t # ts) c w = Some (e, c', w')"
  obtains (failed) err where "e = Some err"
    | (flushed) tag c0 w1 where "lockedTakeTag 0 c = (tag, c0)"
        "flush_tags rpc ts (c0\<lparr>cl_calls := (cl_calls c0)(t := None)\<rparr>) w1 = Some (e, c', w')"
  using assms by (auto simp: Let_def split: prod.splits sum.splits option.splits)

lemma lockedTakeTag_keeps:
  assumes "lockedTakeTag 0 c = (tag, c0)" "tagFids_ok c"
  shows "tagFids_ok c0" "map_of (cl_tagFids c) t = Some fid \<Longrightarrow> map_of (cl_tagFids c0) t = Some fid"
    "cl_calls c0 = cl_calls c"
proof -
  from assms(1) have "tagFids_ok c0 \<and> (map_of (cl_tagFids c) t = Some fid \<longrightarrow> map_of (cl_tagFids c0) t = Some fid) \<and>
    cl_calls c0 = cl_calls c"
  proof (cases rule: lockedTakeTag_cases)
    case fresh
    then show ?thesis using assms(2) by (simp add: tagFids_ok_def)
  next
    case (reused ts)
    have "tag \<notin> fst ` set (cl_tagFids c)" using reused(1) assms(2) by (auto simp: tagFids_ok_def)
    then have "t \<noteq> tag" if "map_of (cl_tagFids c) t = Some fid"
      using that by (auto dest!: map_of_SomeD intro: rev_image_eqI)
    then show ?thesis
      using reused assms(2) by (auto simp: tagFids_ok_def dom_update update_conv')
  qed
  then show "tagFids_ok c0" "map_of (cl_tagFids c) t = Some fid \<Longrightarrow> map_of (cl_tagFids c0) t = Some fid"
    "cl_calls c0 = cl_calls c" by auto
qed

lemma flush_tags_keeps:
  assumes "flush_tags rpc ts c w = Some (None, c', w')" "tagFids_ok c"
  shows "(map_of (cl_tagFids c) t = Some fid \<longrightarrow> map_of (cl_tagFids c') t = Some fid) \<and>
    (t \<in> set ts \<or> cl_calls c t = None \<longrightarrow> cl_calls c' t = None)"
  using assms
proof (induction ts arbitrary: c w)
  case (Cons q ts)
  from Cons.prems(1) show ?case
  proof (cases rule: flush_one)
    case (flushed tag c0 w1)
    note keep = lockedTakeTag_keeps [OF flushed(1) Cons.prems(2)]
    have "tagFids_ok (c0\<lparr>cl_calls := (cl_calls c0)(q := None)\<rparr>)"
      using keep(1) by (simp add: tagFids_ok_def)
    from Cons.IH [OF flushed(2) this] show ?thesis using keep(2) keep(3) by auto
  qed simp
qed simp

text \<open>A tag without a channel makes the flush panic, unless writing fails before.\<close>

lemma flush_stale_tag:
  assumes "t \<in> set ts" "cl_calls c t = None" "\<And>call w. \<exists>r w'. rpc call w = (Inr r, w')" "tagFids_ok c"
  shows "flush_tags rpc ts c w = None"
  using assms(1,2,4)
proof (induction ts arbitrary: c w)
  case (Cons q ts)
  obtain tag c0 where c0: "lockedTakeTag 0 c = (tag, c0)" by fastforce
  note keep = lockedTakeTag_keeps [OF c0 Cons.prems(3)]
  obtain r w1 where r: "rpc (F_TFlush \<lparr>tfl_Header = mk_hdr Tflush tag, tfl_Oldtag = q\<rparr>) w = (Inr r, w1)"
    using assms(3) by blast
  show ?case
  proof (cases "cl_calls c0 q")
    case None
    then show ?thesis using c0 r by simp
  next
    case (Some ch)
    then have "t \<noteq> q" using Cons.prems(2) keep(3) by auto
    then have "flush_tags rpc ts (c0\<lparr>cl_calls := (cl_calls c0)(q := None)\<rparr>) w1 = None"
      using Cons.prems keep by (intro Cons.IH) (auto simp: tagFids_ok_def)
    then show ?thesis using c0 r Some by simp
  qed
qed simp

lemma flushAll_twice_panics:
  assumes "flushAll rpc fid c w = Some (None, c', w')" "map_of (cl_tagFids c) t = Some fid"
    "\<And>call w. \<exists>r w'. rpc call w = (Inr r, w')" "tagFids_ok c" "tagFids_ok c'"
  shows "flushAll rpc fid c' w'' = None"
proof -
  have "(t, fid) \<in> set (cl_tagFids c)" using assms(2) by (rule map_of_SomeD)
  then have t: "t \<in> set (map fst (filter (\<lambda>(t, cf). cf = fid) (cl_tagFids c)))" by force
  have k: "map_of (cl_tagFids c') t = Some fid" "cl_calls c' t = None"
    using flush_tags_keeps [OF assms(1) [unfolded flushAll_def] assms(4), of t fid] assms(2) t by blast+
  have "(t, fid) \<in> set (cl_tagFids c')" using k(1) by (rule map_of_SomeD)
  then have "t \<in> set (map fst (filter (\<lambda>(t, cf). cf = fid) (cl_tagFids c')))" by force
  then show ?thesis unfolding flushAll_def using k(2) assms(3,5) by (rule flush_stale_tag)
qed

end
