(* ===== verification/Client_Server.thy ===== *)
theory Client_Server
  imports Client Static_Props Srv_Pipe
begin

text \<open>
  The client of client/client.go against the file server of fs/server.go, with the messages really
  encoded and decoded on the way. The locale \<open>remote_file\<close> is what the client's \<^verbatim>\<open>File\<close>
  relies on: the server's answers to reads and writes on one fid are those of a byte array. Inside
  it the client's loops are shown to transfer all the data; the interpretation discharges the
  laws for a static file opened for reading and writing.
\<close>

section \<open>Requests and replies\<close>

lemma getResponse_reply:
  assumes "fcall_Compose call \<noteq> None" "rpc call w = (Inr r, w')" "GetTag r = GetTag call"
  obtains c' where "getResponse rpc call c w = Some (Inr r, c', w')" "cl_msize c' = cl_msize c"
proof -
  obtain bs where "fcall_Compose call = Some bs" using assms(1) by blast
  then show ?thesis
    using assms(2,3) that
    by (cases "GetTag call = 0")
      (simp_all add: getResponse_def register_def worker_message_def returnTag_def Let_def)
qed

lemma takeTag_msize: "takeTag fid c = (t, c') \<Longrightarrow> cl_msize c' = cl_msize c"
  by (auto simp: takeTag_def lockedTakeTag_def Let_def split: if_splits)

text \<open>Two writes one after the other are one write.\<close>

lemma write_at_append:
  "write_at (off + length a) b (write_at off a xs) = write_at off (a @ b) xs"
proof (rule nth_equalityI)
  show "length (write_at (off + length a) b (write_at off a xs)) = length (write_at off (a @ b) xs)" by simp
  fix i assume i: "i < length (write_at (off + length a) b (write_at off a xs))"
  then show "write_at (off + length a) b (write_at off a xs) ! i = write_at off (a @ b) xs ! i"
    by (auto simp: write_at_nth nth_append)
qed

section \<open>What the client relies on\<close>

definition twrite_call :: "u16 \<Rightarrow> u32 \<Rightarrow> u64 \<Rightarrow> bytes \<Rightarrow> fcall" where
  "twrite_call tag fid off d =
     F_TWrite \<lparr>twr_Header = mk_hdr Twrite tag, twr_Fid = fid, twr_Offset = off,
               twr_Count = of_nat (length d), twr_Data = d\<rparr>"

definition rwrite_reply :: "u16 \<Rightarrow> nat \<Rightarrow> fcall" where
  "rwrite_reply tag n = F_RWrite \<lparr>rwr_Header = mk_hdr Rwrite tag, rwr_Count = of_nat n\<rparr>"

definition tread_call :: "u16 \<Rightarrow> u32 \<Rightarrow> u64 \<Rightarrow> nat \<Rightarrow> fcall" where
  "tread_call tag fid off n =
     F_TRead \<lparr>trd_Header = mk_hdr Tread tag, trd_Fid = fid, trd_Offset = off, trd_Count = of_nat n\<rparr>"

definition rread_reply :: "u16 \<Rightarrow> bytes \<Rightarrow> fcall" where
  "rread_reply tag d =
     F_RRead \<lparr>rrd_Header = mk_hdr Rread tag, rrd_Count = of_nat (length d), rrd_Data = d\<rparr>"

locale remote_file =
  fixes rpc :: "'w rpc"
    and fid :: u32
    and msize :: u32
    and room :: nat
    and inv :: "'w \<Rightarrow> bool"
    and contents :: "'w \<Rightarrow> bytes"
  assumes msize_ok: "inv w \<Longrightarrow> 24 \<le> msize" "inv w \<Longrightarrow> msize \<le> 65535"
    and room_ok: "inv w \<Longrightarrow> room < 2 ^ 63"
    and contents_ok: "inv w \<Longrightarrow> length (contents w) \<le> room"
    and write_reply: "inv w \<Longrightarrow> length d + 23 \<le> unat msize \<Longrightarrow> unat off + length d \<le> room \<Longrightarrow>
      \<exists>w'. rpc (twrite_call tag fid off d) w = (Inr (rwrite_reply tag (length d)), w') \<and> inv w' \<and>
        contents w' = write_at (unat off) d (contents w)"
    and read_reply: "inv w \<Longrightarrow> n + 11 \<le> unat msize \<Longrightarrow>
      \<exists>w'. rpc (tread_call tag fid off n) w =
          (Inr (rread_reply tag (take n (drop (unat off) (contents w)))), w') \<and> inv w' \<and>
        contents w' = contents w"
begin

lemma twrite_Compose:
  assumes "inv w" "length d + 23 \<le> unat msize"
  shows "fcall_Compose (twrite_call tag fid off d) \<noteq> None"
proof -
  have "unat msize \<le> 65535" using msize_ok(2) [OF assms(1)] by (simp add: word_le_nat_alt)
  then have "wf_fcall (twrite_call tag fid off d)"
    using assms by (simp add: wf_fcall_def twrite_call_def mk_hdr_def unsigned_of_nat take_bit_nat_eq_self)
  then show ?thesis by (simp add: fcall_Compose_enc)
qed

lemma tread_Compose: "fcall_Compose (tread_call tag fid off n) \<noteq> None"
proof -
  have "wf_fcall (tread_call tag fid off n)"
    by (simp add: wf_fcall_def tread_call_def mk_hdr_def)
  then show ?thesis by (simp add: fcall_Compose_enc)
qed

text \<open>One round of \<open>twrite_loop\<close> sends a nonempty piece of what is left.\<close>

lemma twrite_round:
  assumes "inv w" "cl_msize c = msize" "fl_fid f = fid" "fl_iounit f \<noteq> 0" "p \<noteq> []"
    and "unat off + wrote + length p \<le> room"
  obtains b c' w' where "b \<noteq> []" "p = b @ drop (length b) p" "inv w'" "cl_msize c' = msize"
    "contents w' = write_at (unat off + wrote) b (contents w)"
    "twrite_loop rpc p off wrote f c w =
       twrite_loop rpc (drop (length b) p) off (wrote + length b) f c' w'"
proof -
  let ?m = "unat (msize - 23)" and ?i = "unat (fl_iounit f)"
  define b where "b = take (min ?m ?i) p"
  have le: "23 \<le> msize" using msize_ok(1) [OF assms(1)] by (simp add: word_le_nat_alt)
  have m: "?m = unat msize - 23" using le by (simp add: unat_sub)
  have m0: "0 < ?m" "unat msize \<le> 65535" using msize_ok [OF assms(1)] m by (simp_all add: word_le_nat_alt)
  have i0: "0 < ?i" using assms(4) by (simp add: unat_gt_0)
  have b: "b \<noteq> []" "p = b @ drop (length b) p" "length b \<le> length p" "length b + 23 \<le> unat msize"
    using assms(5) m m0 i0 by (auto simp: b_def min_def)
  obtain tag c1 where t: "takeTag fid c = (tag, c1)" by fastforce
  have off: "unat (off + of_nat wrote) = unat off + wrote"
    using assms(6) room_ok [OF assms(1)] by (simp add: unat_word_ariths unsigned_of_nat take_bit_nat_eq_self)
  have "unat (off + of_nat wrote) + length b \<le> room" using off b(3) assms(6) by simp
  from write_reply [OF assms(1) b(4) this, of tag] obtain w'
    where w: "rpc (twrite_call tag fid (off + of_nat wrote) b) w = (Inr (rwrite_reply tag (length b)), w')"
      "inv w'" "contents w' = write_at (unat off + wrote) b (contents w)" by (auto simp: off)
  have tags: "GetTag (rwrite_reply tag (length b)) = GetTag (twrite_call tag fid (off + of_nat wrote) b)"
    by (simp add: GetTag_def rwrite_reply_def twrite_call_def mk_hdr_def)
  from getResponse_reply [where rpc = rpc, OF twrite_Compose [OF assms(1) b(4)] w(1) tags, of c1]
  obtain c' where c: "getResponse rpc (twrite_call tag fid (off + of_nat wrote) b) c1 w =
      Some (Inr (rwrite_reply tag (length b)), c', w')" "cl_msize c' = cl_msize c1" .
  have n: "unat (of_nat (length b) :: u32) = length b"
    using b(4) m0 by (simp add: unsigned_of_nat take_bit_nat_eq_self)
  have cut: "(if length q > ?i then take ?i q else q) = b"
    if "q = (if length p > ?m then take ?m p else p)" for q
    by (simp add: that b_def min_def)
  have "twrite_loop rpc p off wrote f c w =
      twrite_loop rpc (drop (length b) p) off (wrote + length b) f c' w'"
    using assms(2,3,5) c(1) b(3) n
    by (subst twrite_loop.simps)
      (simp add: Let_def cut t expect_def rwrite_reply_def twrite_call_def [symmetric])
  moreover have "cl_msize c' = msize" using c(2) takeTag_msize [OF t] assms(2) by simp
  ultimately show ?thesis using that b w by blast
qed

text \<open>So the loop ends with the whole buffer written.\<close>

lemma twrite_loop_writes:
  assumes "inv w" "cl_msize c = msize" "fl_fid f = fid" "fl_iounit f \<noteq> 0"
    and "unat off + wrote + length p \<le> room"
  shows "\<exists>c' w'. twrite_loop rpc p off wrote f c w = Some ((wrote + length p, None), c', w') \<and>
    inv w' \<and> cl_msize c' = msize \<and>
    contents w' = (if p = [] then contents w else write_at (unat off + wrote) p (contents w))"
  using assms(1,2,5)
proof (induction "length p" arbitrary: p wrote c w rule: less_induct)
  case less
  show ?case
  proof (cases "p = []")
    case True
    then show ?thesis using less.prems by (subst twrite_loop.simps) simp
  next
    case False
    from twrite_round [OF less.prems(1,2) assms(3,4) False less.prems(3)]
    obtain b c1 w1 where b: "b \<noteq> []" "p = b @ drop (length b) p" "inv w1" "cl_msize c1 = msize"
      "contents w1 = write_at (unat off + wrote) b (contents w)"
      "twrite_loop rpc p off wrote f c w =
         twrite_loop rpc (drop (length b) p) off (wrote + length b) f c1 w1" .
    define q where "q = drop (length b) p"
    note b = b [folded q_def]
    have len: "length p = length b + length q" unfolding b(2) by simp
    have "length q < length p" "unat off + (wrote + length b) + length q \<le> room"
      using len b(1) less.prems(3) by (cases b; simp)+
    from less.hyps [OF this(1) b(3,4) this(2)] obtain c' w'
      where r: "twrite_loop rpc q off (wrote + length b) f c1 w1 =
          Some ((wrote + length b + length q, None), c', w')" "inv w'" "cl_msize c' = msize"
        "contents w' = (if q = [] then contents w1
           else write_at (unat off + (wrote + length b)) q (contents w1))" by blast
    have "contents w' = write_at (unat off + wrote) p (contents w)"
    proof (cases "q = []")
      case True
      then have "p = b" using b(2) by simp
      with True r(4) b(5) show ?thesis by simp
    next
      case False
      then show ?thesis
        using r(4) b(5) write_at_append [of "unat off + wrote" b q "contents w"]
        by (simp add: add.assoc flip: b(2))
    qed
    moreover have "twrite_loop rpc p off wrote f c w = Some ((wrote + length p, None), c', w')"
      unfolding b(6) r(1) using len by (simp only: add.assoc)
    ultimately show ?thesis using r(2,3) False by (intro exI [of _ c'] exI [of _ w']) simp
  qed
qed

text \<open>A read gets the bytes at the offset, and the end of the file only there.\<close>

lemma File_Read_reads:
  assumes "inv w" "cl_msize c = msize" "fl_fid f = fid" "fl_iounit f \<noteq> 0" "0 < len"
  obtains d c' w' where "inv w'" "cl_msize c' = msize" "contents w' = contents w"
    "d = [] \<longleftrightarrow> length (contents w) \<le> unat (fl_offset f)"
    "drop (unat (fl_offset f)) (contents w) = d @ drop (unat (fl_offset f) + length d) (contents w)"
    "File_Read rpc len f c w =
       Some (if d = [] then Inl EOF else Inr d, f\<lparr>fl_offset := fl_offset f + of_nat (length d)\<rparr>, c', w')"
proof -
  let ?m = "unat (msize - 11)" and ?i = "unat (fl_iounit f)" and ?o = "unat (fl_offset f)"
  define n where "n = min (min len ?m) ?i"
  define d where "d = take n (drop ?o (contents w))"
  have le: "11 \<le> msize" using msize_ok(1) [OF assms(1)] by (simp add: word_le_nat_alt)
  have m: "?m = unat msize - 11" using le by (simp add: unat_sub)
  have m0: "0 < ?m" "unat msize \<le> 65535" using msize_ok [OF assms(1)] m by (simp_all add: word_le_nat_alt)
  have i0: "0 < ?i" using assms(4) by (simp add: unat_gt_0)
  have n: "0 < n" "n + 11 \<le> unat msize" using assms(5) m m0 i0 by (auto simp: n_def min_def)
  have d: "d = [] \<longleftrightarrow> length (contents w) \<le> ?o"
    "drop ?o (contents w) = d @ drop (?o + length d) (contents w)" "length d \<le> n"
    using n(1) append_take_drop_id [of n "drop ?o (contents w)"]
    by (auto simp: d_def min_def add.commute)
  obtain tag c1 where t: "takeTag fid c = (tag, c1)" by fastforce
  from read_reply [OF assms(1) n(2), of tag "fl_offset f"] obtain w'
    where w: "rpc (tread_call tag fid (fl_offset f) n) w = (Inr (rread_reply tag d), w')"
      "inv w'" "contents w' = contents w" by (auto simp: d_def)
  have tags: "GetTag (rread_reply tag d) = GetTag (tread_call tag fid (fl_offset f) n)"
    by (simp add: GetTag_def rread_reply_def tread_call_def mk_hdr_def)
  from getResponse_reply [where rpc = rpc, OF tread_Compose w(1) tags, of c1]
  obtain c' where c: "getResponse rpc (tread_call tag fid (fl_offset f) n) c1 w =
      Some (Inr (rread_reply tag d), c', w')" "cl_msize c' = cl_msize c1" .
  have cut: "(if (if len > ?m then ?m else len) > ?i then ?i else (if len > ?m then ?m else len)) = n"
    by (simp add: n_def min_def)
  have "min n (length d) = length d" "take n d = d" using d(3) by simp_all
  then have "File_Read rpc len f c w =
      Some (if d = [] then Inl EOF else Inr d, f\<lparr>fl_offset := fl_offset f + of_nat (length d)\<rparr>, c', w')"
    using assms(2,3) c(1) unfolding File_Read_def tread_def Let_def assms(2,3) cut t
    by (simp add: rread_reply_def tread_call_def [symmetric])
  moreover have "cl_msize c' = msize" using c(2) takeTag_msize [OF t] assms(2) by simp
  ultimately show ?thesis using that d w by blast
qed

lemma readAll_loop_reads:
  assumes "inv w" "cl_msize c = msize" "fl_fid f = fid" "fl_iounit f \<noteq> 0" "\<And>n. 0 < grow n"
  shows "\<exists>f' c' w'. readAll_loop rpc grow buff f c w =
      Some ((buff @ drop (unat (fl_offset f)) (contents w), None), f', c', w') \<and>
    inv w' \<and> cl_msize c' = msize \<and> contents w' = contents w"
  using assms(1-4)
proof (induction "length (contents w) - unat (fl_offset f)" arbitrary: buff f c w rule: less_induct)
  case less
  from File_Read_reads [OF less.prems(1-4) assms(5) [of "length buff"]]
  obtain d c1 w1 where d: "inv w1" "cl_msize c1 = msize" "contents w1 = contents w"
    "d = [] \<longleftrightarrow> length (contents w) \<le> unat (fl_offset f)"
    "drop (unat (fl_offset f)) (contents w) = d @ drop (unat (fl_offset f) + length d) (contents w)"
    "File_Read rpc (grow (length buff)) f c w =
       Some (if d = [] then Inl EOF else Inr d, f\<lparr>fl_offset := fl_offset f + of_nat (length d)\<rparr>, c1, w1)" .
  let ?f = "f\<lparr>fl_offset := fl_offset f + of_nat (length d)\<rparr>"
  show ?case
  proof (cases "d = []")
    case True
    then show ?thesis using d less.prems by (subst readAll_loop.simps) simp
  next
    case False
    have "unat (fl_offset f) + length d \<le> length (contents w)"
      using arg_cong [OF d(5), of length] False d(4) by simp
    then have off: "unat (fl_offset ?f) = unat (fl_offset f) + length d"
      using contents_ok [OF less.prems(1)] room_ok [OF less.prems(1)]
      by (simp add: unat_word_ariths unsigned_of_nat take_bit_nat_eq_self)
    then have "length (contents w1) - unat (fl_offset ?f) < length (contents w) - unat (fl_offset f)"
      using False d(3,4) by (cases d) simp_all
    from less.hyps [OF this d(1,2), of "buff @ d"] less.prems(3,4) obtain f' c' w'
      where "readAll_loop rpc grow (buff @ d) ?f c1 w1 =
          Some (((buff @ d) @ drop (unat (fl_offset ?f)) (contents w1), None), f', c', w')"
        "inv w'" "cl_msize c' = msize" "contents w' = contents w1" by auto
    moreover have "readAll_loop rpc grow buff f c w = readAll_loop rpc grow (buff @ d) ?f c1 w1"
      by (subst readAll_loop.simps) (simp add: d(6) False)
    ultimately show ?thesis using d(3) d(5) [symmetric] off by simp
  qed
qed

text \<open>What was written is read back.\<close>

lemma write_read:
  assumes "inv w" "cl_msize c = msize" "fl_fid f = fid" "fl_iounit f \<noteq> 0" "\<And>n. 0 < grow n"
    and "p \<noteq> []" "unat off + length p \<le> room"
  shows "\<exists>c1 w1 f2 c2 w2.
    File_WriteAt rpc p off f c w = Some ((length p, None), c1, w1) \<and>
    contents w1 = write_at (unat off) p (contents w) \<and>
    readAll rpc grow f c1 w1 =
      Some ((drop (unat (fl_offset f)) (write_at (unat off) p (contents w)), None), f2, c2, w2) \<and>
    inv w2 \<and> contents w2 = contents w1"
proof -
  from twrite_loop_writes [OF assms(1-4), of off 0 p] assms(6,7) obtain c1 w1
    where w: "twrite_loop rpc p off 0 f c w = Some ((length p, None), c1, w1)" "inv w1"
      "cl_msize c1 = msize" "contents w1 = write_at (unat off) p (contents w)" by auto
  from readAll_loop_reads [OF w(2,3) assms(3,4), of grow "[]", OF assms(5)] w(4) obtain f2 c2 w2
    where "readAll_loop rpc grow [] f c1 w1 =
        Some ((drop (unat (fl_offset f)) (write_at (unat off) p (contents w)), None), f2, c2, w2)"
      "inv w2" "contents w2 = contents w1" by auto
  then show ?thesis
    unfolding File_WriteAt_def twrite_def readAll_def using w
    by (intro exI [of _ c1] exI [of _ w1] exI [of _ f2] exI [of _ c2] exI [of _ w2]) simp
qed

end

section \<open>The server at the other end\<close>

text \<open>
  A message sent over the pipe is composed by the sender and parsed by the receiver. \<open>serve\<close> is
  the connection as a client with one request outstanding sees it: the request goes to the
  server, \<^verbatim>\<open>handleCall\<close> runs, and the reply comes back. A call that ends the server's loop
  closes the connection, which the client sees as the end of the stream.
\<close>

definition wire :: "fcall \<Rightarrow> fcall option" where
  "wire m =
     (case fcall_Compose m of
        None \<Rightarrow> None
      | Some bs \<Rightarrow>
          (case ParseCall pipe_Read (Some (snd (snd (pipe_Write bs (snd newPipePair))))) of
             Some (Ok m', _) \<Rightarrow> Some m'
           | _ \<Rightarrow> None))"

definition serve :: "'c Srv \<Rightarrow> 'c rpc" where
  "serve srv call c =
     (case wire call of
        None \<Rightarrow> (Inl EOF, c)
      | Some m \<Rightarrow>
          (case handleCall srv m c of
             Some (Inr (Some r), c) \<Rightarrow> (case wire r of None \<Rightarrow> (Inl EOF, c) | Some r \<Rightarrow> (Inr r, c))
           | Some (_, c) \<Rightarrow> (Inl EOF, c)
           | None \<Rightarrow> (Inl EOF, c)))"

lemma wire_id:
  assumes "wf_fcall m"
  shows "wire m = Some m"
proof -
  let ?p = "snd (snd (pipe_Write (fcall_bytes m) (snd newPipePair)))"
  have "pipe_pending ?p = fcall_bytes m @ []"
    by (simp add: pipe_Write_def newPipePair_def pipe_pending_def)
  from pipe.ParseCall_message [OF assms this] obtain r'
    where "ParseCall pipe_Read (Some ?p) = Some (Ok m, Some r')" by blast
  then show ?thesis using assms by (simp add: wire_def fcall_Compose_enc)
qed

lemma context_frame [simp]:
  "c_fids (snd (TagContext tag c)) = c_fids c" "c_msize (snd (TagContext tag c)) = c_msize c"
  "c_fids (DropContext tag c) = c_fids c" "c_msize (DropContext tag c) = c_msize c"
  by (auto simp: TagContext_def DropContext_def Let_def split: option.split)

lemma serve_reply:
  assumes "conn_ok c" "wf_fcall call" "dispatch (fs_Srv ops fs order) call = Some h"
    and h: "h (snd (TagContext (GetTag call) c), s) = Some (Inr m, snd (TagContext (GetTag call) c), s')"
    and "wf_fcall m"
  shows "\<exists>c'. serve (fs_Srv ops fs order) call (c, s) = (Inr m, (c', s')) \<and> conn_ok c' \<and>
    c_fids c' = c_fids c \<and> c_msize c' = c_msize c"
proof -
  obtain ctx c1 where t: "TagContext (GetTag call) c = (ctx, c1)" by fastforce
  have c1: "conn_ok c1" using conn_ok_TagContext [OF assms(1), of "GetTag call"] t by simp
  have "c_tags c1 (GetTag call) = Some ctx"
    using t by (auto simp: TagContext_def Let_def split: option.splits)
  then have "\<not> c_cancelled c1 ctx" using c1 by (auto simp: conn_ok_def)
  then have "handleCall (fs_Srv ops fs order) call (c, s) =
      Some (Inr (Some m), (DropContext (GetTag call) c1, s'))"
    using h t assms(3) by (simp add: handleCall_def finish_call_def fs_Srv_def)
  then have "serve (fs_Srv ops fs order) call (c, s) = (Inr m, (DropContext (GetTag call) c1, s'))"
    using assms(2,5) by (simp add: serve_def wire_id)
  moreover have "c_fids c1 = c_fids c" "c_msize c1 = c_msize c"
    using context_frame(1,2) [of "GetTag call" c] t by simp_all
  ultimately show ?thesis using conn_ok_DropContext [OF c1] by simp
qed

text \<open>A session with a static file open for reading and writing.\<close>

definition file_session :: "u32 \<Rightarrow> u32 \<Rightarrow> nat \<Rightarrow> ref \<Rightarrow> ref conn \<times> store \<Rightarrow> bool" where
  "file_session fid msize room r w =
     (let (c, s) = w
      in conn_ok c \<and> c_msize c = msize \<and> 24 \<le> msize \<and> msize \<le> 65535 \<and>
         static_valid s \<and> sto_mem s = room \<and>
         (case c_fids c fid of
            None \<Rightarrow> False
          | Some info \<Rightarrow> fi_n info = r \<and> fi_openMode info AND 0x0F = Ordwr) \<and>
         (case sto_nodes s r of
            Some (NFile f) \<Rightarrow> st_Mode (bf_fStat f) AND DMDIR = 0
          | _ \<Rightarrow> False))"

definition file_contents :: "ref \<Rightarrow> ref conn \<times> store \<Rightarrow> bytes" where
  "file_contents r w = (case sto_nodes (snd w) r of Some (NFile f) \<Rightarrow> sf_Data f | _ \<Rightarrow> [])"

lemma file_sessionE:
  assumes "file_session fid msize room r w"
  obtains c s info f where "w = (c, s)" "conn_ok c" "c_msize c = msize" "24 \<le> msize" "msize \<le> 65535"
    "static_valid s" "sto_mem s = room" "c_fids c fid = Some info" "fi_n info = r"
    "fi_openMode info AND 0x0F = Ordwr" "sto_nodes s r = Some (NFile f)"
    "st_Mode (bf_fStat f) AND DMDIR = 0" "length (sf_Data f) \<le> room" "room < 2 ^ 63"
proof -
  obtain c s where w: "w = (c, s)" by fastforce
  obtain info f where "c_fids c fid = Some info" "sto_nodes s r = Some (NFile f)"
    using assms w by (auto simp: file_session_def split: option.splits node.splits)
  then show ?thesis
    using assms w static_valid_node [of s r "NFile f"] static_mem [of s]
    by (intro that [of c s info f]) (auto simp: file_session_def)
qed

lemma call_tag: "GetTag (twrite_call tag fid off d) = tag" "GetTag (tread_call tag fid off n) = tag"
  by (simp_all add: twrite_call_def tread_call_def mk_hdr_def GetTag_def)

lemma dispatch_twrite:
  "dispatch (fs_Srv ops fs order) (twrite_call tag fid off d) =
     Some (\<lambda>(c, s). srv_Write ops (case twrite_call tag fid off d of F_TWrite t \<Rightarrow> t) c s)"
  by (simp add: dispatch_def fs_Srv_def twrite_call_def)

lemma serve_write:
  assumes "file_session fid msize room r w" "length d + 23 \<le> unat msize" "unat off + length d \<le> room"
  shows "\<exists>w'. serve (fs_Srv static_ops fs order) (twrite_call tag fid off d) w =
      (Inr (rwrite_reply tag (length d)), w') \<and> file_session fid msize room r w' \<and>
    file_contents r w' = write_at (unat off) d (file_contents r w)"
  using assms(1)
proof (cases rule: file_sessionE)
  case (1 c s info f)
  have m: "unat msize \<le> 65535" using 1(5) by (simp add: word_le_nat_alt)
  note h = dispatch_twrite [of static_ops fs order tag fid off d]
  let ?call = "twrite_call tag fid off d" and ?g = "snd (StaticFile_Stat f)"
  have wf: "wf_fcall ?call" "wf_fcall (rwrite_reply tag (length d))"
    using assms(2) m by (simp_all add: wf_fcall_def twrite_call_def rwrite_reply_def mk_hdr_def
        unsigned_of_nat take_bit_nat_eq_self)
  have g: "sf_Data ?g = sf_Data f" "st_Mode (bf_fStat ?g) = st_Mode (bf_fStat f)"
    by (simp_all add: StaticFile_Stat_def)
  have "write_fits room off d (sf_Data ?g)" using assms(3) by (simp add: write_fits_def)
  then obtain f' where f': "StaticFile_Write room off d ?g = Some (of_nat (length d), f')"
    "sf_Data f' = write_at (unat off) d (sf_Data f)" "st_Mode (bf_fStat f') = st_Mode (bf_fStat f)"
    using StaticFile_Write_eq [of room ?g d off] 1(13,14) assms(2) m g by simp
  let ?s = "set_node r (NFile f') (set_node r (NFile ?g) s)"
  have "srv_Write static_ops (case ?call of F_TWrite t \<Rightarrow> t) (snd (TagContext tag c)) s =
      Some (Inr (rwrite_reply tag (length d)), snd (TagContext tag c), ?s)"
    using 1(8-12) f'(1) 1(7)
    by (simp add: srv_Write_def twrite_call_def mk_hdr_def rwrite_reply_def Let_def node_Stat_def
        StaticFile_Stat_def node_kind_def node_Write_def)
  then obtain c' where c': "serve (fs_Srv static_ops fs order) ?call (c, s) =
      (Inr (rwrite_reply tag (length d)), (c', ?s))" "conn_ok c'" "c_fids c' = c_fids c" "c_msize c' = c_msize c"
    using serve_reply [OF 1(2) wf(1) h _ wf(2), of s ?s] by (auto simp: call_tag)
  have "static_valid ?s"
    using 1(6,7,11,13,14) f'(2) assms(3) g
    by (intro static_valid_set) auto
  then have "file_session fid msize room r (c', ?s)"
    using 1 c'(2-4) f'(3) by (simp add: file_session_def)
  then show ?thesis using 1(1,11) c'(1) f'(2) by (simp add: file_contents_def)
qed

lemma dispatch_tread:
  "dispatch (fs_Srv ops fs order) (tread_call tag fid off d) =
     Some (\<lambda>(c, s). srv_Read ops (case tread_call tag fid off d of F_TRead t \<Rightarrow> t) c s)"
  by (simp add: dispatch_def fs_Srv_def tread_call_def)

lemma serve_read:
  assumes "file_session fid msize room r w" "n + 11 \<le> unat msize"
  shows "\<exists>w'. serve (fs_Srv static_ops fs order) (tread_call tag fid off n) w =
      (Inr (rread_reply tag (take n (drop (unat off) (file_contents r w)))), w') \<and>
    file_session fid msize room r w' \<and> file_contents r w' = file_contents r w"
  using assms(1)
proof (cases rule: file_sessionE)
  case (1 c s info f)
  have m: "unat msize \<le> 65535" using 1(5) by (simp add: word_le_nat_alt)
  note h = dispatch_tread [of static_ops fs order tag fid off n]
  let ?call = "tread_call tag fid off n" and ?d = "take n (drop (unat off) (sf_Data f))"
  have n: "unat (of_nat n :: u32) = n" "unat (ucast (of_nat n :: u32) :: u64) = n"
    using assms(2) m by (simp_all add: unsigned_of_nat unsigned_ucast_eq take_bit_nat_eq_self)
  have wf: "wf_fcall ?call" "wf_fcall (rread_reply tag ?d)"
    using assms(2) m by (simp_all add: wf_fcall_def tread_call_def rread_reply_def mk_hdr_def
        unsigned_of_nat take_bit_nat_eq_self)
  have "11 \<le> msize" using 1(4) by (simp add: word_le_nat_alt)
  then have cnt: "\<not> of_nat n > msize - 11"
    using assms(2) n by (simp add: word_less_nat_alt unat_sub)
  have "read_range off (ucast (of_nat n :: u32)) (sf_Data f) = Some ?d"
    using read_range_eq [of "sf_Data f" "ucast (of_nat n :: u32)" off] 1(13,14) n assms(2) m by simp
  then have "srv_Read static_ops (case ?call of F_TRead t \<Rightarrow> t) (snd (TagContext tag c)) s =
      Some (Inr (rread_reply tag ?d), snd (TagContext tag c), s)"
    using 1(3,8-12) cnt
    by (simp add: srv_Read_def tread_call_def mk_hdr_def rread_reply_def Let_def mk_RRead_def
        node_kind_def node_Read_def StaticFile_Read_def)
  then obtain c' where c': "serve (fs_Srv static_ops fs order) ?call (c, s) =
      (Inr (rread_reply tag ?d), (c', s))" "conn_ok c'" "c_fids c' = c_fids c" "c_msize c' = c_msize c"
    using serve_reply [OF 1(2) wf(1) h _ wf(2), of s s] by (auto simp: call_tag)
  then show ?thesis using 1 by (simp add: file_contents_def file_session_def)
qed

interpretation remote: remote_file "serve (fs_Srv static_ops fs order)" fid msize room
    "file_session fid msize room r" "file_contents r"
  for fs :: "(store, ref) FS" and order :: "(string \<times> ref) list \<Rightarrow> ref list" and fid msize room r
proof
  show "24 \<le> msize" "msize \<le> 65535" "room < 2 ^ 63" "length (file_contents r w) \<le> room"
    if "file_session fid msize room r w" for w
    using that by (auto elim!: file_sessionE simp: file_contents_def)
qed (rule serve_write serve_read; assumption)+

end
