(* ===== verification/Server_Types.thy ===== *)
theory Server_Types
  imports Fs_Srv
begin

text \<open>
  The types of the replies of fs/server.go: each handler answers with the message that belongs to
  its request or with an error message, and the type byte of the header is the one of the message.
\<close>

text \<open>The type bytes a message may carry, and the type of the reply to a request.\<close>

primrec fcall_types :: "fcall \<Rightarrow> u8 set" where
  "fcall_types (F_TRVersion m) = {Tversion, Rversion}"
| "fcall_types (F_TAuth m) = {Tauth}"
| "fcall_types (F_RAuth m) = {Rauth}"
| "fcall_types (F_TAttach m) = {Tattach}"
| "fcall_types (F_RAttach m) = {Rattach}"
| "fcall_types (F_RError m) = {Rerror}"
| "fcall_types (F_TFlush m) = {Tflush}"
| "fcall_types (F_RFlush m) = {Rflush}"
| "fcall_types (F_TWalk m) = {Twalk}"
| "fcall_types (F_RWalk m) = {Rwalk}"
| "fcall_types (F_TOpen m) = {Topen}"
| "fcall_types (F_ROpen m) = {Ropen}"
| "fcall_types (F_TCreate m) = {Tcreate}"
| "fcall_types (F_RCreate m) = {Rcreate}"
| "fcall_types (F_TRead m) = {Tread}"
| "fcall_types (F_RRead m) = {Rread}"
| "fcall_types (F_TWrite m) = {Twrite}"
| "fcall_types (F_RWrite m) = {Rwrite}"
| "fcall_types (F_TClunk m) = {Tclunk}"
| "fcall_types (F_RClunk m) = {Rclunk}"
| "fcall_types (F_TRemove m) = {Tremove}"
| "fcall_types (F_RRemove m) = {Rremove}"
| "fcall_types (F_TStat m) = {Tstat}"
| "fcall_types (F_RStat m) = {Rstat}"
| "fcall_types (F_TWstat m) = {Twstat}"
| "fcall_types (F_RWstat m) = {Rwstat}"

definition replies_as :: "u8 \<Rightarrow> fcall \<Rightarrow> bool" where
  "replies_as ty m \<longleftrightarrow> h_Type (fcall_Header m) \<in> {ty, Rerror} \<and> h_Type (fcall_Header m) \<in> fcall_types m"

definition typed :: "u8 \<Rightarrow> ((go_error + fcall) \<times> 'c) option \<Rightarrow> bool" where
  "typed ty x = (case x of Some (Inr m, _) \<Rightarrow> replies_as ty m | _ \<Rightarrow> True)"

lemma typed_simps [simp]:
  "typed ty None" "typed ty (Some (Inl e, w))" "typed ty (Some (Inr m, w)) \<longleftrightarrow> replies_as ty m"
  by (simp_all add: typed_def)

lemma typed_bind: "(\<And>x. m = Some x \<Longrightarrow> typed ty (f x)) \<Longrightarrow> typed ty (m \<bind> f)"
  by (cases m) simp_all

lemma replies_as_simps [simp]:
  "replies_as ty (mk_RError tag msg)" "replies_as Rwalk (mk_RWalk tag qs)" "replies_as Rread (mk_RRead tag d)"
  "replies_as Rauth (F_RAuth m0) \<longleftrightarrow> h_Type (rau_Header m0) = Rauth"
  "replies_as Rattach (F_RAttach m1) \<longleftrightarrow> h_Type (rat_Header m1) = Rattach"
  "replies_as Ropen (F_ROpen m2) \<longleftrightarrow> h_Type (rop_Header m2) = Ropen"
  "replies_as Rcreate (F_RCreate m3) \<longleftrightarrow> h_Type (rcr_Header m3) = Rcreate"
  "replies_as Rwrite (F_RWrite m4) \<longleftrightarrow> h_Type (rwr_Header m4) = Rwrite"
  "replies_as Rclunk (F_RClunk m5) \<longleftrightarrow> h_Type (rcl_Header m5) = Rclunk"
  "replies_as Rremove (F_RRemove m6) \<longleftrightarrow> h_Type (rrm_Header m6) = Rremove"
  "replies_as Rstat (F_RStat m7) \<longleftrightarrow> h_Type (rst_Header m7) = Rstat"
  "replies_as Rwstat (F_RWstat m8) \<longleftrightarrow> h_Type (rws_Header m8) = Rwstat"
  "replies_as Rflush (F_RFlush m9) \<longleftrightarrow> h_Type (rfl_Header m9) = Rflush"
  by (auto simp: replies_as_def mk_RError_def mk_RWalk_def mk_RRead_def)

section \<open>The handlers\<close>

lemma walk_child_type: "walk_child ops fs tag dir cs name s = Some (Inl m, s') \<Longrightarrow> replies_as ty m"
  by (auto simp: walk_child_def split: option.splits bind_splits sum.splits if_splits)

lemma walk_names_type: "walk_names ops fs tag k names f qids s = Some (Inl m, s') \<Longrightarrow> replies_as Rwalk m"
  by (induction k arbitrary: names f qids s)
    (auto split: bind_splits if_splits list.splits sum.splits, (metis walk_child_type)+)

lemma readDir_type: "readDir ops t info s = Some (m, s') \<Longrightarrow> replies_as Rread m"
  by (auto simp: readDir_def split: extra.splits bind_splits option.splits)

lemma open_node_type: "open_node ops order t cf info s = Some (Inl m, s') \<Longrightarrow> replies_as ty m"
  by (auto simp: open_node_def Let_def split: bind_splits option.splits if_splits)

named_theorems typing

lemma typed_Version [typing]: "typed Rversion (srv_Version t c s)"
  by (simp add: srv_Version_def Let_def replies_as_def)

lemma typed_Auth [typing]: "typed Rauth (srv_Auth ops fs t c s)"
  by (auto simp: srv_Auth_def Let_def intro!: typed_bind split: answer_splits)

lemma typed_Attach [typing]: "typed Rattach (srv_Attach ops fs t c s)"
  by (auto simp: srv_Attach_def Let_def intro!: typed_bind split: answer_splits)

lemma typed_Walk [typing]: "typed Rwalk (srv_Walk ops fs t c s)"
  by (auto simp: srv_Walk_def Let_def intro!: typed_bind split: answer_splits intro: walk_names_type)

lemma typed_Open [typing]: "typed Ropen (srv_Open ops fs order t c s)"
  by (auto simp: srv_Open_def Let_def intro!: typed_bind split: answer_splits)
    (metis open_node_type)+

lemma typed_Create [typing]: "typed Rcreate (srv_Create ops fs t c s)"
  by (auto simp: srv_Create_def Let_def intro!: typed_bind split: answer_splits)

lemma typed_Read [typing]: "typed Rread (srv_Read ops t c s)"
  by (auto simp: srv_Read_def Let_def intro!: typed_bind split: answer_splits dest: readDir_type)

lemma typed_Write [typing]: "typed Rwrite (srv_Write ops t c s)"
  by (auto simp: srv_Write_def Let_def intro!: typed_bind split: answer_splits)

lemma typed_Clunk [typing]: "typed Rclunk (srv_Clunk ops t c s)"
  by (auto simp: srv_Clunk_def Let_def intro!: typed_bind split: answer_splits)

lemma typed_Remove [typing]: "typed Rremove (srv_Remove ops fs t c s)"
  by (auto simp: srv_Remove_def Let_def intro!: typed_bind split: answer_splits)

lemma typed_Stat [typing]: "typed Rstat (srv_Stat ops t c s)"
  by (auto simp: srv_Stat_def Let_def intro!: typed_bind split: answer_splits)

lemma typed_Wstat [typing]: "typed Rwstat (srv_Wstat ops fs t c s)"
  by (auto simp: srv_Wstat_def Let_def intro!: typed_bind split: answer_splits)

lemma dispatch_typed:
  assumes "dispatch (fs_Srv ops fs order) call = Some h" "h_Type (fcall_Header call) \<in> fcall_types call"
  shows "typed (h_Type (fcall_Header call) + 1) (h (c, s))"
proof (cases call)
  case (F_TRVersion t)
  have "typed (h_Type (ver_Header t) + 1) (srv_Version t c s)"
    by (auto simp: srv_Version_def Let_def replies_as_def)
  then show ?thesis using assms(1) F_TRVersion by (auto simp: dispatch_def fs_Srv_def)
qed (use assms typing in \<open>auto simp: dispatch_def fs_Srv_def\<close>)

end
