(* ===== verification/Client_Claims.thy ===== *)
theory Client_Claims
  imports Client_Tags Client_Server Server_Types Examples
begin

text \<open>
  What the client of client/client.go guarantees, alone and together with the file server, and the
  types of the server's replies.
\<close>

section \<open>The client and the server together\<close>

text \<open>
  C2: Through the client, a remote static file is a byte array. \<^verbatim>\<open>WriteAt\<close> on an open
  \<^verbatim>\<open>File\<close>, which sends as many messages as the message size requires, each composed, parsed,
  handled and answered by the file server, returns after the whole buffer is written, and the file
  on the server then holds it at the offset; reading the file to its end afterwards, in chunks of
  any size, returns exactly its contents from the \<^verbatim>\<open>File\<close>'s offset on.
\<close>

theorem client_write_then_read:
  assumes "file_session fid msize room r w" "cl_msize c = msize" "fl_fid f = fid" "fl_iounit f \<noteq> 0"
    and "\<And>n. 0 < grow n" "p \<noteq> []" "unat off + length p \<le> room"
  shows "\<exists>c1 w1 f2 c2 w2.
    File_WriteAt (serve (fs_Srv static_ops fs order)) p off f c w = Some ((length p, None), c1, w1) \<and>
    file_contents r w1 = write_at (unat off) p (file_contents r w) \<and>
    readAll (serve (fs_Srv static_ops fs order)) grow f c1 w1 =
      Some ((drop (unat (fl_offset f)) (write_at (unat off) p (file_contents r w)), None), f2, c2, w2) \<and>
    file_session fid msize room r w2 \<and> file_contents r w2 = file_contents r w1"
  using assms by (rule remote.write_read)

definition ex_session :: "ref conn \<times> store" where
  "ex_session =
     (ex_conn\<lparr>c_msize := 24, c_fids := [5 \<mapsto> (newFidInfo ''glenda'' 1)\<lparr>fi_openMode := Ordwr\<rparr>]\<rparr>,
      ex_store\<lparr>sto_nodes := (sto_nodes ex_store)(1 \<mapsto> NFile (NewStaticFile (root_stat\<lparr>st_Mode := 438\<rparr>) [1, 2, 3])),
        sto_next := 2\<rparr>)"

lemma ex_session_ok: "file_session 5 24 1048576 1 ex_session"
  using ex_conn_ok
  by (auto simp: file_session_def ex_session_def conn_ok_def static_valid_def ex_store_eq NewStaticFile_def
      newFidInfo_def root_stat_def)

theorem client_write_then_read_witness:
  "\<exists>c1 w1 f2 c2 w2.
     File_WriteAt (serve ex_srv) [7, 8] 2 \<lparr>fl_fid = 5, fl_offset = 1, fl_iounit = 10\<rparr> (new_Client\<lparr>cl_msize := 24\<rparr>) ex_session =
       Some ((2, None), c1, w1) \<and>
     readAll (serve ex_srv) (\<lambda>_. 512) \<lparr>fl_fid = 5, fl_offset = 1, fl_iounit = 10\<rparr> c1 w1 = Some (([2, 7, 8], None), f2, c2, w2)"
proof -
  have "file_contents 1 ex_session = [1, 2, 3]"
    by (simp add: file_contents_def ex_session_def NewStaticFile_def)
  moreover have "write_at 2 [7, 8] [1, 2, 3] = [1, 2, 7, 8 :: u8]"
    by (simp add: write_at_def copy_at_def)
  ultimately show ?thesis
    using client_write_then_read [OF ex_session_ok, of "new_Client\<lparr>cl_msize := 24\<rparr>" "\<lparr>fl_fid = 5, fl_offset = 1, fl_iounit = 10\<rparr>"
        "\<lambda>_. 512" "[7, 8]" 2 ex_fs ex_order]
    by (auto simp: ex_srv_def)
qed

section \<open>Tags\<close>

text \<open>
  C10: No two outstanding requests of a client share a tag, and a free tag is never that of an
  outstanding request, however requests, answers in any order and flushes interleave, until the
  client has used up the tags of its counter. So an answer reaches the goroutine whose request
  it answers.
\<close>

theorem client_tags_unique:
  assumes "tag_step\<^sup>*\<^sup>* (tag_init c) y" "tw_fresh y < 65534"
    and "cl_tags c = []" "cl_lastTag c = 1" "dom (cl_calls c) \<subseteq> {0}"
  shows "distinct (tw_wire y) \<and> set (cl_tags (tw_c y)) \<inter> set (tw_wire y) = {} \<and>
    dom (cl_calls (tw_c y)) \<subseteq> insert 0 (set (tw_wire y)) \<and> 0 \<notin> set (tw_wire y)"
proof -
  note ok = tag_run_ok [OF assms]
  have "0 \<notin> set (tw_wire y)" using tags_okD(3) [OF ok, of 0] by auto
  then show ?thesis using tags_okD(2,4) [OF ok] by auto
qed

theorem client_tags_unique_witness:
  "\<exists>y. tag_step\<^sup>*\<^sup>* (tag_init new_Client) y \<and> tw_wire y = [2, 3] \<and> distinct (tw_wire y) \<and>
     set (cl_tags (tw_c y)) \<inter> set (tw_wire y) = {}"
proof -
  let ?c1 = "new_Client\<lparr>cl_lastTag := 2, cl_calls := [2 \<mapsto> 0], cl_nextch := 1\<rparr>"
  let ?c2 = "new_Client\<lparr>cl_lastTag := 3, cl_calls := [2 \<mapsto> 0, 3 \<mapsto> 1], cl_nextch := 2\<rparr>"
  let ?y1 = "\<lparr>tw_c = ?c1, tw_wire = [2], tw_fresh = 1\<rparr>" and ?y2 = "\<lparr>tw_c = ?c2, tw_wire = [2, 3], tw_fresh = 2\<rparr>"
  have "tag_step (tag_init new_Client) ?y1"
    using tag_step.request [of 0 "tag_init new_Client" 2 "new_Client\<lparr>cl_lastTag := 2\<rparr>" 0 ?c1]
    by (simp add: tag_init_def takeTag_def lockedTakeTag_def register_def new_Client_def fresh_tags_def Let_def)
  moreover have "tag_step ?y1 ?y2"
    using tag_step.request [of 0 ?y1 3 "?c1\<lparr>cl_lastTag := 3\<rparr>" 1 ?c2]
    by (simp add: numeral_2_eq_2 takeTag_def lockedTakeTag_def register_def new_Client_def fresh_tags_def Let_def)
  ultimately have run: "tag_step\<^sup>*\<^sup>* (tag_init new_Client) ?y2" by (meson rtranclp.rtrancl_into_rtrancl rtranclp.rtrancl_refl)
  show ?thesis
    using client_tags_unique [OF run] run by (intro exI [of _ ?y2]) (simp add: new_Client_def)
qed

section \<open>Types of the replies\<close>

text \<open>
  C14: The server's replies are well typed: a request whose header carries the type of its message is
  answered with the message of the next type number, the reply 9P assigns to it, or with an error
  message; the header of the answer carries the type of the answer and the tag of the request.
\<close>

theorem replies_well_typed:
  assumes "dispatch (fs_Srv ops fs order) call = Some h" "h_Type (fcall_Header call) \<in> fcall_types call"
    and "h (c, s) = Some (Inr m, w)"
  shows "h_Type (fcall_Header m) \<in> {h_Type (fcall_Header call) + 1, Rerror} \<and>
    h_Type (fcall_Header m) \<in> fcall_types m \<and> GetTag m = GetTag call"
  using dispatch_typed [OF assms(1,2), of c s] dispatch_answers [OF assms(1), of c s] assms(3)
  by (cases w) (simp add: replies_as_def)

theorem replies_well_typed_witness:
  "\<exists>h m w. dispatch ex_srv (F_TStat \<lparr>tst_Header = mk_hdr Tstat 9, tst_Fid = 6\<rparr>) = Some h \<and>
     h ex_session = Some (Inr m, w) \<and> h_Type (fcall_Header m) \<in> {Rstat, Rerror} \<and> GetTag m = 9"
proof -
  let ?call = "F_TStat \<lparr>tst_Header = mk_hdr Tstat 9, tst_Fid = 6\<rparr>"
  let ?h = "\<lambda>(c, s). srv_Stat static_ops \<lparr>tst_Header = mk_hdr Tstat 9, tst_Fid = 6\<rparr> c s"
  have d: "dispatch (fs_Srv static_ops ex_fs ex_order) ?call = Some ?h" by (simp add: dispatch_def fs_Srv_def)
  have "?h ex_session = Some (Inr (mk_RError 9 ''Bad Fid.''), ex_session)"
    by (simp add: ex_session_def srv_Stat_def mk_hdr_def Let_def)
  from replies_well_typed [OF d _ this [unfolded ex_session_def], folded ex_session_def] this d show ?thesis
    by (intro exI [of _ ?h] exI [of _ "mk_RError 9 ''Bad Fid.''"] exI [of _ ex_session])
      (simp add: ex_srv_def mk_hdr_def GetTag_def)
qed

end
