(* ===== verification/Union.thy ===== *)
theory Union
  imports Client
begin

text \<open>
  The union file system of union/union.go: directories assembled from 9P clients and bound
  directories through a table of mounts.

  Directories and files are objects, addressed by their position in \<open>u_dirs\<close> and
  \<open>u_files\<close>; clients are numbered. What a client does is a record of operations over the state
  \<open>'w\<close> of all clients, which \<open>client_ops\<close> fills with the operations of client/client.go. An
  operation is \<^const>\<open>None\<close> when it panics or does not return, as a listing that comes back to
  itself through a bind. A client that is mounted or unmounted is never nil, and the buffer of a read
  can be allocated: the server asks for no more than a message holds.
\<close>

section \<open>Clients as the union uses them\<close>

record 'w clients =
  cli_Readdir :: "nat \<Rightarrow> string \<Rightarrow> 'w \<Rightarrow> ((go_error + Stat list) \<times> 'w) option"
  cli_Stat :: "nat \<Rightarrow> string \<Rightarrow> 'w \<Rightarrow> ((go_error + Stat) \<times> 'w) option"
  cli_WStat :: "nat \<Rightarrow> string \<Rightarrow> Stat \<Rightarrow> 'w \<Rightarrow> (go_error option \<times> 'w) option"
  cli_Create :: "nat \<Rightarrow> string \<Rightarrow> u32 \<Rightarrow> 'w \<Rightarrow> ((go_error + File) \<times> 'w) option"
  cli_Open :: "nat \<Rightarrow> string \<Rightarrow> Mode \<Rightarrow> 'w \<Rightarrow> ((go_error + File) \<times> 'w) option"
  cli_Remove :: "nat \<Rightarrow> string \<Rightarrow> 'w \<Rightarrow> (go_error option \<times> 'w) option"
  file_ReadAt :: "nat \<Rightarrow> nat \<Rightarrow> u64 \<Rightarrow> File \<Rightarrow> 'w \<Rightarrow> ((go_error + bytes) \<times> File \<times> 'w) option"
  file_WriteAt :: "nat \<Rightarrow> bytes \<Rightarrow> u64 \<Rightarrow> File \<Rightarrow> 'w \<Rightarrow> ((nat \<times> go_error option) \<times> 'w) option"
  file_Close :: "nat \<Rightarrow> File \<Rightarrow> 'w \<Rightarrow> (go_error option \<times> 'w) option"

text \<open>An operation of client \<open>i\<close>, which changes its own state and its own connection only.\<close>

definition on_client ::
    "nat \<Rightarrow> (Client \<Rightarrow> 'x \<Rightarrow> ('a \<times> Client \<times> 'x) option) \<Rightarrow> (Client \<times> 'x) list \<Rightarrow> ('a \<times> (Client \<times> 'x) list) option" where
  "on_client i f w = do {
     (r, cx) \<leftarrow> f (fst (w ! i)) (snd (w ! i));
     Some (r, w[i := cx])
   }"

definition client_ops :: "'x rpc \<Rightarrow> (nat \<Rightarrow> nat) \<Rightarrow> (Client \<times> 'x) list clients" where
  "client_ops rpc grow =
     \<lparr>cli_Readdir = (\<lambda>i path. on_client i (Readdir rpc grow path)),
      cli_Stat = (\<lambda>i path. on_client i (Client_Stat rpc path)),
      cli_WStat = (\<lambda>i path st. on_client i (Client_WStat rpc path st)),
      cli_Create = (\<lambda>i name perm. on_client i (Client_Create rpc name perm)),
      cli_Open = (\<lambda>i path mode. on_client i (Client_Open rpc path mode)),
      cli_Remove = (\<lambda>i path. on_client i (Client_Remove rpc path)),
      file_ReadAt = (\<lambda>i len off f w. do {
        ((r, f), w) \<leftarrow> on_client i (\<lambda>c x. do {
          (r, f, c, x) \<leftarrow> File_ReadAt rpc len off f c x;
          Some ((r, f), c, x)
        }) w;
        Some (r, f, w)
      }),
      file_WriteAt = (\<lambda>i b off f. on_client i (File_WriteAt rpc b off f)),
      file_Close = (\<lambda>i f. on_client i (File_Close rpc f))\<rparr>"

section \<open>Mounts, directories and files\<close>

record mountEntry =
  me_c :: "nat option"
  me_f :: "nat option"
  me_d :: "nat option"
  me_mountPoint :: string
  me_replace :: bool
  me_create :: bool

record baseUnionNode =
  bn_parent :: "nat option"
  bn_path :: string
  bn_mount :: mountEntry

record unionDir = baseUnionNode +
  ud_mountTable :: "mountEntry list"

record unionFile = baseUnionNode +
  uf_opens :: "u64 \<rightharpoonup> File"
  uf_openufs :: "u64 \<rightharpoonup> nat"

datatype fsnode = UDir nat | UFile nat

record 'w ustate =
  u_dirs :: "unionDir list"
  u_files :: "unionFile list"
  u_w :: 'w

definition no_mount :: mountEntry where
  "no_mount = \<lparr>me_c = None, me_f = None, me_d = None, me_mountPoint = [], me_replace = False, me_create = False\<rparr>"

definition newUnionDir :: "string \<Rightarrow> mountEntry \<Rightarrow> mountEntry list \<Rightarrow> 'w ustate \<Rightarrow> nat \<times> 'w ustate" where
  "newUnionDir path mount mountTable u =
     (length (u_dirs u),
      u\<lparr>u_dirs := u_dirs u @
         [\<lparr>bn_parent = None, bn_path = path, bn_mount = mount, ud_mountTable = mountTable\<rparr>]\<rparr>)"

definition newUnionFile :: "string \<Rightarrow> mountEntry \<Rightarrow> 'w ustate \<Rightarrow> nat \<times> 'w ustate" where
  "newUnionFile path mount u =
     (length (u_files u),
      u\<lparr>u_files := u_files u @
         [\<lparr>bn_parent = None, bn_path = path, bn_mount = mount, uf_opens = Map.empty, uf_openufs = Map.empty\<rparr>]\<rparr>)"

definition NewUnionFS :: "'w \<Rightarrow> nat \<times> 'w ustate" where
  "NewUnionFS w = newUnionDir ''/'' no_mount [] \<lparr>u_dirs = [], u_files = [], u_w = w\<rparr>"

definition rel_error :: "string \<Rightarrow> string \<Rightarrow> go_error" where
  "rel_error basepath targpath =
     ErrorString (''Rel: can't make '' @ targpath @ '' relative to '' @ basepath)"

text \<open>An operation of a client, in a state of the union.\<close>

definition with_w :: "('w \<Rightarrow> ('a \<times> 'w) option) \<Rightarrow> 'w ustate \<Rightarrow> ('a \<times> 'w ustate) option" where
  "with_w f u = do {
     (r, w) \<leftarrow> f (u_w u);
     Some (r, u\<lparr>u_w := w\<rparr>)
   }"

section \<open>Listing a directory\<close>

text \<open>The nodes made for the entries of a client's directory.\<close>

fun client_children ::
    "string \<Rightarrow> mountEntry \<Rightarrow> mountEntry list \<Rightarrow> Stat list \<Rightarrow> (string \<times> fsnode) list \<Rightarrow> 'w ustate \<Rightarrow>
       (string \<times> fsnode) list \<times> 'w ustate" where
  "client_children path me mountTable [] children u = (children, u)"
| "client_children path me mountTable (stat # sts) children u =
     (let child = filepath_Join path (st_Name stat)
      in if st_Mode stat AND DMDIR \<noteq> 0
         then (let (d, u) = newUnionDir child me mountTable u
               in client_children path me mountTable sts (AList.update (st_Name stat) (UDir d) children) u)
         else (let (f, u) = newUnionFile child me u
               in client_children path me mountTable sts (AList.update (st_Name stat) (UFile f) children) u))"

text \<open>The nodes of a bound directory, moved to the place of the bind.\<close>

fun bound_children ::
    "string \<Rightarrow> mountEntry \<Rightarrow> mountEntry list \<Rightarrow> (string \<times> fsnode) list \<Rightarrow> (string \<times> fsnode) list \<Rightarrow> 'w ustate \<Rightarrow>
       (string \<times> fsnode) list \<times> 'w ustate" where
  "bound_children path me mountTable [] children u = (children, u)"
| "bound_children path me mountTable ((name, n) # subs) children u =
     (let child = filepath_Join path name;
          u = (case n of
                 UDir d \<Rightarrow> u\<lparr>u_dirs := (u_dirs u)[d := (u_dirs u ! d)\<lparr>bn_mount := me, bn_path := child,
                                                      ud_mountTable := mountTable\<rparr>]\<rparr>
               | UFile f \<Rightarrow> u\<lparr>u_files := (u_files u)[f := (u_files u ! f)\<lparr>bn_mount := me, bn_path := child\<rparr>]\<rparr>)
      in bound_children path me mountTable subs (AList.update name n children) u)"

text \<open>
  Walking down from a directory, where \<open>listing\<close> lists a directory. \<open>find_file_parts\<close> stays in
  a directory when a part of the path is a file; \<open>find_parts\<close> is the walk of \<^verbatim>\<open>find\<close>, whose
  type assertion fails for every node of a listing.
\<close>

type_synonym 'w listing = "nat \<Rightarrow> 'w ustate \<Rightarrow> ((string \<times> fsnode) list \<times> 'w ustate) option"

primrec find_dir_parts :: "'w listing \<Rightarrow> string list \<Rightarrow> nat \<Rightarrow> 'w ustate \<Rightarrow> (nat option \<times> 'w ustate) option" where
  "find_dir_parts listing [] d u = Some (Some d, u)"
| "find_dir_parts listing (part # parts) d u = do {
     (children, u) \<leftarrow> listing d u;
     (case map_of children part of
        Some (UDir cd) \<Rightarrow> find_dir_parts listing parts cd u
      | _ \<Rightarrow> Some (None, u))
   }"

definition find_dir :: "'w listing \<Rightarrow> string \<Rightarrow> nat \<Rightarrow> 'w ustate \<Rightarrow> (nat option \<times> 'w ustate) option" where
  "find_dir listing rel d u =
     (let rel = TrimPrefix rel ''/''
      in if rel = [] then Some (Some d, u) else find_dir_parts listing (split_on slash rel) d u)"

primrec list_entries ::
    "'w clients \<Rightarrow> 'w listing \<Rightarrow> nat \<Rightarrow> mountEntry list \<Rightarrow> mountEntry list \<Rightarrow> (string \<times> fsnode) list \<Rightarrow> 'w ustate \<Rightarrow>
       ((string \<times> fsnode) list \<times> 'w ustate) option" where
  "list_entries cl listing d mountTable [] children u = Some (children, u)"
| "list_entries cl listing d mountTable (me # mes) children u =
     (let ud = u_dirs u ! d;
          mount = bn_mount ud;
          isCurrentMount = (me_c mount = me_c me \<and> me_d mount = me_d me \<and> me_f mount = me_f me);
          continue = list_entries cl listing d mountTable mes;
          finish = (\<lambda>children u. if me_replace me \<and> \<not> isCurrentMount then Some (children, u) else continue children u)
      in if bn_path ud \<noteq> me_mountPoint me \<and> \<not> isCurrentMount then continue children u
         else case filepath_Rel (me_mountPoint me) (bn_path ud) of
           None \<Rightarrow> continue children u
         | Some rel \<Rightarrow>
             (let rel = (if rel = ''.'' then ''/'' else rel)
              in case me_c me of
                Some c \<Rightarrow> do {
                  (sts, u) \<leftarrow> with_w (cli_Readdir cl c rel) u;
                  (case sts of
                     Inl err \<Rightarrow> continue children u
                   | Inr sts \<Rightarrow>
                       (let (children, u) = client_children (bn_path ud) me mountTable sts children u
                        in finish children u))
                }
              | None \<Rightarrow>
                  (case me_d me of
                     Some dd \<Rightarrow> do {
                       (on, u) \<leftarrow> find_dir listing rel dd u;
                       (case on of
                          None \<Rightarrow> continue children u
                        | Some on \<Rightarrow> do {
                            (subchildren, u) \<leftarrow> listing on u;
                            (let (children, u) = bound_children (bn_path ud) me mountTable subchildren children u
                             in finish children u)
                          })
                     }
                   | None \<Rightarrow> finish children u)))"

text \<open>A listing that lists other directories is monotone in how they are listed.\<close>

lemma mono_option_cases:
  "(\<And>y. mono_option (\<lambda>f. G f y)) \<Longrightarrow> mono_option F \<Longrightarrow> mono_option (\<lambda>f. case x of None \<Rightarrow> F f | Some y \<Rightarrow> G f y)"
  "(\<And>y. mono_option (\<lambda>f. G1 f y)) \<Longrightarrow> (\<And>z. mono_option (\<lambda>f. G2 f z)) \<Longrightarrow>
     mono_option (\<lambda>f. case e of Inl y \<Rightarrow> G1 f y | Inr z \<Rightarrow> G2 f z)"
  "(\<And>a b. mono_option (\<lambda>f. H f a b)) \<Longrightarrow> mono_option (\<lambda>f. case p of (a, b) \<Rightarrow> H f a b)"
  "(\<And>y. mono_option (\<lambda>f. N1 f y)) \<Longrightarrow> (\<And>z. mono_option (\<lambda>f. N2 f z)) \<Longrightarrow>
     mono_option (\<lambda>f. case n of UDir y \<Rightarrow> N1 f y | UFile z \<Rightarrow> N2 f z)"
  "mono_option F1 \<Longrightarrow> mono_option F2 \<Longrightarrow> mono_option (\<lambda>f. if b then F1 f else F2 f)"
  by ((cases x; simp), (cases e; simp), (cases p; simp), (cases n; simp), (cases b; simp))

lemmas listing_mono = option.const_mono bind_mono mono_option_cases

lemma find_dir_parts_mono:
  assumes "\<And>d u. mono_option (\<lambda>f. B f d u)"
  shows "mono_option (\<lambda>f. find_dir_parts (B f) parts d u)"
proof (induction parts arbitrary: d u)
  case Nil
  then show ?case by (simp add: option.const_mono)
next
  case (Cons part parts)
  show ?case unfolding find_dir_parts.simps by (intro listing_mono assms Cons.IH)
qed

lemma find_dir_mono:
  assumes "\<And>d u. mono_option (\<lambda>f. B f d u)"
  shows "mono_option (\<lambda>f. find_dir (B f) rel d u)"
  unfolding find_dir_def Let_def by (intro listing_mono find_dir_parts_mono assms)

lemma list_entries_mono [partial_function_mono]:
  assumes "\<And>d u. mono_option (\<lambda>f. B f d u)"
  shows "mono_option (\<lambda>f. list_entries cl (B f) d mountTable mes children u)"
proof (induction mes arbitrary: children u)
  case Nil
  then show ?case by (simp add: option.const_mono)
next
  case (Cons me mes)
  show ?case
    unfolding list_entries.simps Let_def by (intro listing_mono Cons.IH assms find_dir_mono)
qed

partial_function (option) Children :: "'w clients \<Rightarrow> 'w listing" where
  "Children cl d u =
     (let mountTable = ud_mountTable (u_dirs u ! d)
      in list_entries cl (\<lambda>d u. Children cl d u) d mountTable mountTable [] u)"

declare Children.simps [code]

definition findDir :: "'w clients \<Rightarrow> string \<Rightarrow> nat \<Rightarrow> 'w ustate \<Rightarrow> (nat option \<times> 'w ustate) option" where
  "findDir cl rel d u = find_dir (Children cl) rel d u"

section \<open>Walking to a node\<close>

primrec find_parts :: "'w listing \<Rightarrow> string list \<Rightarrow> nat \<Rightarrow> 'w ustate \<Rightarrow> (nat option \<times> 'w ustate) option" where
  "find_parts listing [] d u = Some (None, u)"
| "find_parts listing (part # parts) d u = do {
     (children, u) \<leftarrow> listing d u;
     (case map_of children part of
        None \<Rightarrow> Some (None, u)
      | Some child \<Rightarrow> None)
   }"

definition find :: "'w clients \<Rightarrow> string \<Rightarrow> nat \<Rightarrow> 'w ustate \<Rightarrow> (nat option \<times> 'w ustate) option" where
  "find cl rel d u =
     (let rel = TrimPrefix rel ''/''
      in if rel = [] then Some (Some d, u) else find_parts (Children cl) (split_on slash rel) d u)"

primrec find_file_parts ::
    "'w listing \<Rightarrow> string list \<Rightarrow> nat \<Rightarrow> fsnode option \<Rightarrow> 'w ustate \<Rightarrow> (nat option \<times> 'w ustate) option" where
  "find_file_parts listing [] d n u = Some (case n of Some (UFile f) \<Rightarrow> Some f | _ \<Rightarrow> None, u)"
| "find_file_parts listing (part # parts) d n u = do {
     (children, u) \<leftarrow> listing d u;
     (case map_of children part of
        None \<Rightarrow> Some (None, u)
      | Some child \<Rightarrow>
          find_file_parts listing parts (case child of UDir cd \<Rightarrow> cd | UFile _ \<Rightarrow> d) (Some child) u)
   }"

definition findFile :: "'w clients \<Rightarrow> string \<Rightarrow> nat \<Rightarrow> 'w ustate \<Rightarrow> (nat option \<times> 'w ustate) option" where
  "findFile cl rel d u =
     (let rel = TrimPrefix rel ''/''
      in if rel = [] then Some (None, u) else find_file_parts (Children cl) (split_on slash rel) d None u)"

section \<open>Stats and parents\<close>

definition zero_stat :: Stat where
  "zero_stat =
     \<lparr>st_Type = 0, st_Dev = 0, st_Qid = \<lparr>q_Qtype = 0, q_Vers = 0, q_Uid = 0\<rparr>, st_Mode = 0, st_Atime = 0,
      st_Mtime = 0, st_Length = 0, st_Name = [], st_Uid = [], st_Gid = [], st_Muid = []\<rparr>"

text \<open>\<^verbatim>\<open>Stat\<close> of a node under a bind is that of the bound directory, whatever the node's path.\<close>

partial_function (option) union_Stat :: "'w clients \<Rightarrow> baseUnionNode \<Rightarrow> 'w ustate \<Rightarrow> (Stat \<times> 'w ustate) option" where
  "union_Stat cl n u =
     (if bn_path n = [] then Some (zero_stat\<lparr>st_Mode := DMDIR\<rparr>, u)
      else case filepath_Rel (me_mountPoint (bn_mount n)) (bn_path n) of
        None \<Rightarrow> Some (zero_stat, u)
      | Some rel \<Rightarrow>
          (case me_c (bn_mount n) of
             Some c \<Rightarrow> do {
               (stat, u) \<leftarrow> with_w (cli_Stat cl c rel) u;
               Some (case stat of Inl _ \<Rightarrow> zero_stat | Inr stat \<Rightarrow> stat, u)
             }
           | None \<Rightarrow>
               (case me_f (bn_mount n) of
                  Some f \<Rightarrow> union_Stat cl (baseUnionNode.truncate (u_files u ! f)) u
                | None \<Rightarrow>
                    (case me_d (bn_mount n) of
                       Some d \<Rightarrow> union_Stat cl (baseUnionNode.truncate (u_dirs u ! d)) u
                     | None \<Rightarrow> None))))"

declare union_Stat.simps [code]

definition union_WriteStat ::
    "'w clients \<Rightarrow> Stat \<Rightarrow> baseUnionNode \<Rightarrow> 'w ustate \<Rightarrow> (go_error option \<times> 'w ustate) option" where
  "union_WriteStat cl s n u =
     (case me_c (bn_mount n) of
        None \<Rightarrow> Some (Some (ErrorString ''the root directory cannot be modified''), u)
      | Some c \<Rightarrow>
          (case filepath_Rel (me_mountPoint (bn_mount n)) (bn_path n) of
             None \<Rightarrow> Some (Some (rel_error (me_mountPoint (bn_mount n)) (bn_path n)), u)
           | Some rel \<Rightarrow> with_w (cli_WStat cl c rel s) u))"

definition union_Parent :: "baseUnionNode \<Rightarrow> nat option" where
  "union_Parent n = bn_parent n"

text \<open>\<open>p\<close> is \<^const>\<open>None\<close> for a directory of another file system.\<close>

definition union_SetParent :: "nat option \<Rightarrow> baseUnionNode \<Rightarrow> baseUnionNode option" where
  "union_SetParent p n = (case p of None \<Rightarrow> None | Some ud \<Rightarrow> Some (n\<lparr>bn_parent := Some ud\<rparr>))"

section \<open>Creating and removing\<close>

text \<open>The mount that takes a new file: the directory's own, else the first that may create here.\<close>

fun first_create :: "string \<Rightarrow> mountEntry \<Rightarrow> mountEntry list \<Rightarrow> mountEntry" where
  "first_create path mte [] = mte"
| "first_create path mte (me # mes) =
     (if me_create me \<and> path = me_mountPoint me then me
      else if me_replace me then mte
      else first_create path mte mes)"

definition create_mount :: "unionDir \<Rightarrow> mountEntry" where
  "create_mount ud =
     (let mte = bn_mount ud
      in if me_create mte then mte else first_create (bn_path ud) mte (ud_mountTable ud))"

definition create_perm :: "u8 \<Rightarrow> u32 \<Rightarrow> u32" where
  "create_perm mode perm = push_bit 24 (ucast mode) OR (perm AND 0x00FFFFFF)"

text \<open>
  \<^verbatim>\<open>CreateFile\<close> and \<^verbatim>\<open>CreateDir\<close> differ in the node they make; \<open>isdir\<close> tells which. In the
  branch for binds the messages for a node without parent differ in an article.
\<close>

partial_function (option) union_Create ::
    "'w clients \<Rightarrow> bool \<Rightarrow> string \<Rightarrow> u32 \<Rightarrow> u8 \<Rightarrow> nat \<Rightarrow> 'w ustate \<Rightarrow> ((go_error + fsnode) \<times> 'w ustate) option" where
  "union_Create cl isdir name perm mode d u =
     (let ud = u_dirs u ! d; mte = create_mount ud; path = filepath_Join (bn_path ud) name
      in if \<not> me_create mte then Some (Inl (ErrorString ''creation is not permitted here''), u)
         else case filepath_Rel (me_mountPoint mte) path of
           None \<Rightarrow> Some (Inl (rel_error (me_mountPoint mte) path), u)
         | Some rel \<Rightarrow>
             (case me_c mte of
                Some c \<Rightarrow> do {
                  (r, u) \<leftarrow> with_w (cli_Create cl c rel (create_perm mode perm)) u;
                  (case r of
                     Inl err \<Rightarrow> Some (Inl err, u)
                   | Inr f \<Rightarrow> do {
                       (_, u) \<leftarrow> with_w (file_Close cl c f) u;
                       (if isdir
                        then (let (nd, u) = newUnionDir path mte (ud_mountTable (u_dirs u ! d)) u in Some (Inr (UDir nd), u))
                        else (let (nf, u) = newUnionFile path mte u in Some (Inr (UFile nf), u)))
                     })
                }
              | None \<Rightarrow>
                  (case me_d mte of
                     Some dd \<Rightarrow> do {
                       (on, u) \<leftarrow> find cl rel dd u;
                       (case on of
                          None \<Rightarrow> Some (Inl (ErrorString ''stale mount''), u)
                        | Some on \<Rightarrow>
                            (case bn_parent (u_dirs u ! on) of
                               None \<Rightarrow>
                                 Some (Inl (ErrorString (if isdir then ''cannot create the root'' else ''cannot create root'')), u)
                             | Some parent \<Rightarrow> union_Create cl isdir name perm mode parent u))
                     }
                   | None \<Rightarrow> None)))"

declare union_Create.simps [code]

definition CreateFile :: "'w clients \<Rightarrow> string \<Rightarrow> u32 \<Rightarrow> u8 \<Rightarrow> nat \<Rightarrow> 'w ustate \<Rightarrow> ((go_error + fsnode) \<times> 'w ustate) option" where
  "CreateFile cl name perm mode d u = union_Create cl False name perm mode d u"

definition CreateDir :: "'w clients \<Rightarrow> string \<Rightarrow> u32 \<Rightarrow> u8 \<Rightarrow> nat \<Rightarrow> 'w ustate \<Rightarrow> ((go_error + fsnode) \<times> 'w ustate) option" where
  "CreateDir cl name perm mode d u = union_Create cl True name perm mode d u"

text \<open>
  The nodes a remove is given: \<open>Inl d\<close> is the \<^verbatim>\<open>*baseUnionNode\<close> inside directory \<open>d\<close>, as
  \<^verbatim>\<open>find\<close> returns it, which is no \<^verbatim>\<open>*unionFile\<close>.
\<close>

definition RemoveFile :: "'w clients \<Rightarrow> nat + fsnode \<Rightarrow> nat \<Rightarrow> 'w ustate \<Rightarrow> (go_error option \<times> 'w ustate) option" where
  "RemoveFile cl f d u =
     (case f of
        Inr (UFile uf) \<Rightarrow>
          (let ud = u_dirs u ! d; mount = bn_mount ud; path = bn_path (u_files u ! uf)
           in case filepath_Rel (me_mountPoint mount) path of
                None \<Rightarrow> Some (Some (rel_error (me_mountPoint mount) path), u)
              | Some rel \<Rightarrow>
                  (case me_c mount of
                     Some c \<Rightarrow> with_w (cli_Remove cl c rel) u
                   | None \<Rightarrow>
                       (case me_d mount of
                          Some dd \<Rightarrow> do {
                            (on, u) \<leftarrow> find cl rel dd u;
                            (case on of
                               None \<Rightarrow> Some (Some (ErrorString ''stale mount''), u)
                             | Some on \<Rightarrow>
                                 (case bn_parent (u_dirs u ! on) of
                                    None \<Rightarrow> Some (Some (ErrorString ''cannot remove root''), u)
                                  | Some parent \<Rightarrow>
                                      Some (Some (ErrorString ''cannot remove file that is not a union filesystem file''), u)))
                          }
                        | None \<Rightarrow> None)))
      | _ \<Rightarrow> Some (Some (ErrorString ''cannot remove file that is not a union filesystem file''), u))"

text \<open>
  The hooks of the file system. \<open>p\<close> is \<^const>\<open>None\<close> for a directory of another file system. The
  parent of a node is a \<^verbatim>\<open>*unionDir\<close> even when it is nil, so the assertion in
  \<open>removeUnionFile\<close> succeeds, and only a node that is no file is refused before the nil
  parent is used.
\<close>

definition createUnionFile ::
    "'w clients \<Rightarrow> nat option \<Rightarrow> string \<Rightarrow> u32 \<Rightarrow> u8 \<Rightarrow> 'w ustate \<Rightarrow> ((go_error + fsnode) \<times> 'w ustate) option" where
  "createUnionFile cl p name perm mode u =
     (case p of
        None \<Rightarrow> Some (Inl (ErrorString ''directory is not a union filesystem directory''), u)
      | Some parent \<Rightarrow> CreateFile cl name perm mode parent u)"

definition createUnionDir ::
    "'w clients \<Rightarrow> nat option \<Rightarrow> string \<Rightarrow> u32 \<Rightarrow> u8 \<Rightarrow> 'w ustate \<Rightarrow> ((go_error + fsnode) \<times> 'w ustate) option" where
  "createUnionDir cl p name perm mode u =
     (case p of
        None \<Rightarrow> Some (Inl (ErrorString ''directory is not a union filesystem directory''), u)
      | Some parent \<Rightarrow> CreateDir cl name perm mode parent u)"

definition removeUnionFile :: "'w clients \<Rightarrow> fsnode \<Rightarrow> 'w ustate \<Rightarrow> (go_error option \<times> 'w ustate) option" where
  "removeUnionFile cl f u =
     (case (case f of UDir d \<Rightarrow> bn_parent (u_dirs u ! d) | UFile uf \<Rightarrow> bn_parent (u_files u ! uf)) of
        Some parent \<Rightarrow> RemoveFile cl (Inr f) parent u
      | None \<Rightarrow>
          (case f of
             UFile _ \<Rightarrow> None
           | UDir _ \<Rightarrow> Some (Some (ErrorString ''cannot remove file that is not a union filesystem file''), u)))"

section \<open>Files\<close>

abbreviation set_ufile :: "nat \<Rightarrow> unionFile \<Rightarrow> 'w ustate \<Rightarrow> 'w ustate" where
  "set_ufile f uf u \<equiv> u\<lparr>u_files := (u_files u)[f := uf]\<rparr>"

definition not_open :: "u64 \<Rightarrow> go_error" where
  "not_open fid = ErrorString (''fid is not open: '' @ fmt_d (unat fid))"

abbreviation (input) unknown_fid :: go_error where
  "unknown_fid \<equiv> ErrorString ''unknown fid, or file closed''"

partial_function (option) unionFile_Open ::
    "'w clients \<Rightarrow> u64 \<Rightarrow> Mode \<Rightarrow> nat \<Rightarrow> 'w ustate \<Rightarrow> (go_error option \<times> 'w ustate) option" where
  "unionFile_Open cl fid omode f u =
     (let uf = u_files u ! f; mount = bn_mount uf
      in case filepath_Rel (me_mountPoint mount) (bn_path uf) of
           None \<Rightarrow> Some (Some (rel_error (me_mountPoint mount) (bn_path uf)), u)
         | Some rel \<Rightarrow>
             (case me_c mount of
                Some c \<Rightarrow> do {
                  (r, u) \<leftarrow> with_w (cli_Open cl c rel omode) u;
                  (case r of
                     Inl err \<Rightarrow> Some (Some err, u)
                   | Inr file \<Rightarrow> Some (None, set_ufile f (uf\<lparr>uf_opens := (uf_opens uf)(fid \<mapsto> file)\<rparr>) u))
                }
              | None \<Rightarrow>
                  (case me_d mount of
                     Some d \<Rightarrow> do {
                       (on, u) \<leftarrow> findFile cl rel d u;
                       (case on of
                          None \<Rightarrow> Some (Some (ErrorString ''stale mount''), u)
                        | Some on \<Rightarrow>
                            unionFile_Open cl fid omode on
                              (set_ufile f (uf\<lparr>uf_openufs := (uf_openufs uf)(fid \<mapsto> on)\<rparr>) u))
                     }
                   | None \<Rightarrow>
                       (case me_f mount of
                          Some on \<Rightarrow> unionFile_Open cl fid omode on u
                        | None \<Rightarrow> None))))"

declare unionFile_Open.simps [code]

partial_function (option) unionFile_Read ::
    "'w clients \<Rightarrow> u64 \<Rightarrow> u64 \<Rightarrow> u64 \<Rightarrow> nat \<Rightarrow> 'w ustate \<Rightarrow> ((go_error + bytes) \<times> 'w ustate) option" where
  "unionFile_Read cl fid offset cnt f u =
     (let uf = u_files u ! f; mount = bn_mount uf
      in case me_c mount of
           Some c \<Rightarrow>
             (case uf_opens uf fid of
                None \<Rightarrow> Some (Inl (not_open fid), u)
              | Some file \<Rightarrow>
                  if 2 ^ 63 \<le> unat offset
                  then Some (Inl (ErrorString (''offset sign underflow: '' @ fmt_d (unat offset))), u)
                  else do {
                    (r, file, w) \<leftarrow> file_ReadAt cl c (unat cnt) offset file (u_w u);
                    Some (r, set_ufile f (uf\<lparr>uf_opens := (uf_opens uf)(fid \<mapsto> file)\<rparr>) (u\<lparr>u_w := w\<rparr>))
                  })
         | None \<Rightarrow>
             (case me_d mount of
                Some d \<Rightarrow>
                  (case uf_openufs uf fid of
                     None \<Rightarrow> Some (Inl unknown_fid, u)
                   | Some on \<Rightarrow> unionFile_Read cl fid offset cnt on u)
              | None \<Rightarrow>
                  (case me_f mount of
                     Some on \<Rightarrow> unionFile_Read cl fid offset cnt on u
                   | None \<Rightarrow> None)))"

declare unionFile_Read.simps [code]

partial_function (option) unionFile_Write ::
    "'w clients \<Rightarrow> u64 \<Rightarrow> u64 \<Rightarrow> bytes \<Rightarrow> nat \<Rightarrow> 'w ustate \<Rightarrow> ((u32 \<times> go_error option) \<times> 'w ustate) option" where
  "unionFile_Write cl fid offset data f u =
     (let uf = u_files u ! f; mount = bn_mount uf
      in case me_c mount of
           Some c \<Rightarrow>
             (case uf_opens uf fid of
                None \<Rightarrow> Some ((0, Some (not_open fid)), u)
              | Some file \<Rightarrow>
                  if 2 ^ 63 \<le> unat offset
                  then Some ((0, Some (ErrorString (''offset signed underflow: '' @ fmt_d (unat offset)))), u)
                  else do {
                    ((n, err), u) \<leftarrow> with_w (file_WriteAt cl c data offset file) u;
                    Some ((of_nat n, err), u)
                  })
         | None \<Rightarrow>
             (case me_d mount of
                Some d \<Rightarrow>
                  (case uf_openufs uf fid of
                     None \<Rightarrow> Some ((0, Some unknown_fid), u)
                   | Some on \<Rightarrow> unionFile_Write cl fid offset data on u)
              | None \<Rightarrow>
                  (case me_f mount of
                     Some on \<Rightarrow> unionFile_Write cl fid offset data on u
                   | None \<Rightarrow> None)))"

declare unionFile_Write.simps [code]

partial_function (option) unionFile_Close ::
    "'w clients \<Rightarrow> u64 \<Rightarrow> nat \<Rightarrow> 'w ustate \<Rightarrow> (go_error option \<times> 'w ustate) option" where
  "unionFile_Close cl fid f u =
     (let uf = u_files u ! f; mount = bn_mount uf
      in case me_c mount of
           Some c \<Rightarrow>
             (case uf_opens uf fid of
                None \<Rightarrow> Some (Some (not_open fid), u)
              | Some file \<Rightarrow>
                  with_w (file_Close cl c file) (set_ufile f (uf\<lparr>uf_opens := (uf_opens uf)(fid := None)\<rparr>) u))
         | None \<Rightarrow>
             (case me_d mount of
                Some d \<Rightarrow>
                  (case uf_openufs uf fid of
                     None \<Rightarrow> Some (Some unknown_fid, u)
                   | Some on \<Rightarrow>
                       unionFile_Close cl fid on
                         (set_ufile f (uf\<lparr>uf_openufs := (uf_openufs uf)(fid := None)\<rparr>) u))
              | None \<Rightarrow>
                  (case me_f mount of
                     Some on \<Rightarrow> unionFile_Close cl fid on u
                   | None \<Rightarrow> None)))"

declare unionFile_Close.simps [code]

section \<open>The mount table\<close>

text \<open>
  \<^verbatim>\<open>MountOption\<close> is an int. \<open>root\<close> is \<^const>\<open>None\<close> for a file system that is no union.
\<close>

abbreviation (input) "REPLACE \<equiv> 0 :: int"
abbreviation (input) "BEFORE \<equiv> 1 :: int"
abbreviation (input) "AFTER \<equiv> 2 :: int"

definition fmt_i :: "int \<Rightarrow> string" where
  "fmt_i i = (if i < 0 then ''-'' @ fmt_d (nat (- i)) else fmt_d (nat i))"

abbreviation set_table :: "nat \<Rightarrow> mountEntry list \<Rightarrow> 'w ustate \<Rightarrow> 'w ustate" where
  "set_table root t u \<equiv> u\<lparr>u_dirs := (u_dirs u)[root := (u_dirs u ! root)\<lparr>ud_mountTable := t\<rparr>]\<rparr>"

abbreviation table :: "nat \<Rightarrow> 'w ustate \<Rightarrow> mountEntry list" where
  "table root u \<equiv> ud_mountTable (u_dirs u ! root)"

definition Mount :: "nat option \<Rightarrow> nat \<Rightarrow> string \<Rightarrow> int \<Rightarrow> bool \<Rightarrow> 'w ustate \<Rightarrow> go_error option \<times> 'w ustate" where
  "Mount fs c old option create u =
     (case fs of
        None \<Rightarrow> (Some (ErrorString ''cannot mount into non-union filesystem''), u)
      | Some root \<Rightarrow>
          (let entry = \<lparr>me_c = Some c, me_f = None, me_d = None, me_mountPoint = old,
                        me_replace = (option = REPLACE), me_create = create\<rparr>
           in if option = BEFORE \<or> option = REPLACE then (None, set_table root (entry # table root u) u)
              else if option = AFTER then (None, set_table root (table root u @ [entry]) u)
              else (Some (ErrorString (''unrecognized mount option for mount: '' @ fmt_i option)), u)))"

definition Bind ::
    "'w clients \<Rightarrow> nat option \<Rightarrow> string \<Rightarrow> string \<Rightarrow> int \<Rightarrow> bool \<Rightarrow> 'w ustate \<Rightarrow> (go_error option \<times> 'w ustate) option" where
  "Bind cl fs path old option create u =
     (case fs of
        None \<Rightarrow> Some (Some (ErrorString ''cannot bind into non-union filesystem''), u)
      | Some root \<Rightarrow> do {
          (pathdir, u) \<leftarrow> findDir cl path root u;
          (case pathdir of
             None \<Rightarrow> Some (Some (ErrorString ''cannot find directory to bind''), u)
           | Some d \<Rightarrow>
               (let entry = \<lparr>me_c = None, me_f = None, me_d = Some d, me_mountPoint = old,
                             me_replace = (option = REPLACE), me_create = create\<rparr>
                in Some (if option = BEFORE \<or> option = REPLACE then (None, set_table root (entry # table root u) u)
                         else if option = AFTER then (None, set_table root (table root u @ [entry]) u)
                         else (Some (ErrorString (''unknown mount option for bind: '' @ fmt_i option)), u))))
        })"

fun unmount_loop :: "string \<Rightarrow> mountEntry list \<Rightarrow> nat list \<Rightarrow> mountEntry list \<Rightarrow> nat list \<times> mountEntry list" where
  "unmount_loop old [] cs t = (cs, t)"
| "unmount_loop old (me # mes) cs t =
     (if me_mountPoint me \<noteq> old then unmount_loop old mes cs (t @ [me])
      else case me_c me of
             Some c \<Rightarrow> unmount_loop old mes (cs @ [c]) t
           | None \<Rightarrow> unmount_loop old mes cs t)"

definition UnmountPoint :: "nat option \<Rightarrow> string \<Rightarrow> 'w ustate \<Rightarrow> (nat list \<times> go_error option) \<times> 'w ustate" where
  "UnmountPoint fs old u =
     (case fs of
        None \<Rightarrow> (([], Some (ErrorString ''cannot unmount in a non-union filesystem'')), u)
      | Some root \<Rightarrow>
          (let (cs, t) = unmount_loop old (table root u) [] []
           in ((cs, None), set_table root t u)))"

definition UnmountClient :: "nat option \<Rightarrow> nat \<Rightarrow> string \<Rightarrow> 'w ustate \<Rightarrow> go_error option \<times> 'w ustate" where
  "UnmountClient fs c old u =
     (case fs of
        None \<Rightarrow> (Some (ErrorString ''cannot unmount in a non-union filesystem''), u)
      | Some root \<Rightarrow>
          (None, set_table root (filter (\<lambda>me. me_mountPoint me \<noteq> old \<or> me_c me \<noteq> Some c) (table root u)) u))"

definition UnmountBind :: "nat option \<Rightarrow> string \<Rightarrow> string \<Rightarrow> 'w ustate \<Rightarrow> go_error option \<times> 'w ustate" where
  "UnmountBind fs path old u =
     (case fs of
        None \<Rightarrow> (Some (ErrorString ''cannot unmount in a non-union filesystem''), u)
      | Some root \<Rightarrow>
          (None, set_table root
             (filter (\<lambda>me. me_mountPoint me \<noteq> old \<or> me_d me = None \<or> bn_path (u_dirs u ! the (me_d me)) \<noteq> path)
                (table root u)) u))"

end
