(* ===== verification/Union_Props.thy ===== *)
theory Union_Props
  imports Union "HOL-Library.Sublist"
begin

text \<open>
  Listings of the union file system of union/union.go: that they end whenever no directory is bound to
  the root itself, that they never end when the root is bound to itself, and what they show.
\<close>

section \<open>Listings end\<close>

text \<open>
  The tables of bound directories are older than the binds: \<open>strat root dirs n t\<close> says that following
  the binds of the table \<open>t\<close> ends after \<open>n\<close> directories, without meeting the root.
\<close>

primrec strat :: "nat \<Rightarrow> unionDir list \<Rightarrow> nat \<Rightarrow> mountEntry list \<Rightarrow> bool" where
  "strat root dirs 0 t \<longleftrightarrow> (\<forall>me \<in> set t. me_d me = None)"
| "strat root dirs (Suc n) t \<longleftrightarrow>
     (\<forall>me \<in> set t. \<forall>dd. me_d me = Some dd \<longrightarrow>
        dd \<noteq> root \<and> dd < length dirs \<and> strat root dirs n (ud_mountTable (dirs ! dd)))"

lemma strat_Suc: "strat root dirs n t \<Longrightarrow> strat root dirs (Suc n) t"
proof (induction n arbitrary: t)
  case 0
  then show ?case by simp
next
  case (Suc n)
  then show ?case using strat.simps(2) [of root dirs] by blast
qed

lemma strat_ext:
  assumes "strat root dirs n t" "length dirs \<le> length dirs'"
    and same: "\<And>d. d < length dirs \<Longrightarrow> d \<noteq> root \<Longrightarrow> ud_mountTable (dirs' ! d) = ud_mountTable (dirs ! d)"
  shows "strat root dirs' n t"
  using assms(1)
proof (induction n arbitrary: t)
  case (Suc n)
  then show ?case using assms(2) same by fastforce
qed simp

lemma strat_subset: "strat root dirs n t \<Longrightarrow> set t' \<subseteq> set t \<Longrightarrow> strat root dirs n t'"
  by (cases n) (simp_all, blast+)

text \<open>
  What a listing leaves: the old directories untouched, and new ones, with the table of the listed
  directory, for the directories it shows.
\<close>

definition listed_node :: "'w ustate \<Rightarrow> mountEntry list \<Rightarrow> 'w ustate \<Rightarrow> fsnode \<Rightarrow> bool" where
  "listed_node u t u' n \<longleftrightarrow>
     (case n of
        UDir d \<Rightarrow> length (u_dirs u) \<le> d \<and> d < length (u_dirs u') \<and> ud_mountTable (u_dirs u' ! d) = t
      | UFile f \<Rightarrow> True)"

definition listed :: "'w ustate \<Rightarrow> mountEntry list \<Rightarrow> (string \<times> fsnode) list \<Rightarrow> 'w ustate \<Rightarrow> bool" where
  "listed u t ch u' \<longleftrightarrow> prefix (u_dirs u) (u_dirs u') \<and> (\<forall>n \<in> snd ` set ch. listed_node u t u' n)"

lemma prefix_nth: "prefix xs ys \<Longrightarrow> i < length xs \<Longrightarrow> ys ! i = xs ! i"
  by (auto simp: prefix_def nth_append)

lemma listed_node_ext:
  "listed_node u t u' n \<Longrightarrow> prefix (u_dirs u') (u_dirs u'') \<Longrightarrow> listed_node u t u'' n"
  using prefix_nth [of "u_dirs u'" "u_dirs u''"] prefix_length_le [of "u_dirs u'" "u_dirs u''"]
  by (auto simp: listed_node_def split: fsnode.splits)

lemma listed_ext:
  "listed u t ch u' \<Longrightarrow> prefix (u_dirs u') (u_dirs u'') \<Longrightarrow> listed u t ch u''"
  unfolding listed_def by (blast intro: listed_node_ext prefix_order.trans)

lemma update_nodes: "snd ` set (AList.update k v al) \<subseteq> insert v (snd ` set al)"
  by (induction al) auto

lemma listed_update:
  "listed u t ch u' \<Longrightarrow> listed_node u t u' n \<Longrightarrow> listed u t (AList.update name n ch) u'"
  using update_nodes [of name n ch] unfolding listed_def by blast

lemma client_children_listed:
  assumes "client_children path me t sts ch u1 = (ch', u2)" "listed u t ch u1"
  shows "listed u t ch' u2 \<and> prefix (u_dirs u1) (u_dirs u2)"
  using assms
proof (induction sts arbitrary: ch u1)
  case (Cons st sts)
  define path' where "path' = filepath_Join path (st_Name st)"
  have u: "length (u_dirs u) \<le> length (u_dirs u1)"
    using Cons.prems(2) by (simp add: listed_def prefix_length_le)
  show ?case
  proof (cases "st_Mode st AND DMDIR \<noteq> 0")
    case True
    obtain d u3 where n: "newUnionDir path' me t u1 = (d, u3)" by fastforce
    have p: "prefix (u_dirs u1) (u_dirs u3)" "listed_node u t u3 (UDir d)"
      using n u by (auto simp: newUnionDir_def listed_node_def)
    have "client_children path me t sts (AList.update (st_Name st) (UDir d) ch) u3 = (ch', u2)"
      using Cons.prems(1) True n by (simp add: path'_def)
    from Cons.IH [OF this listed_update [OF listed_ext [OF Cons.prems(2) p(1)] p(2)]] p(1)
    show ?thesis by (blast intro: prefix_order.trans)
  next
    case False
    obtain f u3 where n: "newUnionFile path' me u1 = (f, u3)" by fastforce
    have p: "prefix (u_dirs u1) (u_dirs u3)" "listed_node u t u3 (UFile f)"
      using n by (auto simp: newUnionFile_def listed_node_def)
    have "client_children path me t sts (AList.update (st_Name st) (UFile f) ch) u3 = (ch', u2)"
      using Cons.prems(1) False n by (simp add: path'_def)
    from Cons.IH [OF this listed_update [OF listed_ext [OF Cons.prems(2) p(1)] p(2)]] p(1)
    show ?thesis by (blast intro: prefix_order.trans)
  qed
qed simp

text \<open>The nodes taken over from a bound directory are new too; only they change.\<close>

lemma bound_children_listed:
  assumes "bound_children path me t subs ch u1 = (ch', u2)" "listed u t ch u1"
    "\<And>d. UDir d \<in> snd ` set subs \<Longrightarrow> length (u_dirs u) \<le> d \<and> d < length (u_dirs u1)"
  shows "listed u t ch' u2"
  using assms
proof (induction subs arbitrary: ch u1)
  case (Cons sub subs)
  obtain name n where sub: "sub = (name, n)" by fastforce
  define path' where "path' = filepath_Join path name"
  show ?case
  proof (cases n)
    case (UDir d)
    let ?u = "u1\<lparr>u_dirs := (u_dirs u1)[d := (u_dirs u1 ! d)\<lparr>bn_mount := me, bn_path := path', ud_mountTable := t\<rparr>]\<rparr>"
    have d: "length (u_dirs u) \<le> d" "d < length (u_dirs u1)" using Cons.prems(3) sub UDir by auto
    obtain ds where ds: "u_dirs u1 = u_dirs u @ ds"
      using Cons.prems(2) by (auto simp: listed_def prefix_def)
    have "prefix (u_dirs u) (u_dirs ?u)" using d ds by (simp add: list_update_append)
    moreover have "listed_node u t ?u n'" if "listed_node u t u1 n'" for n'
      using that by (auto simp: listed_node_def nth_update split: fsnode.splits)
    ultimately have "listed u t ch ?u" using Cons.prems(2) by (simp add: listed_def)
    moreover have "listed_node u t ?u n" using d UDir by (simp add: listed_node_def)
    ultimately have l: "listed u t (AList.update name n ch) ?u" by (rule listed_update)
    have b: "bound_children path me t subs (AList.update name n ch) ?u = (ch', u2)"
      using Cons.prems(1) sub UDir by (simp add: path'_def)
    show ?thesis using Cons.IH [OF b l] Cons.prems(3) sub by simp
  next
    case (UFile f)
    let ?u = "u1\<lparr>u_files := (u_files u1)[f := (u_files u1 ! f)\<lparr>bn_mount := me, bn_path := path'\<rparr>]\<rparr>"
    have "listed u t ch ?u" using listed_ext [OF Cons.prems(2), of ?u] by simp
    then have l: "listed u t (AList.update name n ch) ?u"
      by (rule listed_update) (simp add: UFile listed_node_def)
    have b: "bound_children path me t subs (AList.update name n ch) ?u = (ch', u2)"
      using Cons.prems(1) sub UFile by (simp add: path'_def)
    show ?thesis using Cons.IH [OF b l] Cons.prems(3) sub by simp
  qed
qed simp

text \<open>\<open>lists_ok root listing n\<close>: the directories with tables of depth \<open>n\<close> can be listed.\<close>

definition lists_ok :: "nat \<Rightarrow> 'w listing \<Rightarrow> nat \<Rightarrow> bool" where
  "lists_ok root listing n \<longleftrightarrow>
     (\<forall>d u. d < length (u_dirs u) \<longrightarrow> strat root (u_dirs u) n (table d u) \<longrightarrow>
        (\<exists>ch u'. listing d u = Some (ch, u') \<and> listed u (table d u) ch u'))"

lemma lists_okD:
  assumes "lists_ok root listing n" "d < length (u_dirs u)" "strat root (u_dirs u) n (table d u)"
  obtains ch u' where "listing d u = Some (ch, u')" "listed u (table d u) ch u'"
  using assms unfolding lists_ok_def by blast

lemma strat_prefix: "strat root dirs n t \<Longrightarrow> prefix dirs dirs' \<Longrightarrow> strat root dirs' n t"
  using strat_ext [of root dirs n t dirs'] prefix_nth [of dirs dirs'] prefix_length_le [of dirs dirs'] by simp

lemma find_dir_parts_returns:
  assumes "lists_ok root listing n" "d < length (u_dirs u)" "strat root (u_dirs u) n (table d u)"
  shows "\<exists>on u'. find_dir_parts listing parts d u = Some (on, u') \<and> prefix (u_dirs u) (u_dirs u') \<and>
    (\<forall>e. on = Some e \<longrightarrow> e < length (u_dirs u') \<and> table e u' = table d u \<and> (parts \<noteq> [] \<longrightarrow> length (u_dirs u) \<le> e))"
  using assms(2,3)
proof (induction parts arbitrary: d u)
  case (Cons part parts)
  from assms(1) Cons.prems obtain ch u1 where l: "listing d u = Some (ch, u1)" "listed u (table d u) ch u1"
    by (rule lists_okD)
  have p: "prefix (u_dirs u) (u_dirs u1)" using l(2) by (simp add: listed_def)
  show ?case
  proof (cases "\<exists>cd. map_of ch part = Some (UDir cd)")
    case True
    then obtain cd where cd: "map_of ch part = Some (UDir cd)" by blast
    then have "(part, UDir cd) \<in> set ch" by (rule map_of_SomeD)
    then have "listed_node u (table d u) u1 (UDir cd)" using l(2) unfolding listed_def by force
    then have n: "length (u_dirs u) \<le> cd" "cd < length (u_dirs u1)" "table cd u1 = table d u"
      by (simp_all add: listed_node_def)
    have "strat root (u_dirs u1) n (table cd u1)" using strat_prefix [OF Cons.prems(2) p] n(3) by simp
    from Cons.IH [OF n(2) this] obtain on u2
      where f: "find_dir_parts listing parts cd u1 = Some (on, u2)" "prefix (u_dirs u1) (u_dirs u2)"
        "\<forall>e. on = Some e \<longrightarrow> e < length (u_dirs u2) \<and> table e u2 = table cd u1 \<and>
           (parts \<noteq> [] \<longrightarrow> length (u_dirs u1) \<le> e)" by blast
    have "length (u_dirs u) \<le> e" if "on = Some e" for e
    proof (cases "parts = []")
      case True
      then show ?thesis using f(1) that n(1) by simp
    next
      case False
      then show ?thesis using f(3) that prefix_length_le [OF p] by fastforce
    qed
    then show ?thesis
      using l(1) cd f n(3) prefix_order.trans [OF p f(2)] by simp
  next
    case False
    then have "find_dir_parts listing (part # parts) d u = Some (None, u1)"
      using l(1) by (auto split: option.split fsnode.split)
    then show ?thesis using p by simp
  qed
qed simp

lemma find_dir_returns:
  assumes "lists_ok root listing n" "d < length (u_dirs u)" "strat root (u_dirs u) n (table d u)"
  obtains on u' where "find_dir listing rel d u = Some (on, u')" "prefix (u_dirs u) (u_dirs u')"
    "\<And>e. on = Some e \<Longrightarrow> e < length (u_dirs u') \<and> table e u' = table d u"
    "\<And>e. on = Some e \<Longrightarrow> TrimPrefix rel ''/'' \<noteq> [] \<Longrightarrow> length (u_dirs u) \<le> e"
proof (cases "TrimPrefix rel ''/'' = []")
  case True
  then show ?thesis using that [of "Some d" u] assms(2) by (simp add: find_dir_def Let_def)
next
  case False
  from find_dir_parts_returns [OF assms, of "split_on slash (TrimPrefix rel ''/'')"] False
  show ?thesis using that by (auto simp: find_dir_def Let_def)
qed

definition readable :: "'w clients \<Rightarrow> bool" where
  "readable cl \<longleftrightarrow> (\<forall>c rel w. cli_Readdir cl c rel w \<noteq> None)"

text \<open>A bind of the table whose directory can be listed.\<close>

definition bind_lists :: "nat \<Rightarrow> 'w listing \<Rightarrow> unionDir list \<Rightarrow> mountEntry \<Rightarrow> bool" where
  "bind_lists root listing dirs me \<longleftrightarrow>
     (\<forall>dd. me_d me = Some dd \<longrightarrow> dd < length dirs \<and>
        (\<exists>n. lists_ok root listing n \<and> strat root dirs n (ud_mountTable (dirs ! dd))))"

lemma with_w_listed:
  assumes "with_w f u1 = Some (r, u2)"
  shows "u_dirs u2 = u_dirs u1" "u_files u2 = u_files u1"
  using assms by (auto simp: with_w_def split: bind_splits)

lemma bind_children_returns:
  assumes "bind_lists root listing (u_dirs u0) me" "me_d me = Some dd" "listed u0 t ch u"
  shows "\<exists>on u1. find_dir listing rel dd u = Some (on, u1) \<and> listed u0 t ch u1 \<and>
    (\<forall>e. on = Some e \<longrightarrow> (\<exists>subs u2. listing e u1 = Some (subs, u2) \<and>
       listed u0 t (fst (bound_children path me t subs ch u2)) (snd (bound_children path me t subs ch u2))))"
proof -
  have p: "prefix (u_dirs u0) (u_dirs u)" using assms(3) by (simp add: listed_def)
  obtain n where n: "lists_ok root listing n" "dd < length (u_dirs u0)" "strat root (u_dirs u0) n (table dd u0)"
    using assms(1,2) by (auto simp: bind_lists_def)
  have "dd < length (u_dirs u)" "table dd u = table dd u0"
    using n(2) p prefix_nth [OF p n(2)] prefix_length_le [OF p] by simp_all
  moreover from this have "strat root (u_dirs u) n (table dd u)" using strat_prefix [OF n(3) p] by simp
  ultimately obtain on u1 where f: "find_dir listing rel dd u = Some (on, u1)" "prefix (u_dirs u) (u_dirs u1)"
    "\<And>e. on = Some e \<Longrightarrow> e < length (u_dirs u1) \<and> table e u1 = table dd u"
    using find_dir_returns [OF n(1)] by metis
  have l1: "listed u0 t ch u1" by (rule listed_ext [OF assms(3) f(2)])
  moreover have "\<exists>subs u2. listing e u1 = Some (subs, u2) \<and>
       listed u0 t (fst (bound_children path me t subs ch u2)) (snd (bound_children path me t subs ch u2))"
    if "on = Some e" for e
  proof -
    have e: "e < length (u_dirs u1)" "table e u1 = table dd u" using f(3) that by simp_all
    have "strat root (u_dirs u1) n (table e u1)"
      using \<open>strat root (u_dirs u) n (table dd u)\<close> f(2) e(2) by (simp add: strat_prefix)
    from lists_okD [OF n(1) e(1) this] obtain subs u2
      where s: "listing e u1 = Some (subs, u2)" "listed u1 (table e u1) subs u2" by metis
    have "prefix (u_dirs u1) (u_dirs u2)" using s(2) by (simp add: listed_def)
    then have l2: "listed u0 t ch u2" by (rule listed_ext [OF l1])
    have "length (u_dirs u0) \<le> length (u_dirs u1)"
      using l1 by (simp add: listed_def prefix_length_le)
    then have "length (u_dirs u0) \<le> d \<and> d < length (u_dirs u2)" if "UDir d \<in> snd ` set subs" for d
      using s(2) that unfolding listed_def by (force simp: listed_node_def)
    then have "listed u0 t (fst (bound_children path me t subs ch u2)) (snd (bound_children path me t subs ch u2))"
      by (intro bound_children_listed [OF _ l2]) auto
    then show ?thesis using s(1) by blast
  qed
  ultimately show ?thesis using f(1) by blast
qed

lemma list_entries_returns:
  assumes "readable cl" "\<forall>me \<in> set mes. bind_lists root listing (u_dirs u0) me" "listed u0 t ch u"
  shows "\<exists>ch' u'. list_entries cl listing d t mes ch u = Some (ch', u') \<and> listed u0 t ch' u'"
  using assms(2,3)
proof (induction mes arbitrary: ch u)
  case (Cons me mes)
  have IH: "\<exists>ch' u'. list_entries cl listing d t mes ch u = Some (ch', u') \<and> listed u0 t ch' u'"
    if "listed u0 t ch u" for ch u
    using Cons.IH Cons.prems(1) that by simp
  let ?path = "bn_path (u_dirs u ! d)"
  define cur where "cur \<longleftrightarrow> me_c (bn_mount (u_dirs u ! d)) = me_c me \<and> me_d (bn_mount (u_dirs u ! d)) = me_d me \<and>
    me_f (bn_mount (u_dirs u ! d)) = me_f me"
  have fin: "\<exists>ch' u'. (if me_replace me \<and> \<not> cur then Some (ch1, u1) else list_entries cl listing d t mes ch1 u1) =
      Some (ch', u') \<and> listed u0 t ch' u'" if "listed u0 t ch1 u1" for ch1 u1
    using IH [OF that] that by simp
  note eq = list_entries.simps(2) [of cl listing d t me mes ch u, unfolded Let_def, folded cur_def]
  show ?case
  proof (cases "(?path \<noteq> me_mountPoint me \<and> \<not> cur) \<or> filepath_Rel (me_mountPoint me) ?path = None")
    case True
    then show ?thesis using IH [OF Cons.prems(2)] unfolding eq by auto
  next
    case False
    then have "\<not> (?path \<noteq> me_mountPoint me \<and> \<not> cur)" by blast
    note eq = eq [unfolded if_not_P [OF this]]
    from False obtain rel where rel: "filepath_Rel (me_mountPoint me) ?path = Some rel" by blast
    define rel' where "rel' = (if rel = ''.'' then ''/'' else rel)"
    show ?thesis
    proof (cases "me_c me")
      case (Some c)
      have "cli_Readdir cl c rel' (u_w u) \<noteq> None" using assms(1) unfolding readable_def by blast
      then obtain sts u1 where w: "with_w (cli_Readdir cl c rel') u = Some (sts, u1)"
        by (auto simp: with_w_def)
      have l1: "listed u0 t ch u1" using listed_ext [OF Cons.prems(2), of u1] with_w_listed [OF w] by simp
      show ?thesis
      proof (cases sts)
        case (Inl e)
        then show ?thesis using rel Some w IH [OF l1] unfolding eq by (simp add: rel'_def)
      next
        case (Inr sts')
        obtain ch2 u2 where c: "client_children ?path me t sts' ch u1 = (ch2, u2)" by fastforce
        show ?thesis
          using rel Some w Inr c fin [OF conjunct1 [OF client_children_listed [OF c l1]]]
          unfolding eq by (simp add: rel'_def)
      qed
    next
      case None
      show ?thesis
      proof (cases "me_d me")
        case (Some dd)
        have "bind_lists root listing (u_dirs u0) me" using Cons.prems(1) by simp
        from bind_children_returns [OF this Some Cons.prems(2), of rel' ?path] obtain on u1
          where f: "find_dir listing rel' dd u = Some (on, u1)" "listed u0 t ch u1"
            "\<forall>e. on = Some e \<longrightarrow> (\<exists>subs u2. listing e u1 = Some (subs, u2) \<and>
               listed u0 t (fst (bound_children ?path me t subs ch u2)) (snd (bound_children ?path me t subs ch u2)))"
          by blast
        show ?thesis
        proof (cases on)
          case None
          then show ?thesis using rel \<open>me_c me = None\<close> Some f(1) IH [OF f(2)] unfolding eq by (simp add: rel'_def)
        next
          case (Some e)
          then obtain subs u2 where s: "listing e u1 = Some (subs, u2)"
            "listed u0 t (fst (bound_children ?path me t subs ch u2)) (snd (bound_children ?path me t subs ch u2))"
            using f(3) by blast
          obtain ch2 u3 where b: "bound_children ?path me t subs ch u2 = (ch2, u3)" by fastforce
          then have "listed u0 t ch2 u3" using s(2) by simp
          then show ?thesis
            using rel \<open>me_c me = None\<close> \<open>me_d me = Some dd\<close> Some f(1) s(1) b fin [of ch2 u3]
            unfolding eq by (simp add: rel'_def)
        qed
      next
        case None
        then show ?thesis using rel \<open>me_c me = None\<close> fin [OF Cons.prems(2)] unfolding eq by simp
      qed
    qed
  qed
qed auto

lemma Children_returns:
  assumes "readable cl" "\<forall>me \<in> set (table d u). bind_lists root (Children cl) (u_dirs u) me"
  shows "\<exists>ch u'. Children cl d u = Some (ch, u') \<and> listed u (table d u) ch u'"
  using list_entries_returns [OF assms, of "table d u" "[]" u d]
  by (subst Children.simps) (simp add: listed_def Let_def)

lemma Children_lists:
  assumes "readable cl"
  shows "lists_ok root (Children cl) n"
proof (induction n)
  case 0
  show ?case
    unfolding lists_ok_def using Children_returns [OF assms] by (auto simp: bind_lists_def)
next
  case (Suc n)
  show ?case
    unfolding lists_ok_def
  proof (intro allI impI Children_returns [OF assms, of _ _ root] ballI)
    fix d :: nat and u :: "'a ustate" and me
    assume "strat root (u_dirs u) (Suc n) (table d u)" "me \<in> set (table d u)"
    then show "bind_lists root (Children cl) (u_dirs u) me" using Suc unfolding bind_lists_def by auto
  qed
qed

section \<open>Runs of a union\<close>

text \<open>
  The program mounts, binds and unmounts, the server looks directories up, and the clients change the
  state of the world. Directories are bound, but never the root itself.
\<close>

inductive union_step :: "'w clients \<Rightarrow> nat \<Rightarrow> 'w ustate \<Rightarrow> 'w ustate \<Rightarrow> bool" for cl root where
  mount: "Mount (Some root) c old option create u = (e, u') \<Longrightarrow> union_step cl root u u'"
| bind: "TrimPrefix path ''/'' \<noteq> [] \<Longrightarrow> Bind cl (Some root) path old option create u = Some (e, u') \<Longrightarrow>
    union_step cl root u u'"
| unmount_point: "UnmountPoint (Some root) old u = (r, u') \<Longrightarrow> union_step cl root u u'"
| unmount_client: "UnmountClient (Some root) c old u = (e, u') \<Longrightarrow> union_step cl root u u'"
| unmount_bind: "UnmountBind (Some root) path old u = (e, u') \<Longrightarrow> union_step cl root u u'"
| lookup: "findDir cl path root u = Some (r, u') \<Longrightarrow> union_step cl root u u'"
| clients: "union_step cl root u (u\<lparr>u_w := w\<rparr>)"

definition union_ok :: "nat \<Rightarrow> 'w ustate \<Rightarrow> bool" where
  "union_ok root u \<longleftrightarrow> root < length (u_dirs u) \<and> (\<exists>n. strat root (u_dirs u) n (table root u))"

text \<open>A change of the root's table.\<close>

lemma strat_set_table: "strat root (u_dirs u) n t \<Longrightarrow> strat root (u_dirs (set_table root t' u)) n t"
  by (rule strat_ext) simp_all

lemma union_ok_table:
  assumes "root < length (u_dirs u)" "strat root (u_dirs u) n t"
  shows "union_ok root (set_table root t u)"
  using strat_set_table [OF assms(2), of t] assms(1) by (auto simp: union_ok_def)

lemma union_ok_filter:
  assumes "union_ok root u" "set t \<subseteq> set (table root u)"
  shows "union_ok root (set_table root t u)"
proof -
  obtain n where "root < length (u_dirs u)" "strat root (u_dirs u) n (table root u)"
    using assms(1) by (auto simp: union_ok_def)
  then show ?thesis using strat_subset [OF _ assms(2)] by (blast intro: union_ok_table)
qed

lemma union_ok_prefix:
  assumes "union_ok root u" "prefix (u_dirs u) (u_dirs u')"
  shows "union_ok root u'"
  using assms strat_prefix [OF _ assms(2)] prefix_nth [OF assms(2), of root] prefix_length_le [OF assms(2)]
  by (auto simp: union_ok_def)

lemma strat_client:
  assumes "me_d me = None" "strat root dirs n t" "set t' \<subseteq> insert me (set t)"
  shows "strat root dirs n t'"
proof (cases n)
  case 0
  then show ?thesis using assms by auto
next
  case (Suc m)
  show ?thesis unfolding Suc strat.simps
  proof (intro ballI allI impI)
    fix me' dd assume "me' \<in> set t'" "me_d me' = Some dd"
    then have "me' \<in> set t" using assms(1,3) by auto
    then show "dd \<noteq> root \<and> dd < length dirs \<and> strat root dirs m (ud_mountTable (dirs ! dd))"
      using assms(2) \<open>me_d me' = Some dd\<close> unfolding Suc strat.simps by blast
  qed
qed

lemma strat_bind:
  assumes "me_d me = Some d" "d \<noteq> root" "d < length dirs" "strat root dirs n (ud_mountTable (dirs ! d))"
    "strat root dirs n t" "set t' \<subseteq> insert me (set t)"
  shows "strat root dirs (Suc n) t'"
  unfolding strat.simps
proof (intro ballI allI impI)
  fix me' dd assume "me' \<in> set t'" "me_d me' = Some dd"
  then show "dd \<noteq> root \<and> dd < length dirs \<and> strat root dirs n (ud_mountTable (dirs ! dd))"
    using assms strat_Suc [OF assms(5)] by (cases "me' = me") auto
qed

lemma findDir_ok:
  assumes "readable cl" "union_ok root u"
  shows "\<exists>on u'. findDir cl path root u = Some (on, u') \<and> prefix (u_dirs u) (u_dirs u') \<and>
    (\<forall>e. on = Some e \<longrightarrow> e < length (u_dirs u') \<and> table e u' = table root u \<and>
       (TrimPrefix path ''/'' \<noteq> [] \<longrightarrow> length (u_dirs u) \<le> e))"
proof -
  obtain n where n: "root < length (u_dirs u)" "strat root (u_dirs u) n (table root u)"
    using assms(2) by (auto simp: union_ok_def)
  show ?thesis
    unfolding findDir_def by (rule find_dir_returns [OF Children_lists [OF assms(1)] n, of path]) blast
qed

lemma unmount_loop_eq:
  "unmount_loop old mes cs t =
     (cs @ map (the \<circ> me_c) (filter (\<lambda>me. me_mountPoint me = old \<and> me_c me \<noteq> None) mes),
      t @ filter (\<lambda>me. me_mountPoint me \<noteq> old) mes)"
  by (induction old mes cs t rule: unmount_loop.induct) (auto split: option.split)

text \<open>What a mount or a bind does to the table, whatever the option.\<close>

lemma Mount_table:
  assumes "Mount (Some root) c old option create u = (e, u')"
  obtains "u' = u"
  | me t where "u' = set_table root t u" "set t = insert me (set (table root u))" "me_d me = None"
  using assms by (auto simp: Mount_def Let_def split: if_splits)

lemma Bind_table:
  assumes "Bind cl (Some root) path old option create u = Some (e, u')" "findDir cl path root u = Some (on, u1)"
  obtains "u' = u1"
  | d me t where "on = Some d" "u' = set_table root t u1" "set t = insert me (set (table root u1))" "me_d me = Some d"
  using assms by (auto simp: Bind_def Let_def split: if_splits option.splits)

lemma Mount_ok:
  assumes "Mount (Some root) c old option create u = (e, u')" "union_ok root u"
  shows "union_ok root u'"
proof -
  obtain n where n: "root < length (u_dirs u)" "strat root (u_dirs u) n (table root u)"
    using assms(2) by (auto simp: union_ok_def)
  from assms(1) show ?thesis
  proof (cases rule: Mount_table)
    case 1
    then show ?thesis using assms(2) by simp
  next
    case (2 me t)
    have "strat root (u_dirs u) n t" by (rule strat_client [OF 2(3) n(2)]) (simp add: 2(2))
    then show ?thesis using union_ok_table [OF n(1)] 2(1) by simp
  qed
qed

lemma Bind_ok:
  assumes "Bind cl (Some root) path old option create u = Some (e, u')" "TrimPrefix path ''/'' \<noteq> []"
    "readable cl" "union_ok root u"
  shows "union_ok root u'"
proof -
  obtain n where n: "root < length (u_dirs u)" "strat root (u_dirs u) n (table root u)"
    using assms(4) by (auto simp: union_ok_def)
  obtain on u1 where f: "findDir cl path root u = Some (on, u1)" "prefix (u_dirs u) (u_dirs u1)"
    "\<And>e. on = Some e \<Longrightarrow> e < length (u_dirs u1) \<and> table e u1 = table root u \<and> length (u_dirs u) \<le> e"
    using findDir_ok [OF assms(3,4), of path] assms(2) by blast
  have u1: "union_ok root u1" "root < length (u_dirs u1)" "table root u1 = table root u"
    using union_ok_prefix [OF assms(4) f(2)] prefix_nth [OF f(2) n(1)] prefix_length_le [OF f(2)] n(1) by simp_all
  have s: "strat root (u_dirs u1) n (table root u)" by (rule strat_prefix [OF n(2) f(2)])
  from assms(1) f(1) show ?thesis
  proof (cases rule: Bind_table)
    case 1
    then show ?thesis using u1(1) by simp
  next
    case (2 d me t)
    have d: "d < length (u_dirs u1)" "table d u1 = table root u" "d \<noteq> root" using f(3) [OF 2(1)] n(1) by auto
    have "strat root (u_dirs u1) (Suc n) t"
      by (rule strat_bind [OF 2(4) d(3,1) _ s]) (simp_all add: d(2) s 2(3) u1(3))
    then show ?thesis unfolding 2(2) by (rule union_ok_table [OF u1(2)])
  qed
qed

lemma union_step_ok:
  assumes "union_step cl root u u'" "readable cl" "union_ok root u"
  shows "union_ok root u'"
  using assms(1)
proof cases
  case (mount c old option create e)
  then show ?thesis using Mount_ok assms(3) by blast
next
  case (bind path old option create e)
  then show ?thesis using Bind_ok assms(2,3) by blast
next
  case (unmount_point old r)
  then show ?thesis using union_ok_filter [OF assms(3)] by (auto simp: UnmountPoint_def unmount_loop_eq)
next
  case (unmount_client c old e)
  then show ?thesis using union_ok_filter [OF assms(3)] by (auto simp: UnmountClient_def)
next
  case (unmount_bind path old e)
  then show ?thesis using union_ok_filter [OF assms(3)] by (auto simp: UnmountBind_def)
next
  case (lookup path r)
  then have "prefix (u_dirs u) (u_dirs u')" using findDir_ok [OF assms(2,3), of path] by auto
  then show ?thesis by (rule union_ok_prefix [OF assms(3)])
next
  case (clients w)
  then show ?thesis using assms(3) by (simp add: union_ok_def)
qed

lemma union_run_ok:
  assumes "(union_step cl root)\<^sup>*\<^sup>* u0 u" "NewUnionFS w = (root, u0)" "readable cl"
  shows "union_ok root u"
  using assms(1)
proof (induction rule: rtranclp_induct)
  case base
  have "root = 0" "table root u0 = []" "0 < length (u_dirs u0)"
    using assms(2) by (auto simp: NewUnionFS_def newUnionDir_def)
  then show ?case unfolding union_ok_def by (auto intro: exI [of _ 0])
next
  case (step u1 u2)
  then show ?case using union_step_ok assms(3) by blast
qed

section \<open>A listing that never ends\<close>

text \<open>A directory whose table starts with a bind to itself, at its own path, cannot be listed.\<close>

lemma self_bind_diverges:
  assumes "bn_path (u_dirs u ! d) = ''/''"
    "table d u = me # mes" "me_c me = None" "me_d me = Some d" "me_mountPoint me = ''/''"
  shows "Children cl d u = None"
proof -
  define loops where "loops = (\<lambda>d (u :: 'a ustate). bn_path (u_dirs u ! d) = ''/'' \<and>
    (\<exists>me mes. table d u = me # mes \<and> me_c me = None \<and> me_d me = Some d \<and> me_mountPoint me = ''/''))"
  have rel: "filepath_Rel ''/'' ''/'' = Some ''.''" by (simp add: filepath_Rel_def)
  have "\<not> loops d u" if "Children cl d u = Some r" for d u r
  proof (rule Children.raw_induct [where P = "\<lambda>cl d u r. \<not> loops d u", OF _ that])
    fix listing and cl :: "'a clients" and d r and u :: "'a ustate"
    assume IH: "\<And>cl d u r. listing cl d u = Some r \<Longrightarrow> \<not> loops d u"
      and eq: "(let mountTable = table d u in list_entries cl (\<lambda>d u. listing cl d u) d mountTable mountTable [] u) = Some r"
    show "\<not> loops d u"
    proof
      assume l: "loops d u"
      then obtain me mes where "bn_path (u_dirs u ! d) = ''/''" "table d u = me # mes" "me_c me = None"
        "me_d me = Some d" "me_mountPoint me = ''/''" unfolding loops_def by blast
      then have "listing cl d u \<noteq> None"
        using eq rel by (auto simp: Let_def find_dir_def TrimPrefix_def split: bind_splits)
      then show False using IH l by blast
    qed
  qed
  then have "\<not> loops d u" if "Children cl d u \<noteq> None" using that by blast
  moreover have "loops d u" unfolding loops_def using assms by blast
  ultimately show ?thesis by blast
qed

end
