(* ===== verification/Union_Owner.thy ===== *)
theory Union_Owner
  imports Union_Props
begin

text \<open>
  Which mount a name of a listing comes from, for a directory of union/union.go over clients.
\<close>

text \<open>The nodes of a listing exist.\<close>

definition in_store :: "'w ustate \<Rightarrow> fsnode \<Rightarrow> bool" where
  "in_store u n = (case n of UDir d \<Rightarrow> d < length (u_dirs u) | UFile f \<Rightarrow> f < length (u_files u))"

definition node_base :: "'w ustate \<Rightarrow> fsnode \<Rightarrow> baseUnionNode" where
  "node_base u n =
     (case n of
        UDir d \<Rightarrow> baseUnionNode.truncate (u_dirs u ! d)
      | UFile f \<Rightarrow> baseUnionNode.truncate (u_files u ! f))"

text \<open>The mount and the path of the node with a name.\<close>

definition owner :: "(string \<times> fsnode) list \<Rightarrow> 'w ustate \<Rightarrow> string \<Rightarrow> (mountEntry \<times> string) option" where
  "owner ch u name = map_option (\<lambda>n. (bn_mount (node_base u n), bn_path (node_base u n))) (map_of ch name)"

text \<open>The mounts a listing shows: those at its path, up to the first that replaces.\<close>

fun visible :: "string \<Rightarrow> mountEntry list \<Rightarrow> mountEntry list" where
  "visible path [] = []"
| "visible path (me # mes) =
     (if me_mountPoint me \<noteq> path then visible path mes
      else if me_replace me then [me]
      else me # visible path mes)"

definition store_grows :: "'w ustate \<Rightarrow> 'w ustate \<Rightarrow> bool" where
  "store_grows u u' \<longleftrightarrow> prefix (u_dirs u) (u_dirs u') \<and> prefix (u_files u) (u_files u')"

lemma store_grows_refl [simp]: "store_grows u u" by (simp add: store_grows_def)

lemma store_grows_trans: "store_grows u u' \<Longrightarrow> store_grows u' u'' \<Longrightarrow> store_grows u u''"
  unfolding store_grows_def by (blast intro: prefix_order.trans)

lemma store_grows_node: "store_grows u u' \<Longrightarrow> in_store u n \<Longrightarrow> in_store u' n \<and> node_base u' n = node_base u n"
  using prefix_nth [of "u_dirs u" "u_dirs u'"] prefix_nth [of "u_files u" "u_files u'"]
    prefix_length_le [of "u_dirs u" "u_dirs u'"] prefix_length_le [of "u_files u" "u_files u'"]
  by (auto simp: store_grows_def in_store_def node_base_def split: fsnode.splits)

lemma new_nodes:
  "newUnionDir path me t u = (d, u') \<Longrightarrow>
     store_grows u u' \<and> in_store u' (UDir d) \<and> bn_mount (node_base u' (UDir d)) = me \<and> bn_path (node_base u' (UDir d)) = path"
  "newUnionFile path me u = (f, u') \<Longrightarrow>
     store_grows u u' \<and> in_store u' (UFile f) \<and> bn_mount (node_base u' (UFile f)) = me \<and> bn_path (node_base u' (UFile f)) = path"
  by (auto simp: newUnionDir_def newUnionFile_def store_grows_def in_store_def node_base_def baseUnionNode.defs)

definition stored :: "(string \<times> fsnode) list \<Rightarrow> 'w ustate \<Rightarrow> bool" where
  "stored ch u \<longleftrightarrow> (\<forall>name n. map_of ch name = Some n \<longrightarrow> in_store u n)"

lemma stored_store_grows: "stored ch u \<Longrightarrow> store_grows u u' \<Longrightarrow> stored ch u' \<and> owner ch u' name = owner ch u name"
  using store_grows_node [of u u'] unfolding stored_def owner_def by (cases "map_of ch name") auto

lemma stored_update:
  assumes "stored ch u" "store_grows u u'" "in_store u' n"
  shows "stored (AList.update k n ch) u'"
    "owner (AList.update k n ch) u' name =
       (if name = k then Some (bn_mount (node_base u' n), bn_path (node_base u' n)) else owner ch u name)"
  using assms stored_store_grows [OF assms(1,2), of name] unfolding stored_def
  by (auto simp: update_conv' owner_def)

lemma client_children_owner:
  assumes "client_children path me t sts ch u = (ch', u')" "stored ch u"
  shows "stored ch' u' \<and> store_grows u u' \<and>
    owner ch' u' name = (if name \<in> st_Name ` set sts then Some (me, filepath_Join path name) else owner ch u name)"
  using assms
proof (induction sts arbitrary: ch u)
  case (Cons st sts)
  define path' where "path' = filepath_Join path (st_Name st)"
  obtain n u1 where n: "store_grows u u1" "in_store u1 n" "bn_mount (node_base u1 n) = me" "bn_path (node_base u1 n) = path'"
    "client_children path me t sts (AList.update (st_Name st) n ch) u1 = (ch', u')"
  proof (cases "st_Mode st AND DMDIR \<noteq> 0")
    case True
    obtain d u1 where d: "newUnionDir path' me t u = (d, u1)" by fastforce
    show ?thesis using that [of u1 "UDir d"] new_nodes(1) [OF d] d True Cons.prems(1) by (simp add: path'_def)
  next
    case False
    obtain f u1 where f: "newUnionFile path' me u = (f, u1)" by fastforce
    show ?thesis using that [of u1 "UFile f"] new_nodes(2) [OF f] f False Cons.prems(1) by (simp add: path'_def)
  qed
  note up = stored_update [OF Cons.prems(2) n(1,2), of "st_Name st"]
  from Cons.IH [OF n(5) up(1)] up(2) [of name] n(3,4) store_grows_trans [OF n(1)]
  show ?case by (auto simp: path'_def)
qed simp

text \<open>What client \<open>c\<close> has in its root, read without an error and without changing the world.\<close>

definition reads_root :: "'w clients \<Rightarrow> (nat \<Rightarrow> Stat list) \<Rightarrow> bool" where
  "reads_root cl ls \<longleftrightarrow> (\<forall>c w. cli_Readdir cl c ''/'' w = Some (Inr (ls c), w))"

definition has_name :: "(nat \<Rightarrow> Stat list) \<Rightarrow> string \<Rightarrow> mountEntry \<Rightarrow> bool" where
  "has_name ls name me \<longleftrightarrow> name \<in> st_Name ` set (ls (the (me_c me)))"

text \<open>A step of the listing of a directory that is no mount itself, over a client.\<close>

lemma list_entries_client:
  assumes "bn_mount (u_dirs u ! d) = no_mount" "me_c me = Some c" "reads_root cl ls"
  shows "list_entries cl listing d t (me # mes) ch u =
    (if me_mountPoint me \<noteq> bn_path (u_dirs u ! d) then list_entries cl listing d t mes ch u
     else (let (ch1, u1) = client_children (bn_path (u_dirs u ! d)) me t (ls c) ch u
           in if me_replace me then Some (ch1, u1) else list_entries cl listing d t mes ch1 u1))"
proof -
  have "filepath_Rel p p = Some ''.''" for p by (simp add: filepath_Rel_def)
  then show ?thesis using assms by (auto simp: Let_def no_mount_def reads_root_def with_w_def split: prod.split)
qed

lemma find_append: "List.find P (xs @ ys) = (case List.find P xs of None \<Rightarrow> List.find P ys | Some x \<Rightarrow> Some x)"
  by (induction xs) auto

lemma list_entries_owner:
  assumes "d < length (u_dirs u)" "bn_mount (u_dirs u ! d) = no_mount" "bn_path (u_dirs u ! d) = path"
    "\<forall>me \<in> set mes. me_c me \<noteq> None" "reads_root cl ls" "stored ch u"
  shows "\<exists>ch' u'. list_entries cl listing d t mes ch u = Some (ch', u') \<and>
    (\<forall>name. owner ch' u' name =
       (case List.find (has_name ls name) (rev (visible path mes)) of
          None \<Rightarrow> owner ch u name
        | Some me \<Rightarrow> Some (me, filepath_Join path name)))"
  using assms
proof (induction mes arbitrary: ch u)
  case (Cons me mes)
  from Cons.prems(4) obtain c where c: "me_c me = Some c" by auto
  note eq = list_entries_client [OF Cons.prems(2) c Cons.prems(5), unfolded Cons.prems(3)]
  show ?case
  proof (cases "me_mountPoint me = path")
    case True
    obtain ch1 u1 where cc: "client_children path me t (ls c) ch u = (ch1, u1)" by fastforce
    note o = client_children_owner [OF cc Cons.prems(6)]
    then have g: "prefix (u_dirs u) (u_dirs u1)" by (simp add: store_grows_def)
    then have d: "d < length (u_dirs u1)" "u_dirs u1 ! d = u_dirs u ! d"
      using Cons.prems(1) prefix_nth [OF g] prefix_length_le [OF g] by simp_all
    show ?thesis
    proof (cases "me_replace me")
      case True
      then show ?thesis using eq cc o \<open>me_mountPoint me = path\<close> c by (simp add: has_name_def)
    next
      case False
      have "bn_mount (u_dirs u1 ! d) = no_mount" "bn_path (u_dirs u1 ! d) = path" "\<forall>me \<in> set mes. me_c me \<noteq> None"
        using Cons.prems d(2) by simp_all
      from Cons.IH [OF d(1) this Cons.prems(5) conjunct1 [OF o]] obtain ch' u'
        where r: "list_entries cl listing d t mes ch1 u1 = Some (ch', u')"
          "\<forall>name. owner ch' u' name =
             (case List.find (has_name ls name) (rev (visible path mes)) of
                None \<Rightarrow> owner ch1 u1 name
              | Some me \<Rightarrow> Some (me, filepath_Join path name))"
        by blast
      have v: "visible path (me # mes) = me # visible path mes" using True False by simp
      have "owner ch' u' name =
          (case List.find (has_name ls name) (rev (visible path (me # mes))) of
             None \<Rightarrow> owner ch u name
           | Some me \<Rightarrow> Some (me, filepath_Join path name))" for name
        using r(2) o [of name] c unfolding v
        by (cases "List.find (has_name ls name) (rev (visible path mes))") (simp_all add: find_append has_name_def)
      moreover have "list_entries cl listing d t (me # mes) ch u = Some (ch', u')"
        unfolding eq using True False cc r(1) by simp
      ultimately show ?thesis by blast
    qed
  next
    case False
    then show ?thesis using eq Cons.IH [OF Cons.prems(1-3) _ Cons.prems(5,6)] Cons.prems(4) by simp
  qed
qed simp

end
