(* ===== verification/Union_Claims.thy ===== *)
theory Union_Claims
  imports Union_Owner
begin

text \<open>
  Properties of the union file system of union/union.go: that its listings end, which mount a name
  comes from, and that unmounting undoes mounting.
\<close>

text \<open>
  C19: Directories of a union can always be listed and searched: after any sequence of mounts, binds of
  directories other than the root, unmounts, lookups and changes behind the clients, \<open>Children\<close> of the
  root returns, and \<open>findDir\<close> returns for every path, as long as the clients answer; neither changes a
  directory that was there before.
\<close>

theorem union_listing_ends:
  assumes "NewUnionFS w = (root, u0)" "(union_step cl root)\<^sup>*\<^sup>* u0 u" "readable cl"
  shows "(\<exists>ch u'. Children cl root u = Some (ch, u') \<and> prefix (u_dirs u) (u_dirs u')) \<and>
    (\<forall>path. \<exists>on u'. findDir cl path root u = Some (on, u') \<and> prefix (u_dirs u) (u_dirs u'))"
proof -
  have ok: "union_ok root u" by (rule union_run_ok [OF assms(2,1,3)])
  then obtain n where "root < length (u_dirs u)" "strat root (u_dirs u) n (table root u)"
    by (auto simp: union_ok_def)
  with Children_lists [OF assms(3)] obtain ch u' where "Children cl root u = Some (ch, u')"
    "listed u (table root u) ch u'" by (rule lists_okD)
  then have "\<exists>ch u'. Children cl root u = Some (ch, u') \<and> prefix (u_dirs u) (u_dirs u')"
    by (simp add: listed_def)
  moreover have "\<exists>on u'. findDir cl path root u = Some (on, u') \<and> prefix (u_dirs u) (u_dirs u')" for path
    using findDir_ok [OF assms(3) ok, of path] by blast
  ultimately show ?thesis by blast
qed

text \<open>
  The clients of the examples: client 0 has a directory \<open>a\<close>, client 1 a file \<open>a\<close> and a file \<open>b\<close>; every
  other operation fails.
\<close>

definition sample_stat :: "string \<Rightarrow> u32 \<Rightarrow> Stat" where
  "sample_stat name mode = zero_stat\<lparr>st_Name := name, st_Mode := mode\<rparr>"

definition sample_ls :: "nat \<Rightarrow> Stat list" where
  "sample_ls c = (if c = 0 then [sample_stat ''a'' DMDIR] else [sample_stat ''a'' 0, sample_stat ''b'' 0])"

definition sample_clients :: "unit clients" where
  "sample_clients =
     \<lparr>cli_Readdir = (\<lambda>c rel w. Some (Inr (sample_ls c), w)),
      cli_Stat = (\<lambda>c path w. Some (Inl EOF, w)),
      cli_WStat = (\<lambda>c path st w. Some (Some EOF, w)),
      cli_Create = (\<lambda>c name perm w. Some (Inl EOF, w)),
      cli_Open = (\<lambda>c path mode w. Some (Inl EOF, w)),
      cli_Remove = (\<lambda>c path w. Some (Some EOF, w)),
      file_ReadAt = (\<lambda>c n off f w. Some (Inl EOF, f, w)),
      file_WriteAt = (\<lambda>c b off f w. Some ((0, Some EOF), w)),
      file_Close = (\<lambda>c f w. Some (None, w))\<rparr>"

lemma sample_readable: "readable sample_clients" "reads_root sample_clients sample_ls"
  by (simp_all add: readable_def reads_root_def sample_clients_def)

definition sample_mounted :: "unit ustate" where
  "sample_mounted = snd (Mount (Some 0) 0 ''/'' AFTER False (snd (NewUnionFS ())))"

lemma sample_listing:
  "Children sample_clients 0 sample_mounted =
     (let me = hd (table 0 sample_mounted); (d, u) = newUnionDir ''/a'' me [me] sample_mounted
      in Some ([(''a'', UDir d)], u))"
proof -
  have "filepath_Join ''/'' ''a'' = ''/a''" by code_simp
  then show ?thesis
    by (subst Children.simps)
      (simp add: sample_clients_def sample_ls_def sample_stat_def sample_mounted_def Mount_def NewUnionFS_def
        newUnionDir_def Let_def no_mount_def with_w_def filepath_Rel_def)
qed

theorem union_listing_ends_witness:
  "\<exists>u. Bind sample_clients (Some 0) ''/a'' ''/'' AFTER False sample_mounted = Some (None, u) \<and>
    Children sample_clients 0 u \<noteq> None"
proof -
  let ?b = "Bind sample_clients (Some 0) ''/a'' ''/'' AFTER False sample_mounted"
  let ?u = "snd (the ?b)"
  have b: "?b = Some (None, ?u)"
    by (simp add: Bind_def findDir_def find_dir_def TrimPrefix_def split_on.simps sample_listing Let_def newUnionDir_def)
  have "union_step sample_clients 0 (snd (NewUnionFS ())) sample_mounted"
    unfolding sample_mounted_def by (rule union_step.mount [of 0 0 "''/''" AFTER False _ None]) (simp add: Mount_def)
  moreover have "union_step sample_clients 0 sample_mounted ?u"
    by (rule union_step.bind [OF _ b]) (simp add: TrimPrefix_def)
  ultimately have "(union_step sample_clients 0)\<^sup>*\<^sup>* (snd (NewUnionFS ())) ?u" by simp
  from union_listing_ends [OF _ this sample_readable(1), of "()"]
  have "Children sample_clients 0 ?u \<noteq> None" by (auto simp: NewUnionFS_def newUnionDir_def)
  then show ?thesis using b by blast
qed



text \<open>
  C21: Unmounting undoes mounting. After a client has been mounted, with any option, at a place where it
  was not mounted before, \<open>UnmountClient\<close> restores the union as it was; if nothing was mounted at the
  place, \<open>UnmountPoint\<close> restores it too and returns just that client.
\<close>

theorem unmount_undoes_mount:
  assumes "Mount (Some root) c old option create u = (None, u')" "root < length (u_dirs u)"
    "\<forall>me \<in> set (table root u). me_mountPoint me = old \<longrightarrow> me_c me \<noteq> Some c"
  shows "UnmountClient (Some root) c old u' = (None, u) \<and>
    ((\<forall>me \<in> set (table root u). me_mountPoint me \<noteq> old) \<longrightarrow> UnmountPoint (Some root) old u' = (([c], None), u))"
proof -
  have "filter (\<lambda>me. me_mountPoint me \<noteq> old \<or> me_c me \<noteq> Some c) (table root u) = table root u"
    using assms(3) by (auto simp: filter_id_conv)
  moreover have "filter (\<lambda>me. me_mountPoint me \<noteq> old) (table root u) = table root u \<and>
      filter (\<lambda>me. me_mountPoint me = old \<and> me_c me \<noteq> None) (table root u) = []"
    if "\<forall>me \<in> set (table root u). me_mountPoint me \<noteq> old"
    using that by (auto simp: filter_id_conv filter_empty_conv)
  ultimately show ?thesis
    using assms(1,2)
    by (auto simp: Mount_def Let_def UnmountClient_def UnmountPoint_def unmount_loop_eq split: if_splits)
qed

theorem unmount_undoes_mount_witness:
  "UnmountClient (Some 0) 1 ''/'' (snd (Mount (Some 0) 1 ''/'' REPLACE True sample_mounted)) = (None, sample_mounted)"
  using unmount_undoes_mount [of 0 1 "''/''" REPLACE True sample_mounted]
  by (simp add: sample_mounted_def Mount_def NewUnionFS_def newUnionDir_def)

text \<open>
  Binding the root to itself makes every listing of the root recurse without end.
\<close>

theorem root_bound_to_itself_hangs:
  assumes "NewUnionFS w = (root, u0)" "Bind cl (Some root) ''/'' ''/'' option create u0 = Some (None, u)"
  shows "Children cl root u = None"
proof -
  have "findDir cl ''/'' root u0 = Some (Some root, u0)" by (simp add: findDir_def find_dir_def TrimPrefix_def)
  then have "bn_path (u_dirs u ! root) = ''/'' \<and>
      (\<exists>me. table root u = [me] \<and> me_c me = None \<and> me_d me = Some root \<and> me_mountPoint me = ''/'')"
    using assms by (auto simp: Bind_def NewUnionFS_def newUnionDir_def Let_def split: if_splits)
  then show ?thesis using self_bind_diverges by blast
qed

end
