(* ===== verification/Go_Crc.thy ===== *)
theory Go_Crc
  imports Go_Prelude
begin

text \<open>
  \<^verbatim>\<open>crc64.Checksum\<close> of Go's package hash/crc64 with the table for the polynomial
  \<^verbatim>\<open>0xC96C5795D7870F42\<close>, which numbers the files of fs/real and the inodes of cmd/mount9p after
  their paths.
\<close>

unbundle bit_operations_syntax

definition crc64_shift :: "u64 \<Rightarrow> u64" where
  "crc64_shift crc = (if crc AND 1 = 1 then drop_bit 1 crc XOR 0xC96C5795D7870F42 else drop_bit 1 crc)"

text \<open>The entry of the table for a byte.\<close>

definition crc64_entry :: "u64 \<Rightarrow> u64" where
  "crc64_entry i = (crc64_shift ^^ 8) i"

definition crc64_byte :: "u64 \<Rightarrow> u8 \<Rightarrow> u64" where
  "crc64_byte crc v = crc64_entry ((crc XOR ucast v) AND 0xFF) XOR drop_bit 8 crc"

definition crc64 :: "string \<Rightarrow> u64" where
  "crc64 s = NOT (foldl crc64_byte (NOT 0) (bytes_of_string s))"

end
