(* ===== verification/Mount9p.thy ===== *)
theory Mount9p
  imports Union Go_Crc
begin

text \<open>
  The FUSE file system of cmd/mount9p/main.go, which shows a 9P server as a directory of the operating
  system: the operations go-fuse calls on directories, file nodes and open files, with the cache of
  directory listings, and the search for unused user ids of cmd/mount9p/users.go.

  Directories are objects, addressed by their position in \<open>m_dirs\<close>; the first is the one inside the
  \<^verbatim>\<open>StatDir\<close> that \<^verbatim>\<open>main\<close> mounts. The client is the record of operations of the theory Union.
  A time is the number of nanoseconds since the zero time of Go, and \<open>clk k\<close> is what the \<open>k\<close>th
  call of \<^verbatim>\<open>time.Now\<close> in the text of a method returns. An inode go-fuse makes is the node it is
  made for and its number, the CRC-64 of its path. An operation is
  \<^const>\<open>None\<close> when it panics or does not return. go-fuse may run operations at the same time; here
  each of them is one step.
\<close>

section \<open>Data\<close>

datatype errno = EINVAL | ENOENT | EACCES | EPIPE

record config =
  cf_CacheTTL :: int
  cf_ncTTL :: u64
  cf_unknownUID :: u32
  cf_unknownGID :: u32
  cf_authUser :: string
  cf_sysUser :: u32
  cf_sysGroup :: u32
  cf_dio :: bool

record attr_out =
  ao_AttrValid :: u64
  ao_Nlink :: u32
  ao_Ino :: u64
  ao_Mode :: u32
  ao_Size :: u64
  ao_Mtime :: u64
  ao_Uid :: u32
  ao_Gid :: u32

record entry_out = attr_out +
  eo_EntryValid :: u64

text \<open>The request to change attributes; \<open>si_GetMode\<close> and \<open>si_GetSize\<close> are the values that are valid.\<close>

record setattr_in =
  si_Mode :: u32
  si_Size :: u64
  si_GetMode :: "u32 option"
  si_GetSize :: "u64 option"

record fuse_Dir =
  fd_client :: nat
  fd_path :: string
  fd_statCache :: "Stat option"
  fd_statTTL :: int
  fd_dirCache :: "Stat list option"
  fd_dirTTL :: int

record FileNode =
  fn_client :: nat
  fn_path :: string

record fuse_File =
  ff_file :: File
  ff_node :: FileNode

datatype inode = Dir_Inode nat u64 | File_Inode FileNode u64

datatype embedder = E_Dir nat | E_StatDir nat | E_FileNode FileNode

record 'w mount =
  m_dirs :: "fuse_Dir list"
  m_cache :: "string \<rightharpoonup> nat"
  m_w :: 'w

abbreviation (input) S_IFDIR :: u32 where "S_IFDIR \<equiv> 0x4000"
abbreviation (input) FOPEN_DIRECT_IO :: u32 where "FOPEN_DIRECT_IO \<equiv> 1"
abbreviation (input) zero_time :: int where "zero_time \<equiv> 0"

definition uidForUser :: "config \<Rightarrow> string \<Rightarrow> u32" where
  "uidForUser cf uid = (if uid = cf_authUser cf then cf_sysUser cf else cf_unknownUID cf)"

definition gidForGroup :: "config \<Rightarrow> string \<Rightarrow> u32" where
  "gidForGroup cf gid = (if gid = cf_authUser cf then cf_sysGroup cf else cf_unknownGID cf)"

definition dirGet :: "string \<Rightarrow> 'w mount \<Rightarrow> nat option" where
  "dirGet path m = m_cache m path"

definition dirPut :: "string \<Rightarrow> nat \<Rightarrow> 'w mount \<Rightarrow> 'w mount" where
  "dirPut path d m = m\<lparr>m_cache := (m_cache m)(path \<mapsto> d)\<rparr>"

definition new_Dir :: "nat \<Rightarrow> string \<Rightarrow> 'w mount \<Rightarrow> nat \<times> 'w mount" where
  "new_Dir c path m =
     (length (m_dirs m),
      m\<lparr>m_dirs := m_dirs m @
         [\<lparr>fd_client = c, fd_path = path, fd_statCache = None, fd_statTTL = zero_time,
           fd_dirCache = None, fd_dirTTL = zero_time\<rparr>]\<rparr>)"

definition new_root :: "nat \<Rightarrow> 'w \<Rightarrow> 'w mount" where
  "new_root c w = snd (new_Dir c ''/'' \<lparr>m_dirs = [], m_cache = Map.empty, m_w = w\<rparr>)"

abbreviation set_dir :: "nat \<Rightarrow> fuse_Dir \<Rightarrow> 'w mount \<Rightarrow> 'w mount" where
  "set_dir d r m \<equiv> m\<lparr>m_dirs := (m_dirs m)[d := r]\<rparr>"

definition with_mw :: "('w \<Rightarrow> ('a \<times> 'w) option) \<Rightarrow> 'w mount \<Rightarrow> ('a \<times> 'w mount) option" where
  "with_mw f m = do {
     (r, w) \<leftarrow> f (m_w m);
     Some (r, m\<lparr>m_w := w\<rparr>)
   }"

text \<open>The two assignments that make the caches of a directory stale.\<close>

definition forget :: "nat \<Rightarrow> 'w mount \<Rightarrow> 'w mount" where
  "forget d m = set_dir d ((m_dirs m ! d)\<lparr>fd_dirTTL := zero_time, fd_statTTL := zero_time\<rparr>) m"

definition forget_parent :: "string \<Rightarrow> 'w mount \<Rightarrow> 'w mount" where
  "forget_parent path m = (case dirGet (path_Dir path) m of Some d \<Rightarrow> forget d m | None \<Rightarrow> m)"

definition dont_touch :: Stat where
  "dont_touch =
     \<lparr>st_Type = -1, st_Dev = -1, st_Qid = \<lparr>q_Qtype = -1, q_Vers = -1, q_Uid = -1\<rparr>, st_Mode = -1, st_Atime = -1,
      st_Mtime = -1, st_Length = -1, st_Name = [], st_Uid = [], st_Gid = [], st_Muid = []\<rparr>"

definition new_entry :: "string \<Rightarrow> u32 \<Rightarrow> Stat" where
  "new_entry name mode =
     \<lparr>st_Type = 0, st_Dev = 0, st_Qid = \<lparr>q_Qtype = -1, q_Vers = -1, q_Uid = -1\<rparr>, st_Mode = mode, st_Atime = 0,
      st_Mtime = 0, st_Length = 0, st_Name = name, st_Uid = [], st_Gid = [], st_Muid = []\<rparr>"

text \<open>The entries of a cached listing; a nil slice has none.\<close>

definition cached :: "fuse_Dir \<Rightarrow> Stat list" where
  "cached r = (case fd_dirCache r of None \<Rightarrow> [] | Some stats \<Rightarrow> stats)"

definition append_entry :: "nat \<Rightarrow> Stat \<Rightarrow> 'w mount \<Rightarrow> 'w mount" where
  "append_entry d st m =
     (let r = m_dirs m ! d in set_dir d (r\<lparr>fd_dirCache := Some (cached r @ [st])\<rparr>) m)"

section \<open>Directories\<close>

definition Dir_Rename ::
    "'w clients \<Rightarrow> string \<Rightarrow> embedder \<Rightarrow> string \<Rightarrow> nat \<Rightarrow> 'w mount \<Rightarrow> (errno option \<times> 'w mount) option" where
  "Dir_Rename cl name newParent newName d m =
     (case newParent of
        E_Dir newD \<Rightarrow>
          if d \<noteq> newD then Some (Some EINVAL, m)
          else (let r = m_dirs m ! d in do {
            (err, m) \<leftarrow> with_mw (cli_WStat cl (fd_client r) (filepath_Join (fd_path r) name)
                                   (dont_touch\<lparr>st_Name := newName\<rparr>)) m;
            Some (case err of Some _ \<Rightarrow> (Some ENOENT, m) | None \<Rightarrow> (None, forget d m))
          })
      | _ \<Rightarrow> Some (Some EINVAL, m))"

definition Dir_Unlink :: "'w clients \<Rightarrow> string \<Rightarrow> nat \<Rightarrow> 'w mount \<Rightarrow> (errno option \<times> 'w mount) option" where
  "Dir_Unlink cl name d m =
     (let r = m_dirs m ! d in do {
        (err, m) \<leftarrow> with_mw (cli_Remove cl (fd_client r) (filepath_Join (fd_path r) name)) m;
        Some (case err of Some _ \<Rightarrow> (Some EINVAL, m) | None \<Rightarrow> (None, forget d m))
      })"

definition Dir_Rmdir :: "'w clients \<Rightarrow> string \<Rightarrow> nat \<Rightarrow> 'w mount \<Rightarrow> (errno option \<times> 'w mount) option" where
  "Dir_Rmdir cl name d m =
     (let r = m_dirs m ! d in do {
        (err, m) \<leftarrow> with_mw (cli_Remove cl (fd_client r) (filepath_Join (fd_path r) name)) m;
        Some (case err of Some _ \<Rightarrow> (Some EINVAL, m) | None \<Rightarrow> (None, forget d m))
      })"

definition create_errno :: "go_error \<Rightarrow> errno" where
  "create_errno err = (if error_text err = ''Permission denied.'' then EACCES else EINVAL)"

definition Dir_Mkdir ::
    "'w clients \<Rightarrow> string \<Rightarrow> u32 \<Rightarrow> nat \<Rightarrow> 'w mount \<Rightarrow> ((errno + inode) \<times> 'w mount) option" where
  "Dir_Mkdir cl name mode d m =
     (let r = m_dirs m ! d; fullPath = filepath_Join (fd_path r) name in do {
        (res, m) \<leftarrow> with_mw (cli_Create cl (fd_client r) fullPath (mode OR DMDIR)) m;
        (case res of
           Inl err \<Rightarrow> Some (Inl (create_errno err), m)
         | Inr file \<Rightarrow>
             (let m = append_entry d (new_entry name (mode OR DMDIR)) (forget d m);
                  (dir, m) = new_Dir (fd_client r) fullPath m;
                  m = dirPut fullPath dir m
              in do {
                (_, m) \<leftarrow> with_mw (file_Close cl (fd_client r) file) m;
                Some (Inr (Dir_Inode dir (crc64 fullPath)), m)
              }))
      })"

text \<open>The attributes of a stat, without and with the owner.\<close>

definition put_attr :: "config \<Rightarrow> Stat \<Rightarrow> 'a attr_out_scheme \<Rightarrow> 'a attr_out_scheme" where
  "put_attr cf st out =
     out\<lparr>ao_AttrValid := cf_ncTTL cf, ao_Nlink := 1, ao_Ino := q_Uid (st_Qid st), ao_Mode := st_Mode st,
         ao_Size := st_Length st, ao_Mtime := ucast (st_Mtime st)\<rparr>"

definition put_owner :: "config \<Rightarrow> Stat \<Rightarrow> 'a attr_out_scheme \<Rightarrow> 'a attr_out_scheme" where
  "put_owner cf st out = out\<lparr>ao_Uid := uidForUser cf (st_Uid st), ao_Gid := gidForGroup cf (st_Gid st)\<rparr>"

definition Dir_oldGetattr ::
    "'w clients \<Rightarrow> config \<Rightarrow> (nat \<Rightarrow> int) \<Rightarrow> attr_out \<Rightarrow> nat \<Rightarrow> 'w mount \<Rightarrow> ((errno option \<times> attr_out) \<times> 'w mount) option" where
  "Dir_oldGetattr cl cf clk out d m =
     (let r = m_dirs m ! d in do {
        (st, m) \<leftarrow>
          (if fd_statCache r = None \<or> fd_statTTL r < clk 0 then do {
             (res, m) \<leftarrow> with_mw (cli_Stat cl (fd_client r) (fd_path r)) m;
             Some (case res of
                     Inl err \<Rightarrow> (None, m)
                   | Inr st \<Rightarrow>
                       (Some st, set_dir d (r\<lparr>fd_statCache := Some st, fd_statTTL := clk 1 + cf_CacheTTL cf\<rparr>) m))
           }
           else Some (fd_statCache r, m));
        Some (case st of
                None \<Rightarrow> (Some ENOENT, out)
              | Some st \<Rightarrow> (None, put_owner cf st (put_attr cf st out)), m)
      })"

text \<open>The listing is asked for when there is none or it is too old.\<close>

definition refresh ::
    "'w clients \<Rightarrow> config \<Rightarrow> (nat \<Rightarrow> int) \<Rightarrow> nat \<Rightarrow> 'w mount \<Rightarrow> (errno option \<times> 'w mount) option" where
  "refresh cl cf clk d m =
     (let r = m_dirs m ! d in
      if fd_dirCache r = None \<or> fd_dirTTL r < clk 0 then do {
        (res, m) \<leftarrow> with_mw (cli_Readdir cl (fd_client r) (fd_path r)) m;
        (case res of
           Inl err \<Rightarrow> Some (Some EPIPE, m)
         | Inr stats \<Rightarrow>
             Some (None, set_dir d (r\<lparr>fd_dirCache := Some stats, fd_dirTTL := clk 1 + cf_CacheTTL cf\<rparr>) m))
      }
      else Some (None, m))"

definition dir_entries :: "Stat list \<Rightarrow> (string \<times> u32) list" where
  "dir_entries stats = map (\<lambda>st. (st_Name st, if st_Mode st AND DMDIR > 0 then S_IFDIR else 0)) stats"

definition Dir_Readdir ::
    "'w clients \<Rightarrow> config \<Rightarrow> (nat \<Rightarrow> int) \<Rightarrow> nat \<Rightarrow> 'w mount \<Rightarrow> ((errno + (string \<times> u32) list) \<times> 'w mount) option" where
  "Dir_Readdir cl cf clk d m = do {
     (e, m) \<leftarrow> refresh cl cf clk d m;
     Some (case e of Some e \<Rightarrow> Inl e | None \<Rightarrow> Inr (dir_entries (cached (m_dirs m ! d))), m)
   }"

text \<open>\<open>clk 0\<close> and \<open>clk 1\<close> are the readings in \<^verbatim>\<open>Readdir\<close>, \<open>clk 2\<close> and \<open>clk 3\<close> those in \<^verbatim>\<open>oldGetattr\<close>.\<close>

definition Dir_Getattr ::
    "'w clients \<Rightarrow> config \<Rightarrow> (nat \<Rightarrow> int) \<Rightarrow> attr_out \<Rightarrow> nat \<Rightarrow> 'w mount \<Rightarrow> ((errno option \<times> attr_out) \<times> 'w mount) option" where
  "Dir_Getattr cl cf clk out d m =
     (let path = fd_path (m_dirs m ! d); old = Dir_oldGetattr cl cf (\<lambda>k. clk (2 + k)) out d in
      case dirGet (path_Dir path) m of
        None \<Rightarrow> old m
      | Some dir \<Rightarrow> do {
          (res, m) \<leftarrow> Dir_Readdir cl cf clk dir m;
          (case res of
             Inl errno \<Rightarrow> Some ((Some errno, out), m)
           | Inr _ \<Rightarrow>
               (case List.find (\<lambda>st. st_Name st = path_Base path) (cached (m_dirs m ! dir)) of
                  Some st \<Rightarrow> Some ((None, put_attr cf st out), m)
                | None \<Rightarrow> old m))
        })"

definition StatDir_Getattr ::
    "'w clients \<Rightarrow> config \<Rightarrow> (nat \<Rightarrow> int) \<Rightarrow> u32 \<Rightarrow> attr_out \<Rightarrow> nat \<Rightarrow> 'w mount \<Rightarrow> ((errno option \<times> attr_out) \<times> 'w mount) option" where
  "StatDir_Getattr cl cf clk mode out d m = do {
     ((e, out), m) \<leftarrow> Dir_Getattr cl cf clk out d m;
     Some ((e, out\<lparr>ao_Mode := mode\<rparr>), m)
   }"

text \<open>\<^verbatim>\<open>Setattr\<close> of directories and of file nodes is the same code, for the path of the node.\<close>

definition setattr_stat :: "setattr_in \<Rightarrow> Stat" where
  "setattr_stat i =
     (let stat = dont_touch;
          stat = (case si_GetMode i of Some newMode \<Rightarrow> stat\<lparr>st_Mode := newMode\<rparr> | None \<Rightarrow> stat);
          stat = (case si_GetSize i of Some newSize \<Rightarrow> stat\<lparr>st_Length := newSize\<rparr> | None \<Rightarrow> stat)
      in stat)"

definition put_set :: "config \<Rightarrow> Stat \<Rightarrow> attr_out \<Rightarrow> attr_out" where
  "put_set cf st out =
     put_owner cf st (out\<lparr>ao_Mode := st_Mode st, ao_Size := st_Length st, ao_Mtime := ucast (st_Mtime st)\<rparr>)"

definition node_Setattr ::
    "'w clients \<Rightarrow> config \<Rightarrow> setattr_in \<Rightarrow> attr_out \<Rightarrow> nat \<Rightarrow> string \<Rightarrow> 'w mount \<Rightarrow>
       ((errno option \<times> attr_out) \<times> 'w mount) option" where
  "node_Setattr cl cf i out c path m =
     (let stat = setattr_stat i; send = (si_GetMode i \<noteq> None \<or> si_GetSize i \<noteq> None) in do {
        (err, m) \<leftarrow> (if send then with_mw (cli_WStat cl c path stat) m else Some (None, m));
        (case err of
           Some _ \<Rightarrow> Some ((Some ENOENT, out), m)
         | None \<Rightarrow> Some ((None, put_set cf stat out), forget_parent path m))
      })"

definition Dir_Setattr ::
    "'w clients \<Rightarrow> config \<Rightarrow> setattr_in \<Rightarrow> attr_out \<Rightarrow> nat \<Rightarrow> 'w mount \<Rightarrow> ((errno option \<times> attr_out) \<times> 'w mount) option" where
  "Dir_Setattr cl cf i out d m =
     node_Setattr cl cf i out (fd_client (m_dirs m ! d)) (fd_path (m_dirs m ! d)) m"

definition Dir_Create ::
    "'w clients \<Rightarrow> string \<Rightarrow> u32 \<Rightarrow> nat \<Rightarrow> 'w mount \<Rightarrow>
       ((errno + inode \<times> fuse_File \<times> u32) \<times> 'w mount) option" where
  "Dir_Create cl name mode d m =
     (let r = m_dirs m ! d; fullPath = filepath_Join (fd_path r) name in do {
        (res, m) \<leftarrow> with_mw (cli_Create cl (fd_client r) fullPath mode) m;
        Some (case res of
           Inl err \<Rightarrow> (Inl (create_errno err), m)
         | Inr file \<Rightarrow>
             (let fileNode = \<lparr>fn_client = fd_client r, fn_path = fullPath\<rparr>
              in (Inr (File_Inode fileNode (crc64 fullPath), \<lparr>ff_file = file, ff_node = fileNode\<rparr>, FOPEN_DIRECT_IO),
                  append_entry d (new_entry name mode) (forget d m))))
      })"

definition Dir_Lookup ::
    "'w clients \<Rightarrow> config \<Rightarrow> (nat \<Rightarrow> int) \<Rightarrow> string \<Rightarrow> entry_out \<Rightarrow> nat \<Rightarrow> 'w mount \<Rightarrow>
       ((errno + inode \<times> entry_out) \<times> 'w mount) option" where
  "Dir_Lookup cl cf clk name out d m = do {
     (e, m) \<leftarrow> refresh cl cf clk d m;
     Some (case e of
       Some e \<Rightarrow> (Inl e, m)
     | None \<Rightarrow>
         (let r = m_dirs m ! d; fullPath = filepath_Join (fd_path r) name in
          case List.find (\<lambda>st. st_Name st = name) (cached r) of
            None \<Rightarrow> (Inl ENOENT, m)
          | Some st \<Rightarrow>
              (let out = put_owner cf st (put_attr cf st (out\<lparr>eo_EntryValid := cf_ncTTL cf\<rparr>)) in
               if st_Mode st AND DMDIR > 0
               then (case dirGet fullPath m of
                       Some dir \<Rightarrow> (Inr (Dir_Inode dir (crc64 fullPath), out), m)
                     | None \<Rightarrow>
                         (let (dir, m) = new_Dir (fd_client r) fullPath m
                          in (Inr (Dir_Inode dir (crc64 fullPath), out), dirPut fullPath dir m)))
               else (Inr (File_Inode \<lparr>fn_client = fd_client r, fn_path = fullPath\<rparr> (crc64 fullPath), out), m))))
   }"

section \<open>File nodes and open files\<close>

text \<open>On Linux \<^verbatim>\<open>O_RDONLY\<close>, \<^verbatim>\<open>O_WRONLY\<close> and \<^verbatim>\<open>O_RDWR\<close> are 0, 1 and 2, and \<^verbatim>\<open>O_TRUNC\<close> is 512.\<close>

definition convertFlag :: "u32 \<Rightarrow> Mode" where
  "convertFlag mode =
     (let m = (if mode AND 0x0F = 0 then Oread
               else if mode AND 0x0F = 1 then Owrite
               else if mode AND 0x0F = 2 then Ordwr else 0)
      in if mode AND 512 > 0 then m OR Otrunc else m)"

definition FileNode_Fsync :: "FileNode \<Rightarrow> errno option" where
  "FileNode_Fsync f = None"

definition FileNode_Open ::
    "'w clients \<Rightarrow> config \<Rightarrow> u32 \<Rightarrow> FileNode \<Rightarrow> 'w mount \<Rightarrow> ((errno + fuse_File \<times> u32) \<times> 'w mount) option" where
  "FileNode_Open cl cf flags f m = do {
     (res, m) \<leftarrow> with_mw (cli_Open cl (fn_client f) (fn_path f) (convertFlag flags)) m;
     (case res of
        Inl err \<Rightarrow> Some (Inl (create_errno err), m)
      | Inr file \<Rightarrow>
          if cf_dio cf then Some (Inr (\<lparr>ff_file = file, ff_node = f\<rparr>, FOPEN_DIRECT_IO), m)
          else do {
            (res, m) \<leftarrow> with_mw (cli_Stat cl (fn_client f) (fn_path f)) m;
            Some (case res of
                    Inl err \<Rightarrow> (Inl ENOENT, m)
                  | Inr st \<Rightarrow>
                      (Inr (\<lparr>ff_file = file, ff_node = f\<rparr>, if st_Length st = 0 then FOPEN_DIRECT_IO else 0), m))
          })
   }"

definition FileNode_oldGetattr ::
    "'w clients \<Rightarrow> config \<Rightarrow> attr_out \<Rightarrow> FileNode \<Rightarrow> 'w mount \<Rightarrow> ((errno option \<times> attr_out) \<times> 'w mount) option" where
  "FileNode_oldGetattr cl cf out f m = do {
     (res, m) \<leftarrow> with_mw (cli_Stat cl (fn_client f) (fn_path f)) m;
     Some (case res of
             Inl err \<Rightarrow> (Some ENOENT, out)
           | Inr st \<Rightarrow> (None, put_owner cf st (put_attr cf st out)), m)
   }"

definition FileNode_Getattr ::
    "'w clients \<Rightarrow> config \<Rightarrow> (nat \<Rightarrow> int) \<Rightarrow> attr_out \<Rightarrow> FileNode \<Rightarrow> 'w mount \<Rightarrow> ((errno option \<times> attr_out) \<times> 'w mount) option" where
  "FileNode_Getattr cl cf clk out f m =
     (case dirGet (path_Dir (fn_path f)) m of
        None \<Rightarrow> FileNode_oldGetattr cl cf out f m
      | Some dir \<Rightarrow> do {
          (res, m) \<leftarrow> Dir_Readdir cl cf clk dir m;
          (case res of
             Inl errno \<Rightarrow> Some ((Some errno, out), m)
           | Inr _ \<Rightarrow>
               (case List.find (\<lambda>st. st_Name st = path_Base (fn_path f)) (cached (m_dirs m ! dir)) of
                  Some st \<Rightarrow> Some ((None, put_owner cf st (put_attr cf st out)), m)
                | None \<Rightarrow> FileNode_oldGetattr cl cf out f m))
        })"

definition FileNode_Setattr ::
    "'w clients \<Rightarrow> config \<Rightarrow> setattr_in \<Rightarrow> attr_out \<Rightarrow> FileNode \<Rightarrow> 'w mount \<Rightarrow> ((errno option \<times> attr_out) \<times> 'w mount) option" where
  "FileNode_Setattr cl cf i out f m = node_Setattr cl cf i out (fn_client f) (fn_path f) m"

definition fuse_File_Flush :: "fuse_File \<Rightarrow> errno option" where
  "fuse_File_Flush f = None"

definition fuse_File_Release :: "'w clients \<Rightarrow> fuse_File \<Rightarrow> 'w mount \<Rightarrow> (errno option \<times> 'w mount) option" where
  "fuse_File_Release cl f m = do {
     (err, m) \<leftarrow> with_mw (file_Close cl (fn_client (ff_node f)) (ff_file f)) m;
     Some (case err of Some _ \<Rightarrow> Some EINVAL | None \<Rightarrow> None, m)
   }"

definition fuse_File_Read ::
    "'w clients \<Rightarrow> nat \<Rightarrow> u64 \<Rightarrow> fuse_File \<Rightarrow> 'w mount \<Rightarrow> ((errno + bytes) \<times> fuse_File \<times> 'w mount) option" where
  "fuse_File_Read cl len off f m = do {
     (res, file, w) \<leftarrow> file_ReadAt cl (fn_client (ff_node f)) len off (ff_file f) (m_w m);
     Some (case res of
             Inl err \<Rightarrow> if err = EOF then Inr [] else Inl EINVAL
           | Inr data \<Rightarrow> Inr data,
           f\<lparr>ff_file := file\<rparr>, m\<lparr>m_w := w\<rparr>)
   }"

definition fuse_File_Setattr ::
    "'w clients \<Rightarrow> config \<Rightarrow> setattr_in \<Rightarrow> attr_out \<Rightarrow> fuse_File \<Rightarrow> 'w mount \<Rightarrow> ((errno option \<times> attr_out) \<times> 'w mount) option" where
  "fuse_File_Setattr cl cf i out f m =
     (let c = fn_client (ff_node f); path = fn_path (ff_node f) in do {
        (res, m) \<leftarrow> with_mw (cli_Stat cl c path) m;
        (case res of
           Inl err \<Rightarrow> Some ((Some ENOENT, out), m)
         | Inr st \<Rightarrow>
             (let st = st\<lparr>st_Mode := si_Mode i, st_Length := si_Size i\<rparr> in do {
                (err, m) \<leftarrow> with_mw (cli_WStat cl c path st) m;
                Some (case err of
                        Some _ \<Rightarrow> ((Some ENOENT, out), m)
                      | None \<Rightarrow> ((None, put_set cf st out), forget_parent path m))
              }))
      })"

definition fuse_File_Write ::
    "'w clients \<Rightarrow> bytes \<Rightarrow> u64 \<Rightarrow> fuse_File \<Rightarrow> 'w mount \<Rightarrow> ((u32 \<times> errno option) \<times> 'w mount) option" where
  "fuse_File_Write cl data off f m = do {
     ((n, err), m) \<leftarrow> with_mw (file_WriteAt cl (fn_client (ff_node f)) data off (ff_file f)) m;
     Some (case err of
             Some _ \<Rightarrow> ((of_nat n, Some EINVAL), m)
           | None \<Rightarrow> ((of_nat n, None), forget_parent (fn_path (ff_node f)) m))
   }"

section \<open>Unused user ids (cmd/mount9p/users.go)\<close>

text \<open>\<^verbatim>\<open>strconv.Atoi\<close> on a machine with 64-bit integers.\<close>

fun digits_val :: "nat \<Rightarrow> string \<Rightarrow> nat option" where
  "digits_val acc [] = Some acc"
| "digits_val acc (c # cs) =
     (if 48 \<le> (of_char c :: nat) \<and> of_char c \<le> (57 :: nat)
      then digits_val (10 * acc + (of_char c - 48)) cs else None)"

definition Atoi :: "string \<Rightarrow> int option" where
  "Atoi s =
     (let neg = (take 1 s = ''-''); body = (if neg \<or> take 1 s = ''+'' then drop 1 s else s) in
      if body = [] then None
      else case digits_val 0 body of
        None \<Rightarrow> None
      | Some n \<Rightarrow>
          (let i = (if neg then - int n else int n) in if - (2 ^ 63) \<le> i \<and> i < 2 ^ 63 then Some i else None))"

text \<open>
  The loop over the lines. A line with fewer than three fields panics; a field that is no number ends
  the search with the result 0, the inner \<open>Some None\<close>.
\<close>

fun highest_id :: "int \<Rightarrow> string list \<Rightarrow> int option option" where
  "highest_id highest [] = Some (Some highest)"
| "highest_id highest (l # ls) =
     (let ss = split_on CHR '':'' l in
      if length ss < 3 then None
      else case Atoi (ss ! 2) of
        None \<Rightarrow> Some None
      | Some uid \<Rightarrow> highest_id (if uid > highest then uid else highest) ls)"

text \<open>\<open>file\<close> are the lines of \<^verbatim>\<open>/etc/passwd\<close> or \<^verbatim>\<open>/etc/group\<close>, if it can be opened.\<close>

definition unusedUid :: "string list option \<Rightarrow> u32 option" where
  "unusedUid file =
     (case file of
        None \<Rightarrow> Some 0
      | Some lines \<Rightarrow>
          (case highest_id 0 lines of
             None \<Rightarrow> None
           | Some None \<Rightarrow> Some 0
           | Some (Some highest) \<Rightarrow> Some (of_int (highest + 1))))"

definition unusedGid :: "string list option \<Rightarrow> u32 option" where
  "unusedGid file =
     (case file of
        None \<Rightarrow> Some 0
      | Some lines \<Rightarrow>
          (case highest_id 0 lines of
             None \<Rightarrow> None
           | Some None \<Rightarrow> Some 0
           | Some (Some highest) \<Rightarrow> Some (of_int (highest + 1))))"

end
