(* ===== verification/Mount9p_Props.thy ===== *)
theory Mount9p_Props
  imports Mount9p
begin

text \<open>
  The cache of directory listings of cmd/mount9p/main.go over whole runs of the mount: what a listing
  shows is the last one the server gave for the directory since the last change made through it, and no
  older than the cache time.
\<close>

section \<open>Runs of a mount\<close>

text \<open>
  Beside the state, a run keeps for every directory the last listing the server gave for it, with the
  time at which it had arrived; a change made through the directory, and a change of an entry of it,
  takes that back.
\<close>

type_synonym listings = "nat \<Rightarrow> (Stat list \<times> int) option"

definition stale :: "(nat \<Rightarrow> int) \<Rightarrow> nat \<Rightarrow> 'w mount \<Rightarrow> bool" where
  "stale clk d m \<longleftrightarrow> fd_dirCache (m_dirs m ! d) = None \<or> fd_dirTTL (m_dirs m ! d) < clk 0"

definition server_listing :: "'w clients \<Rightarrow> nat \<Rightarrow> 'w mount \<Rightarrow> Stat list option" where
  "server_listing cl d m =
     (case cli_Readdir cl (fd_client (m_dirs m ! d)) (fd_path (m_dirs m ! d)) (m_w m) of
        Some (Inr stats, _) \<Rightarrow> Some stats
      | _ \<Rightarrow> None)"

definition observe :: "'w clients \<Rightarrow> (nat \<Rightarrow> int) \<Rightarrow> nat \<Rightarrow> 'w mount \<Rightarrow> listings \<Rightarrow> listings" where
  "observe cl clk d m g =
     (if stale clk d m
      then case server_listing cl d m of Some stats \<Rightarrow> g(d \<mapsto> (stats, clk 1)) | None \<Rightarrow> g
      else g)"

definition observe_parent :: "'w clients \<Rightarrow> (nat \<Rightarrow> int) \<Rightarrow> string \<Rightarrow> 'w mount \<Rightarrow> listings \<Rightarrow> listings" where
  "observe_parent cl clk path m g =
     (case dirGet (path_Dir path) m of Some p \<Rightarrow> observe cl clk p m g | None \<Rightarrow> g)"

definition changed :: "bool \<Rightarrow> nat \<Rightarrow> listings \<Rightarrow> listings" where
  "changed ok d g = (if ok then g(d := None) else g)"

definition changed_parent :: "bool \<Rightarrow> string \<Rightarrow> 'w mount \<Rightarrow> listings \<Rightarrow> listings" where
  "changed_parent ok path m g = (case dirGet (path_Dir path) m of Some p \<Rightarrow> changed ok p g | None \<Rightarrow> g)"

inductive mount_step ::
    "'w clients \<Rightarrow> config \<Rightarrow> 'w mount \<times> listings \<Rightarrow> 'w mount \<times> listings \<Rightarrow> bool"
  for cl cf where
  rename: "Dir_Rename cl name newParent newName d m = Some (e, m') \<Longrightarrow>
     mount_step cl cf (m, g) (m', changed (e = None) d g)"
| unlink: "Dir_Unlink cl name d m = Some (e, m') \<Longrightarrow> mount_step cl cf (m, g) (m', changed (e = None) d g)"
| rmdir: "Dir_Rmdir cl name d m = Some (e, m') \<Longrightarrow> mount_step cl cf (m, g) (m', changed (e = None) d g)"
| mkdir: "Dir_Mkdir cl name mode d m = Some (r, m') \<Longrightarrow>
     mount_step cl cf (m, g) (m', changed (\<not> isl r) d g)"
| create: "Dir_Create cl name mode d m = Some (rc, m') \<Longrightarrow>
     mount_step cl cf (m, g) (m', changed (\<not> isl rc) d g)"
| lookup: "Dir_Lookup cl cf clk name eout d m = Some (rl, m') \<Longrightarrow> \<forall>k. 0 < clk k \<Longrightarrow>
     mount_step cl cf (m, g) (m', observe cl clk d m g)"
| readdir: "Dir_Readdir cl cf clk d m = Some (rd, m') \<Longrightarrow> \<forall>k. 0 < clk k \<Longrightarrow>
     mount_step cl cf (m, g) (m', observe cl clk d m g)"
| getattr: "Dir_Getattr cl cf clk out d m = Some (ra, m') \<Longrightarrow> \<forall>k. 0 < clk k \<Longrightarrow>
     mount_step cl cf (m, g) (m', observe_parent cl clk (fd_path (m_dirs m ! d)) m g)"
| root_getattr: "StatDir_Getattr cl cf clk rmode out d m = Some (ra, m') \<Longrightarrow> \<forall>k. 0 < clk k \<Longrightarrow>
     mount_step cl cf (m, g) (m', observe_parent cl clk (fd_path (m_dirs m ! d)) m g)"
| file_getattr: "FileNode_Getattr cl cf clk out f m = Some (ra, m') \<Longrightarrow> \<forall>k. 0 < clk k \<Longrightarrow>
     mount_step cl cf (m, g) (m', observe_parent cl clk (fn_path f) m g)"
| setattr: "Dir_Setattr cl cf i out d m = Some ((e, out'), m') \<Longrightarrow>
     mount_step cl cf (m, g) (m', changed_parent (e = None) (fd_path (m_dirs m ! d)) m g)"
| node_setattr: "FileNode_Setattr cl cf i out f m = Some ((e, out'), m') \<Longrightarrow>
     mount_step cl cf (m, g) (m', changed_parent (e = None) (fn_path f) m g)"
| file_setattr: "fuse_File_Setattr cl cf i out h m = Some ((e, out'), m') \<Longrightarrow>
     mount_step cl cf (m, g) (m', changed_parent (e = None) (fn_path (ff_node h)) m g)"
| file_write: "fuse_File_Write cl data off h m = Some ((n, e), m') \<Longrightarrow>
     mount_step cl cf (m, g) (m', changed_parent (e = None) (fn_path (ff_node h)) m g)"
| open_file: "FileNode_Open cl cf flags f m = Some (ro, m') \<Longrightarrow> mount_step cl cf (m, g) (m', g)"
| release: "fuse_File_Release cl h m = Some (e, m') \<Longrightarrow> mount_step cl cf (m, g) (m', g)"
| file_read: "fuse_File_Read cl len off h m = Some (rr, h', m') \<Longrightarrow> mount_step cl cf (m, g) (m', g)"
| server: "mount_step cl cf (m, g) (m\<lparr>m_w := w\<rparr>, g)"

section \<open>The caches hold what the server said\<close>

definition fresh :: "config \<Rightarrow> 'w mount \<Rightarrow> listings \<Rightarrow> bool" where
  "fresh cf m g \<longleftrightarrow>
     (\<forall>d < length (m_dirs m). fd_dirTTL (m_dirs m ! d) = zero_time \<or>
        (\<exists>stats t. g d = Some (stats, t) \<and> fd_dirCache (m_dirs m ! d) = Some stats \<and>
           fd_dirTTL (m_dirs m ! d) = t + cf_CacheTTL cf))"

text \<open>What touches no listing: the directories keep theirs, new ones have none.\<close>

definition keeps_listings :: "'w mount \<Rightarrow> 'w mount \<Rightarrow> bool" where
  "keeps_listings m m' \<longleftrightarrow>
     (\<forall>d < length (m_dirs m'). if d < length (m_dirs m)
        then fd_dirCache (m_dirs m' ! d) = fd_dirCache (m_dirs m ! d) \<and> fd_dirTTL (m_dirs m' ! d) = fd_dirTTL (m_dirs m ! d)
        else fd_dirTTL (m_dirs m' ! d) = zero_time)"

lemma fresh_keeps:
  fixes m m' :: "'w mount"
  shows "fresh cf m g \<Longrightarrow> keeps_listings m m' \<Longrightarrow> fresh cf m' g"
  unfolding fresh_def keeps_listings_def by (metis (full_types))

lemma keeps_same: "m_dirs m' = m_dirs m \<Longrightarrow> keeps_listings m m'"
  by (simp add: keeps_listings_def)

lemma with_mw_dirs: "with_mw f m = Some (r, m') \<Longrightarrow> m_dirs m' = m_dirs m \<and> m_cache m' = m_cache m"
  by (auto simp: with_mw_def split: bind_splits)

lemma fresh_same:
  fixes m m' :: "'w mount"
  shows "fresh cf m g \<Longrightarrow> m_dirs m' = m_dirs m \<Longrightarrow> fresh cf m' g"
  by (simp add: fresh_def)

lemma fresh_forget: "fresh cf m g \<Longrightarrow> fresh cf (forget d m) (g(d := None))"
  by (auto simp: fresh_def forget_def nth_update)

lemma fresh_append_entry: "fresh cf (forget d m) g \<Longrightarrow> fresh cf (append_entry d st (forget d m)) g"
  by (auto simp: fresh_def forget_def append_entry_def Let_def nth_update)

lemma fresh_new_Dir:
  assumes "new_Dir c path m = (d, m')" "fresh cf m g"
  shows "fresh cf (dirPut path d m') g"
proof -
  have "keeps_listings m (dirPut path d m')"
    using assms(1) by (auto simp: keeps_listings_def new_Dir_def dirPut_def nth_append)
  then show ?thesis by (rule fresh_keeps [OF assms(2)])
qed

lemma fresh_refresh:
  assumes "refresh cl cf clk d m = Some (e, m')" "fresh cf m g"
  shows "fresh cf m' (observe cl clk d m g)"
proof (cases "stale clk d m")
  case True
  let ?r = "m_dirs m ! d"
  from True assms(1) obtain res m1 where w: "with_mw (cli_Readdir cl (fd_client ?r) (fd_path ?r)) m = Some (res, m1)"
    by (auto simp: refresh_def stale_def Let_def split: bind_splits if_splits)
  show ?thesis
  proof (cases res)
    case (Inl err)
    then have "m' = m1" "server_listing cl d m = None"
      using True assms(1) w by (auto simp: refresh_def stale_def Let_def server_listing_def with_mw_def split: bind_splits)
    then show ?thesis using fresh_same [OF assms(2), of m1] with_mw_dirs [OF w] by (simp add: observe_def)
  next
    case (Inr stats)
    then have "m' = set_dir d (?r\<lparr>fd_dirCache := Some stats, fd_dirTTL := clk 1 + cf_CacheTTL cf\<rparr>) m1"
      "server_listing cl d m = Some stats"
      using True assms(1) w by (auto simp: refresh_def stale_def Let_def server_listing_def with_mw_def split: bind_splits)
    then show ?thesis
      using assms(2) True with_mw_dirs [OF w] by (auto simp: fresh_def observe_def nth_update)
  qed
next
  case False
  then show ?thesis using assms by (auto simp: refresh_def stale_def observe_def Let_def)
qed

lemma fresh_Readdir:
  "Dir_Readdir cl cf clk d m = Some (r, m') \<Longrightarrow> fresh cf m g \<Longrightarrow> fresh cf m' (observe cl clk d m g)"
  using fresh_refresh [of cl cf clk d m] by (auto simp: Dir_Readdir_def split: bind_splits)

lemma fresh_Dir_oldGetattr:
  assumes "Dir_oldGetattr cl cf clk out d m = Some (r, m')" "fresh cf m g"
  shows "fresh cf m' g"
proof -
  have "keeps_listings m m'"
    using assms(1)
    by (auto simp: Dir_oldGetattr_def Let_def keeps_listings_def with_mw_def nth_update
        split: bind_splits if_splits sum.splits option.splits)
  then show ?thesis by (rule fresh_keeps [OF assms(2)])
qed

lemma fresh_FileNode_oldGetattr:
  "FileNode_oldGetattr cl cf out f m = Some (r, m') \<Longrightarrow> fresh cf m g \<Longrightarrow> fresh cf m' g"
  using fresh_same [of cf m g m'] by (auto simp: FileNode_oldGetattr_def with_mw_def split: bind_splits)

lemma fresh_forget_parent: "fresh cf m g \<Longrightarrow> fresh cf (forget_parent path m) (changed_parent True path m g)"
  by (auto simp: forget_parent_def changed_parent_def changed_def fresh_forget split: option.splits)

lemma changed_parent_False [simp]: "changed_parent False path m g = g"
  by (auto simp: changed_parent_def changed_def split: option.splits)

lemma changed_parent_same: "m_cache m' = m_cache m \<Longrightarrow> changed_parent ok path m' g = changed_parent ok path m g"
  by (simp add: changed_parent_def dirGet_def)

section \<open>Every operation keeps this\<close>

lemma fresh_Rename:
  assumes "Dir_Rename cl name newParent newName d m = Some (e, m')" "fresh cf m g"
  shows "fresh cf m' (changed (e = None) d g)"
  using assms(1)
  by (auto intro!: fresh_forget fresh_same [OF assms(2)] simp: Dir_Rename_def changed_def with_mw_def Let_def split: embedder.splits if_splits bind_splits option.splits)

lemma fresh_Unlink:
  assumes "Dir_Unlink cl name d m = Some (e, m')" "fresh cf m g"
  shows "fresh cf m' (changed (e = None) d g)"
  using assms(1)
  by (auto intro!: fresh_forget fresh_same [OF assms(2)] simp: Dir_Unlink_def changed_def with_mw_def Let_def split: bind_splits option.splits)

lemma fresh_Rmdir:
  assumes "Dir_Rmdir cl name d m = Some (e, m')" "fresh cf m g"
  shows "fresh cf m' (changed (e = None) d g)"
  using assms fresh_Unlink [of cl name d m e m' cf g] by (simp add: Dir_Rmdir_def Dir_Unlink_def)

lemma fresh_new_entry:
  fixes m m1 :: "'w mount"
  shows "fresh cf m g \<Longrightarrow> m_dirs m1 = m_dirs m \<Longrightarrow> fresh cf (append_entry d st (forget d m1)) (g(d := None))"
  using fresh_append_entry fresh_forget fresh_same by blast

lemma fresh_Create:
  assumes "Dir_Create cl name mode d m = Some (r, m')" "fresh cf m g"
  shows "fresh cf m' (changed (\<not> isl r) d g)"
  using assms fresh_new_entry [OF assms(2)] fresh_same [OF assms(2)]
  by (auto simp: Dir_Create_def changed_def with_mw_def Let_def split: bind_splits sum.splits)

lemma fresh_Mkdir:
  assumes "Dir_Mkdir cl name mode d m = Some (r, m')" "fresh cf m g"
  shows "fresh cf m' (changed (\<not> isl r) d g)"
proof -
  let ?r = "m_dirs m ! d"
  define full where "full = filepath_Join (fd_path ?r) name"
  from assms(1) obtain res m1 where w: "with_mw (cli_Create cl (fd_client ?r) full (mode OR DMDIR)) m = Some (res, m1)"
    by (auto simp: Dir_Mkdir_def Let_def full_def split: bind_splits)
  note m1 = conjunct1 [OF with_mw_dirs [OF w]]
  show ?thesis
  proof (cases res)
    case (Inl err)
    then show ?thesis
      using assms w fresh_same [OF assms(2) m1] by (auto simp: Dir_Mkdir_def Let_def full_def changed_def)
  next
    case (Inr h)
    define m2 where "m2 = append_entry d (new_entry name (mode OR DMDIR)) (forget d m1)"
    obtain dir m3 where n: "new_Dir (fd_client ?r) full m2 = (dir, m3)" by fastforce
    have "fresh cf m2 (g(d := None))" unfolding m2_def by (rule fresh_new_entry [OF assms(2) m1])
    then have f: "fresh cf (dirPut full dir m3) (g(d := None))" by (rule fresh_new_Dir [OF n])
    obtain x where c: "with_mw (file_Close cl (fd_client ?r) h) (dirPut full dir m3) = Some (x, m')" "\<not> isl r"
      using assms(1) w Inr n by (auto simp: Dir_Mkdir_def Let_def full_def m2_def split: bind_splits)
    show ?thesis using fresh_same [OF f conjunct1 [OF with_mw_dirs [OF c(1)]]] c(2) by (simp add: changed_def)
  qed
qed

lemma fresh_Lookup:
  assumes "Dir_Lookup cl cf clk name out d m = Some (r, m')" "fresh cf m g"
  shows "fresh cf m' (observe cl clk d m g)"
proof -
  from assms(1) obtain e m1 where r: "refresh cl cf clk d m = Some (e, m1)"
    by (auto simp: Dir_Lookup_def split: bind_splits)
  note f = fresh_refresh [OF r assms(2)]
  have "m' = m1 \<or> (\<exists>c path dir m2. new_Dir c path m1 = (dir, m2) \<and> m' = dirPut path dir m2)"
    using assms(1) r
    by (auto simp: Dir_Lookup_def Let_def split: option.splits if_splits prod.splits)
  then show ?thesis using f fresh_new_Dir by blast
qed

lemma fresh_Dir_Getattr:
  assumes "Dir_Getattr cl cf clk out d m = Some (r, m')" "fresh cf m g"
  shows "fresh cf m' (observe_parent cl clk (fd_path (m_dirs m ! d)) m g)"
proof (cases "dirGet (path_Dir (fd_path (m_dirs m ! d))) m")
  case None
  then show ?thesis
    using assms(1) fresh_Dir_oldGetattr [OF _ assms(2), of cl _ out d r m']
    by (simp add: Dir_Getattr_def observe_parent_def Let_def)
next
  case (Some p)
  with assms(1) obtain res m1 where r: "Dir_Readdir cl cf clk p m = Some (res, m1)"
    by (auto simp: Dir_Getattr_def Let_def split: bind_splits)
  note f = fresh_Readdir [OF r assms(2)]
  have "m' = m1 \<or> Dir_oldGetattr cl cf (\<lambda>k. clk (2 + k)) out d m1 = Some (r, m')"
    using assms(1) r Some by (auto simp: Dir_Getattr_def Let_def split: sum.splits option.splits)
  then show ?thesis using f fresh_Dir_oldGetattr [OF _ f] Some unfolding observe_parent_def by fastforce
qed

lemma fresh_FileNode_Getattr:
  assumes "FileNode_Getattr cl cf clk out f m = Some (r, m')" "fresh cf m g"
  shows "fresh cf m' (observe_parent cl clk (fn_path f) m g)"
proof (cases "dirGet (path_Dir (fn_path f)) m")
  case None
  then show ?thesis
    using assms(1) fresh_FileNode_oldGetattr [OF _ assms(2), of cl out f r m']
    by (simp add: FileNode_Getattr_def observe_parent_def)
next
  case (Some p)
  with assms(1) obtain res m1 where r: "Dir_Readdir cl cf clk p m = Some (res, m1)"
    by (auto simp: FileNode_Getattr_def split: bind_splits)
  note f = fresh_Readdir [OF r assms(2)]
  have "m' = m1 \<or> FileNode_oldGetattr cl cf out f m1 = Some (r, m')"
    using assms(1) r Some by (auto simp: FileNode_Getattr_def split: sum.splits option.splits)
  then show ?thesis using f fresh_FileNode_oldGetattr [OF _ f] Some unfolding observe_parent_def by fastforce
qed

text \<open>After a successful change of an entry its directory is forgotten.\<close>

lemma fresh_entry_changed:
  fixes m m1 :: "'w mount"
  assumes "fresh cf m g" "m_dirs m1 = m_dirs m" "m_cache m1 = m_cache m"
  shows "fresh cf (forget_parent path m1) (changed_parent True path m g)"
  using fresh_forget_parent [OF fresh_same [OF assms(1,2)]] changed_parent_same [OF assms(3)] by simp

lemma fresh_node_Setattr:
  assumes "node_Setattr cl cf i out c path m = Some ((e, out'), m')" "fresh cf m g"
  shows "fresh cf m' (changed_parent (e = None) path m g)"
  using assms fresh_entry_changed [OF assms(2)] fresh_same [OF assms(2)]
  by (auto simp: node_Setattr_def Let_def with_mw_def split: bind_splits if_splits option.splits)

lemma fresh_File_Setattr:
  assumes "fuse_File_Setattr cl cf i out h m = Some ((e, out'), m')" "fresh cf m g"
  shows "fresh cf m' (changed_parent (e = None) (fn_path (ff_node h)) m g)"
  using assms fresh_entry_changed [OF assms(2)] fresh_same [OF assms(2)]
  by (auto simp: fuse_File_Setattr_def Let_def with_mw_def split: bind_splits sum.splits option.splits)

lemma fresh_File_Write:
  assumes "fuse_File_Write cl data off h m = Some ((n, e), m')" "fresh cf m g"
  shows "fresh cf m' (changed_parent (e = None) (fn_path (ff_node h)) m g)"
  using assms fresh_entry_changed [OF assms(2)] fresh_same [OF assms(2)]
  by (auto simp: fuse_File_Write_def with_mw_def split: bind_splits option.splits)

lemma open_read_release_dirs:
  "FileNode_Open cl cf flags f m = Some (ro, m') \<Longrightarrow> m_dirs m' = m_dirs m"
  "fuse_File_Release cl h m = Some (e, m') \<Longrightarrow> m_dirs m' = m_dirs m"
  "fuse_File_Read cl len off h m = Some (rr, h', m') \<Longrightarrow> m_dirs m' = m_dirs m"
  by (auto simp: FileNode_Open_def fuse_File_Release_def fuse_File_Read_def with_mw_def
      split: bind_splits sum.splits if_splits)

lemmas fresh_ops =
  fresh_Rename fresh_Unlink fresh_Rmdir fresh_Mkdir fresh_Create fresh_Lookup fresh_Readdir fresh_Dir_Getattr
  fresh_FileNode_Getattr fresh_File_Setattr fresh_File_Write

lemma mount_step_fresh:
  assumes "mount_step cl cf s s'" "fresh cf (fst s) (snd s)"
  shows "fresh cf (fst s') (snd s')"
  using assms(1)
proof cases
  case (root_getattr clk rmode out d m ra m' g)
  then obtain r where "Dir_Getattr cl cf clk out d m = Some (r, m')"
    by (auto simp: StatDir_Getattr_def split: bind_splits)
  then show ?thesis using root_getattr fresh_Dir_Getattr assms(2) by fastforce
next
  case setattr
  then show ?thesis using fresh_node_Setattr assms(2) by (fastforce simp: Dir_Setattr_def)
next
  case node_setattr
  then show ?thesis using fresh_node_Setattr assms(2) by (fastforce simp: FileNode_Setattr_def)
next
  case open_file
  then show ?thesis using open_read_release_dirs(1) fresh_same assms(2) by (metis fst_conv snd_conv)
next
  case release
  then show ?thesis using open_read_release_dirs(2) fresh_same assms(2) by (metis fst_conv snd_conv)
next
  case file_read
  then show ?thesis using open_read_release_dirs(3) fresh_same assms(2) by (metis fst_conv snd_conv)
next
  case server
  then show ?thesis using assms(2) by (simp add: fresh_def)
qed (use assms(2) in \<open>auto intro: fresh_ops\<close>)

lemma mount_run_fresh:
  assumes "(mount_step cl cf)\<^sup>*\<^sup>* (new_root c w, \<lambda>_. None) s"
  shows "fresh cf (fst s) (snd s)"
  using assms
proof (induction rule: rtranclp_induct)
  case base
  show ?case by (simp add: fresh_def new_root_def new_Dir_def)
next
  case (step s s')
  then show ?case using mount_step_fresh by blast
qed

end
