(* ===== verification/Mount9p_Claims.thy ===== *)
theory Mount9p_Claims
  imports Mount9p_Props Union_Claims
begin

text \<open>
  Properties of cmd/mount9p: how old the listings it shows can be, and that the user id it makes up for
  strangers is unused.
\<close>

text \<open>
  C1: What a mount shows is current. In every run of the mount, while the server and other clients change
  the files, a listing of a directory consists of the entries of the last listing the server gave for it
  since the last successful change made through the directory or to an entry of it; and the server gave
  that listing in answer to this very call, or it had arrived no longer ago than the cache time.
\<close>

theorem mount_listing_current:
  assumes "(mount_step cl cf)\<^sup>*\<^sup>* (new_root c w, \<lambda>_. None) (m, g)" "d < length (m_dirs m)"
    "\<forall>k. 0 < clk k" "Dir_Readdir cl cf clk d m = Some (Inr entries, m')"
  shows "\<exists>stats t. observe cl clk d m g d = Some (stats, t) \<and> entries = dir_entries stats \<and>
    (t = clk 1 \<and> server_listing cl d m = Some stats \<or> clk 0 \<le> t + cf_CacheTTL cf)"
proof (cases "stale clk d m")
  case True
  let ?r = "m_dirs m ! d"
  from True assms(4) obtain stats w' where
    r: "cli_Readdir cl (fd_client ?r) (fd_path ?r) (m_w m) = Some (Inr stats, w')"
    by (auto simp: Dir_Readdir_def refresh_def stale_def with_mw_def Let_def split: bind_splits sum.splits)
  then have "server_listing cl d m = Some stats" by (simp add: server_listing_def)
  moreover have "entries = dir_entries stats"
    using True assms(2,4) r
    by (auto simp: Dir_Readdir_def refresh_def stale_def with_mw_def Let_def cached_def)
  ultimately show ?thesis using True by (simp add: observe_def)
next
  case False
  have "fresh cf m g" using mount_run_fresh [OF assms(1)] by simp
  moreover have "0 < fd_dirTTL (m_dirs m ! d)"
    using False assms(3) unfolding stale_def by (meson dual_order.strict_trans1 linorder_not_less)
  ultimately obtain stats t where g: "g d = Some (stats, t)" "fd_dirCache (m_dirs m ! d) = Some stats"
    "fd_dirTTL (m_dirs m ! d) = t + cf_CacheTTL cf"
    using assms(2) unfolding fresh_def by auto
  then show ?thesis
    using False assms(4) by (auto simp: observe_def stale_def Dir_Readdir_def refresh_def Let_def cached_def)
qed

definition sample_config :: config where
  "sample_config = \<lparr>cf_CacheTTL = 10, cf_ncTTL = 0, cf_unknownUID = 7, cf_unknownGID = 7, cf_authUser = ''glenda'',
     cf_sysUser = 1, cf_sysGroup = 1, cf_dio = False\<rparr>"

definition sample_listed :: "unit mount" where
  "sample_listed = (new_root 0 ())\<lparr>m_dirs := [(m_dirs (new_root 0 ()) ! 0)
     \<lparr>fd_dirCache := Some [sample_stat ''a'' DMDIR], fd_dirTTL := 11\<rparr>]\<rparr>"

theorem mount_listing_current_witness:
  "\<exists>g stats t. observe sample_clients (\<lambda>_. 5) 0 sample_listed g 0 = Some (stats, t) \<and>
     dir_entries stats = [(''a'', S_IFDIR)] \<and> 5 \<le> t + 10"
proof -
  let ?g = "observe sample_clients (\<lambda>_. 1) 0 (new_root 0 ()) (\<lambda>_. None)"
  have 1: "Dir_Readdir sample_clients sample_config (\<lambda>_. 1) 0 (new_root 0 ()) =
      Some (Inr [(''a'', S_IFDIR)], sample_listed)"
    by (simp add: Dir_Readdir_def refresh_def sample_listed_def new_root_def new_Dir_def with_mw_def sample_clients_def
        sample_ls_def sample_config_def Let_def cached_def dir_entries_def sample_stat_def)
  have "mount_step sample_clients sample_config (new_root 0 (), \<lambda>_. None) (sample_listed, ?g)"
    by (rule mount_step.readdir [OF 1]) simp
  then have "(mount_step sample_clients sample_config)\<^sup>*\<^sup>* (new_root 0 (), \<lambda>_. None) (sample_listed, ?g)"
    by (rule r_into_rtranclp)
  moreover have "Dir_Readdir sample_clients sample_config (\<lambda>_. 5) 0 sample_listed =
      Some (Inr [(''a'', S_IFDIR)], sample_listed)"
    by (simp add: Dir_Readdir_def refresh_def sample_listed_def new_root_def new_Dir_def Let_def cached_def
        dir_entries_def sample_stat_def)
  moreover have "0 < length (m_dirs sample_listed)" by (simp add: sample_listed_def)
  ultimately obtain stats t where "observe sample_clients (\<lambda>_. 5) 0 sample_listed ?g 0 = Some (stats, t)"
    "[(''a'', S_IFDIR)] = dir_entries stats" "(t = 5 \<or> 5 \<le> t + cf_CacheTTL sample_config)"
    using mount_listing_current [of sample_clients sample_config 0 "()" sample_listed ?g 0 "\<lambda>_. 5"] by fastforce
  then show ?thesis by (intro exI [of _ ?g] exI [of _ stats] exI [of _ t]) (auto simp: sample_config_def)
qed

text \<open>
  The id \<open>unusedUid\<close> finds is higher than those of all lines, unless it gave up with 0 or the ids leave
  no room.
\<close>

lemma highest_id_bounds:
  assumes "highest_id h lines = Some (Some h')"
  shows "h \<le> h' \<and> (\<forall>l \<in> set lines. \<exists>uid. Atoi (split_on CHR '':'' l ! 2) = Some uid \<and> uid \<le> h') \<and>
    (h' = h \<or> (\<exists>l \<in> set lines. Atoi (split_on CHR '':'' l ! 2) = Some h'))"
  using assms
proof (induction lines arbitrary: h)
  case (Cons l ls)
  from Cons.prems obtain uid where u: "Atoi (split_on CHR '':'' l ! 2) = Some uid"
    "highest_id (if uid > h then uid else h) ls = Some (Some h')"
    by (auto simp: Let_def split: if_splits option.splits)
  from Cons.IH [OF u(2)] u(1) show ?case by (auto split: if_splits)
qed simp

theorem unusedUid_is_unused:
  assumes "unusedUid (Some lines) = Some unused" "unused \<noteq> 0" "l \<in> set lines"
    "\<forall>l \<in> set lines. \<forall>uid. Atoi (split_on CHR '':'' l ! 2) = Some uid \<longrightarrow> uid < 2 ^ 32 - 1"
  shows "\<exists>uid. Atoi (split_on CHR '':'' l ! 2) = Some uid \<and> uid < uint unused"
proof -
  from assms(1,2) obtain h where h: "highest_id 0 lines = Some (Some h)" "unused = of_int (h + 1)"
    by (auto simp: unusedUid_def split: option.splits)
  note b = highest_id_bounds [OF h(1)]
  have "0 \<le> h + 1 \<and> h + 1 < 2 ^ 32" using b assms(4) by auto
  then have "uint unused = h + 1" unfolding h(2) by (subst uint_word_of_int) simp
  then show ?thesis using b assms(3) by fastforce
qed

end
