(* ===== verification/Real_Files.thy ===== *)
theory Real_Files
  imports Static_Store Go_Path Go_Crc
begin

text \<open>
  The files of the operating system as nodes of the file server: fs/real/dir.go, fs/real/file.go and
  fs/real/usergroup_nix.go, which cmd/export9p serves.

  The operating system is a record of the calls of Go's packages os and os/user that the code makes,
  over a state \<open>'w\<close>. The nodes are objects, addressed by their position in \<open>rs_nodes\<close>: every call of
  \<^verbatim>\<open>Parent\<close> and \<^verbatim>\<open>Children\<close> makes new ones. Open files are numbers. A buffer to read into can
  be allocated: the server asks for no more than a message holds.
\<close>

section \<open>The operating system\<close>

record FileInfo =
  in_Name :: string
  in_Size :: u64
  in_Mode :: u32
  in_ModTime :: u64
  in_Sys :: "(u32 \<times> u32) option"

definition in_IsDir :: "FileInfo \<Rightarrow> bool" where
  "in_IsDir info \<longleftrightarrow> in_Mode info AND DMDIR \<noteq> 0"

record 'w os =
  os_Stat :: "string \<Rightarrow> 'w \<Rightarrow> (go_error + FileInfo) \<times> 'w"
  os_Chmod :: "string \<Rightarrow> u32 \<Rightarrow> 'w \<Rightarrow> go_error option \<times> 'w"
  os_Truncate :: "string \<Rightarrow> u64 \<Rightarrow> 'w \<Rightarrow> go_error option \<times> 'w"
  os_Rename :: "string \<Rightarrow> string \<Rightarrow> 'w \<Rightarrow> go_error option \<times> 'w"
  os_Remove :: "string \<Rightarrow> 'w \<Rightarrow> go_error option \<times> 'w"
  os_Mkdir :: "string \<Rightarrow> u32 \<Rightarrow> 'w \<Rightarrow> go_error option \<times> 'w"
  os_Readdir :: "string \<Rightarrow> 'w \<Rightarrow> (go_error + FileInfo list) \<times> 'w"
  os_OpenFile :: "string \<Rightarrow> u32 \<Rightarrow> u32 \<Rightarrow> 'w \<Rightarrow> (go_error + nat) \<times> 'w"
  os_ReadAt :: "nat \<Rightarrow> nat \<Rightarrow> u64 \<Rightarrow> 'w \<Rightarrow> (bytes \<times> go_error option) \<times> 'w"
  os_WriteAt :: "nat \<Rightarrow> bytes \<Rightarrow> u64 \<Rightarrow> 'w \<Rightarrow> (nat \<times> go_error option) \<times> 'w"
  os_Close :: "nat \<Rightarrow> 'w \<Rightarrow> go_error option \<times> 'w"
  os_LookupId :: "string \<Rightarrow> 'w \<Rightarrow> (go_error + string) \<times> 'w"
  os_LookupGroupId :: "string \<Rightarrow> 'w \<Rightarrow> (go_error + string) \<times> 'w"

text \<open>What a method of a nil \<^verbatim>\<open>*os.File\<close> returns.\<close>

abbreviation (input) ErrInvalid :: go_error where
  "ErrInvalid \<equiv> ErrorString ''invalid argument''"

definition getUserGroup :: "'w os \<Rightarrow> FileInfo \<Rightarrow> 'w \<Rightarrow> (go_error + string \<times> string) \<times> 'w" where
  "getUserGroup os info w =
     (case in_Sys info of
        None \<Rightarrow> (Inl (ErrorString ''Cannot get system-specific info.''), w)
      | Some (uid, gid) \<Rightarrow>
          (case os_LookupId os (fmt_d (unat uid)) w of
             (Inl err, w) \<Rightarrow> (Inl (ErrorString (''Failed to lookup user: '' @ error_text err @ [char_of (10 :: nat)])), w)
           | (Inr u, w) \<Rightarrow>
               (case os_LookupGroupId os (fmt_d (unat gid)) w of
                  (Inl err, w) \<Rightarrow> (Inl (ErrorString (''Failed to lookup group: '' @ error_text err @ [char_of (10 :: nat)])), w)
                | (Inr g, w) \<Rightarrow> (Inr (u, g), w))))"

section \<open>Stats\<close>

definition empty_stat :: Stat where
  "empty_stat =
     \<lparr>st_Type = 0, st_Dev = 0, st_Qid = \<lparr>q_Qtype = 0, q_Vers = 0, q_Uid = 0\<rparr>, st_Mode = 0, st_Atime = 0,
      st_Mtime = 0, st_Length = 0, st_Name = [], st_Uid = [], st_Gid = [], st_Muid = []\<rparr>"

definition real_Stat :: "'w os \<Rightarrow> string \<Rightarrow> 'w \<Rightarrow> Stat \<times> 'w" where
  "real_Stat os path w =
     (case os_Stat os path w of
        (Inl err, w) \<Rightarrow> (empty_stat, w)
      | (Inr info, w) \<Rightarrow>
          (case getUserGroup os info w of
             (ug, w) \<Rightarrow>
               (let (u, g) = (case ug of Inl _ \<Rightarrow> (''?'', ''?'') | Inr ug \<Rightarrow> ug); mode = in_Mode info
                in (\<lparr>st_Type = 0, st_Dev = 0,
                     st_Qid = \<lparr>q_Qtype = ucast (drop_bit 24 mode), q_Vers = ucast (in_ModTime info), q_Uid = crc64 path\<rparr>,
                     st_Mode = mode, st_Atime = 0, st_Mtime = ucast (in_ModTime info), st_Length = in_Size info,
                     st_Name = in_Name info, st_Uid = u, st_Gid = g, st_Muid = []\<rparr>, w))))"

text \<open>\<^verbatim>\<open>WriteStat\<close> gives the error and the path the node has afterwards.\<close>

definition real_WriteStat :: "'w os \<Rightarrow> string \<Rightarrow> Stat \<Rightarrow> 'w \<Rightarrow> (go_error option \<times> string) \<times> 'w" where
  "real_WriteStat os path s w =
     (let (current, w) = real_Stat os path w in
      if st_Mode s \<noteq> st_Mode current then (let (e, w) = os_Chmod os path (st_Mode s) w in ((e, path), w))
      else if st_Length s \<noteq> st_Length current then (let (e, w) = os_Truncate os path (st_Length s) w in ((e, path), w))
      else if st_Name s \<noteq> st_Name current then
        (let newPath = filepath_Join (path_Dir path) (st_Name s); (e, w) = os_Rename os path newPath w
         in ((e, if e = None then newPath else path), w))
      else if st_Uid s \<noteq> st_Uid current then ((Some (ErrorString ''Owner change not implemented''), path), w)
      else if st_Gid s \<noteq> st_Gid current then ((Some (ErrorString ''Group change not implemented''), path), w)
      else ((None, path), w))"

section \<open>The nodes\<close>

datatype rnode = RDir string | RFile string "u64 \<rightharpoonup> nat"

primrec rn_Path :: "rnode \<Rightarrow> string" where
  "rn_Path (RDir path) = path"
| "rn_Path (RFile path opens) = path"

primrec rn_set_Path :: "string \<Rightarrow> rnode \<Rightarrow> rnode" where
  "rn_set_Path path (RDir _) = RDir path"
| "rn_set_Path path (RFile _ opens) = RFile path opens"

record 'w rstore =
  rs_nodes :: "rnode list"
  rs_w :: 'w

definition new_rnode :: "rnode \<Rightarrow> 'w rstore \<Rightarrow> nat \<times> 'w rstore" where
  "new_rnode n s = (length (rs_nodes s), s\<lparr>rs_nodes := rs_nodes s @ [n]\<rparr>)"

definition real_NewFile :: "string \<Rightarrow> rnode" where
  "real_NewFile path = RFile path Map.empty"

abbreviation (input) rpath :: "nat \<Rightarrow> 'w rstore \<Rightarrow> string" where
  "rpath n s \<equiv> rn_Path (rs_nodes s ! n)"

definition real_kind :: "nat \<Rightarrow> 'w rstore \<Rightarrow> kind" where
  "real_kind n s = (case rs_nodes s ! n of RDir _ \<Rightarrow> KDir | RFile _ _ \<Rightarrow> KFile)"

definition real_Parent :: "nat \<Rightarrow> 'w rstore \<Rightarrow> (nat option \<times> 'w rstore) option" where
  "real_Parent n s =
     (if rpath n s = ''/'' then Some (None, s)
      else let (p, s) = new_rnode (RDir (path_Dir (rpath n s))) s in Some (Some p, s))"

definition real_node_Stat :: "'w os \<Rightarrow> nat \<Rightarrow> 'w rstore \<Rightarrow> (Stat \<times> 'w rstore) option" where
  "real_node_Stat os n s = (let (st, w) = real_Stat os (rpath n s) (rs_w s) in Some (st, s\<lparr>rs_w := w\<rparr>))"

definition real_node_WriteStat :: "'w os \<Rightarrow> nat \<Rightarrow> Stat \<Rightarrow> 'w rstore \<Rightarrow> (go_error option \<times> 'w rstore) option" where
  "real_node_WriteStat os n st s =
     (let ((e, path), w) = real_WriteStat os (rpath n s) st (rs_w s)
      in Some (e, s\<lparr>rs_nodes := (rs_nodes s)[n := rn_set_Path path (rs_nodes s ! n)], rs_w := w\<rparr>))"

fun real_children :: "string \<Rightarrow> FileInfo list \<Rightarrow> (string \<times> nat) list \<Rightarrow> 'w rstore \<Rightarrow> (string \<times> nat) list \<times> 'w rstore" where
  "real_children path [] m s = (m, s)"
| "real_children path (info # infos) m s =
     (let child = filepath_Join path (in_Name info);
          (n, s) = new_rnode (if in_IsDir info then RDir child else real_NewFile child) s
      in real_children path infos (AList.update (in_Name info) n m) s)"

definition real_Children :: "'w os \<Rightarrow> nat \<Rightarrow> 'w rstore \<Rightarrow> ((string \<times> nat) list \<times> 'w rstore) option" where
  "real_Children os d s =
     (case os_Readdir os (rpath d s) (rs_w s) of
        (Inl err, w) \<Rightarrow> Some ([], s\<lparr>rs_w := w\<rparr>)
      | (Inr infos, w) \<Rightarrow> Some (real_children (rpath d s) infos [] (s\<lparr>rs_w := w\<rparr>)))"

text \<open>On Linux \<^verbatim>\<open>O_RDONLY\<close>, \<^verbatim>\<open>O_WRONLY\<close>, \<^verbatim>\<open>O_RDWR\<close>, \<^verbatim>\<open>O_CREATE\<close> and \<^verbatim>\<open>O_TRUNC\<close> are 0, 1, 2, 64 and 512.\<close>

definition real_convertFlag :: "Mode \<Rightarrow> u32" where
  "real_convertFlag mode =
     (let m = (if mode AND 0x0F = Oread then 0
               else if mode AND 0x0F = Owrite then 1
               else if mode AND 0x0F = Ordwr then 2
               else 0 :: u32)
      in if mode AND Otrunc > 0 then m OR 512 else m)"

definition set_opens :: "nat \<Rightarrow> (u64 \<rightharpoonup> nat) \<Rightarrow> 'w rstore \<Rightarrow> 'w rstore" where
  "set_opens n opens s = s\<lparr>rs_nodes := (rs_nodes s)[n := RFile (rpath n s) opens]\<rparr>"

definition real_opens :: "nat \<Rightarrow> 'w rstore \<Rightarrow> u64 \<rightharpoonup> nat" where
  "real_opens n s = (case rs_nodes s ! n of RFile _ opens \<Rightarrow> opens | RDir _ \<Rightarrow> Map.empty)"

definition real_Open :: "'w os \<Rightarrow> nat \<Rightarrow> u64 \<Rightarrow> Mode \<Rightarrow> 'w rstore \<Rightarrow> (go_error option \<times> 'w rstore) option" where
  "real_Open os n fid omode s =
     (case os_OpenFile os (rpath n s) (real_convertFlag omode) 0 (rs_w s) of
        (Inl err, w) \<Rightarrow> Some (Some err, s\<lparr>rs_w := w\<rparr>)
      | (Inr h, w) \<Rightarrow> Some (None, set_opens n ((real_opens n s)(fid \<mapsto> h)) (s\<lparr>rs_w := w\<rparr>)))"

definition real_Read :: "'w os \<Rightarrow> nat \<Rightarrow> u64 \<Rightarrow> u64 \<Rightarrow> u64 \<Rightarrow> 'w rstore \<Rightarrow> ((go_error + bytes) \<times> 'w rstore) option" where
  "real_Read os n fid offset cnt s =
     (let ((bs, err), w) =
        (case real_opens n s fid of
           None \<Rightarrow> (([], Some ErrInvalid), rs_w s)
         | Some h \<Rightarrow> os_ReadAt os h (unat cnt) offset (rs_w s))
      in Some (if bs \<noteq> [] then Inr bs
               else case err of None \<Rightarrow> Inr [] | Some e \<Rightarrow> if e = EOF then Inr [] else Inl e,
               s\<lparr>rs_w := w\<rparr>))"

definition real_Write :: "'w os \<Rightarrow> nat \<Rightarrow> u64 \<Rightarrow> u64 \<Rightarrow> bytes \<Rightarrow> 'w rstore \<Rightarrow> ((go_error + u32) \<times> 'w rstore) option" where
  "real_Write os n fid offset data s =
     (let ((k, err), w) =
        (case real_opens n s fid of
           None \<Rightarrow> ((0, Some ErrInvalid), rs_w s)
         | Some h \<Rightarrow> os_WriteAt os h data offset (rs_w s))
      in Some (case err of None \<Rightarrow> Inr (of_nat k) | Some e \<Rightarrow> Inl e, s\<lparr>rs_w := w\<rparr>))"

definition real_Close :: "'w os \<Rightarrow> nat \<Rightarrow> u64 \<Rightarrow> 'w rstore \<Rightarrow> (go_error option \<times> 'w rstore) option" where
  "real_Close os n fid s =
     (let (e, w) =
        (case real_opens n s fid of
           None \<Rightarrow> (Some ErrInvalid, rs_w s)
         | Some h \<Rightarrow> os_Close os h (rs_w s))
      in Some (e, set_opens n ((real_opens n s)(fid := None)) (s\<lparr>rs_w := w\<rparr>)))"

definition real_ops :: "'w os \<Rightarrow> ('w rstore, nat) fsops" where
  "real_ops os =
     \<lparr>op_kind = real_kind, op_Stat = real_node_Stat os, op_WriteStat = real_node_WriteStat os,
      op_Parent = real_Parent, op_Children = real_Children os, op_AddChild = (\<lambda>_ _ _. None),
      op_Open = real_Open os, op_Read = real_Read os, op_Write = real_Write os, op_Close = real_Close os\<rparr>"

lemma real_ops_sel [simp]:
  "op_kind (real_ops os) = real_kind" "op_Stat (real_ops os) = real_node_Stat os"
  "op_Parent (real_ops os) = real_Parent"
  by (simp_all add: real_ops_def)

section \<open>The hooks\<close>

definition real_CreateFile :: "'w os \<Rightarrow> ('w rstore, nat) create_hook" where
  "real_CreateFile os parent user name perm mode s = do {
     (fp, s) \<leftarrow> FullPath (real_ops os) (Some parent) s;
     let fullPath = filepath_Join fp name;
     (case os_OpenFile os fullPath 64 perm (rs_w s) of
        (Inl err, w) \<Rightarrow> Some (Inl err, s\<lparr>rs_w := w\<rparr>)
      | (Inr h, w) \<Rightarrow>
          (let (n, s) = new_rnode (real_NewFile fullPath) s; (_, w) = os_Close os h w
           in Some (Inr (Some n), s\<lparr>rs_w := w\<rparr>)))
   }"

definition real_CreateDir :: "'w os \<Rightarrow> ('w rstore, nat) create_hook" where
  "real_CreateDir os parent user name perm mode s = do {
     (fp, s) \<leftarrow> FullPath (real_ops os) (Some parent) s;
     let fullPath = filepath_Join fp name;
     (case os_Mkdir os fullPath perm (rs_w s) of
        (Some err, w) \<Rightarrow> Some (Inl err, s\<lparr>rs_w := w\<rparr>)
      | (None, w) \<Rightarrow> (let (n, s) = new_rnode (RDir fullPath) (s\<lparr>rs_w := w\<rparr>) in Some (Inr (Some n), s)))
   }"

definition real_Remove :: "'w os \<Rightarrow> nat \<Rightarrow> 'w rstore \<Rightarrow> (go_error option \<times> 'w rstore) option" where
  "real_Remove os f s = do {
     (fp, s) \<leftarrow> FullPath (real_ops os) (Some f) s;
     (let (e, w) = os_Remove os fp (rs_w s) in Some (e, s\<lparr>rs_w := w\<rparr>))
   }"

text \<open>The file system that cmd/export9p serves for a directory.\<close>

definition exportFS :: "'w os \<Rightarrow> bool \<Rightarrow> ('w rstore, nat) FS" where
  "exportFS os noperm =
     \<lparr>fs_Root = 0, fs_CreateFile = Some (real_CreateFile os), fs_CreateDir = Some (real_CreateDir os),
      fs_WalkFail = None, fs_RemoveFile = Some (real_Remove os), fs_ignorePerms = noperm, fs_authFile = None\<rparr>"

definition export_store :: "string \<Rightarrow> 'w \<Rightarrow> 'w rstore" where
  "export_store dir w = \<lparr>rs_nodes = [RDir dir], rs_w = w\<rparr>"

end
