(* ===== verification/Real_Props.thy ===== *)
theory Real_Props
  imports Real_Files "HOL-Library.Sublist"
begin

text \<open>
  The paths of the nodes of fs/real: \<^verbatim>\<open>FullPath\<close>, which the hooks use, finds the path of a node
  again, so that they act on the file the node stands for.
\<close>

section \<open>Rooted paths\<close>

definition good_name :: "string \<Rightarrow> bool" where
  "good_name p \<longleftrightarrow> p \<noteq> [] \<and> slash \<notin> set p \<and> p \<noteq> ''.'' \<and> p \<noteq> ''..''"

definition abs_path :: "string list \<Rightarrow> string" where
  "abs_path ps = slash # join_with slash ps"

lemma split_on_append: "c \<notin> set p \<Longrightarrow> split_on c (p @ c # s) = p # split_on c s"
  by (induction p) auto

lemma split_on_single: "c \<notin> set p \<Longrightarrow> split_on c p = [p]"
  by (induction p) auto

lemma split_join:
  assumes "\<forall>p \<in> set ps. slash \<notin> set p" "ps \<noteq> []"
  shows "split_on slash (join_with slash ps) = ps"
  using assms by (induction slash ps rule: join_with.induct) (auto simp: split_on_append split_on_single)

lemma join_snoc: "ps \<noteq> [] \<Longrightarrow> join_with c (ps @ [p]) = join_with c ps @ c # p"
  by (induction c ps rule: join_with.induct) auto

lemma clean_good:
  "\<forall>p \<in> set ps. p = [] \<or> good_name p \<Longrightarrow> clean_parts r out ps = rev out @ filter (\<lambda>p. p \<noteq> []) ps"
  by (induction ps arbitrary: out) (auto simp: good_name_def)

lemma filter_good: "\<forall>p \<in> set ps. good_name p \<Longrightarrow> filter (\<lambda>p. p \<noteq> []) ps = ps"
  by (simp add: filter_id_conv good_name_def)

lemma clean_abs:
  assumes "\<forall>p \<in> set ps. good_name p"
  shows "path_Clean (slash # slash # join_with slash ps) = abs_path ps" "path_Clean (abs_path ps) = abs_path ps"
    "ps \<noteq> [] \<Longrightarrow> path_Clean (abs_path ps @ [slash]) = abs_path ps"
proof -
  have s: "\<forall>p \<in> set ps. slash \<notin> set p" using assms by (simp add: good_name_def)
  have c: "\<forall>p \<in> set ps. p = [] \<or> good_name p" using assms by blast
  note clean = path_Clean_def is_rooted_def abs_path_def split_join [OF s] clean_good [OF c] filter_good [OF assms]
  show "path_Clean (slash # slash # join_with slash ps) = abs_path ps" by (cases "ps = []") (simp_all add: clean)
  show "path_Clean (abs_path ps) = abs_path ps" by (cases "ps = []") (simp_all add: clean)
  show "path_Clean (abs_path ps @ [slash]) = abs_path ps" if "ps \<noteq> []"
  proof -
    have "split_on slash (join_with slash ps @ [slash]) = split_on slash (join_with slash (ps @ [[]]))"
      using that by (simp add: join_snoc)
    also have "\<dots> = ps @ [[]]" by (rule split_join) (use s in auto)
    finally show ?thesis
      using that c by (simp add: path_Clean_def is_rooted_def abs_path_def clean_good filter_good [OF assms])
  qed
qed

lemma Join_abs:
  assumes "\<forall>p \<in> set ps. good_name p" "good_name p"
  shows "filepath_Join (abs_path ps) p = abs_path (ps @ [p])"
proof (cases "ps = []")
  case True
  then show ?thesis
    using clean_abs(1) [of "[p]"] assms(2) by (simp add: filepath_Join_def good_name_def abs_path_def)
next
  case False
  then show ?thesis
    using clean_abs(2) [of "ps @ [p]"] assms by (simp add: filepath_Join_def good_name_def abs_path_def join_snoc)
qed

lemma Dir_abs:
  assumes "\<forall>p \<in> set ps. good_name p" "good_name p"
  shows "path_Dir (abs_path (ps @ [p])) = abs_path ps"
proof -
  have p: "\<forall>x \<in> set (rev p). x \<noteq> slash" using assms(2) by (auto simp: good_name_def)
  have "dropWhile (\<lambda>x. x \<noteq> slash) (rev p @ slash # xs) = slash # xs" for xs
    using p by (subst dropWhile_append2) auto
  moreover have "rev (abs_path (ps @ [p])) = rev p @ slash # (if ps = [] then [] else rev (abs_path ps))"
    by (simp add: abs_path_def join_snoc)
  ultimately show ?thesis
    using clean_abs(2,3) [OF assms(1)] by (auto simp: path_Dir_def abs_path_def)
qed

lemma collapse_no_double: "slash \<notin> set p \<Longrightarrow> p \<noteq> [] \<Longrightarrow> collapse_slashes (p @ r) = p @ collapse_slashes r"
proof (induction p)
  case (Cons a p)
  then show ?case by (cases p; cases r) auto
qed simp

lemma collapse_plain: "slash \<notin> set p \<Longrightarrow> collapse_slashes p = p"
  by (induction p rule: collapse_slashes.induct) auto

lemma collapse_abs:
  assumes "\<forall>p \<in> set ps. good_name p"
  shows "collapse_slashes (abs_path ps) = abs_path ps"
  using assms unfolding abs_path_def
proof (induction ps)
  case (Cons p ps)
  then obtain a q where p: "p = a # q" "a \<noteq> slash" "slash \<notin> set q" by (cases p) (auto simp: good_name_def)
  show ?case
  proof (cases ps)
    case Nil
    then show ?thesis using p collapse_plain [of "a # q"] by simp
  next
    case (Cons p' ps')
    have "collapse_slashes (a # q @ slash # join_with slash ps) = a # q @ collapse_slashes (slash # join_with slash ps)"
      using collapse_no_double [of "a # q" "slash # join_with slash ps"] p by simp
    then show ?thesis using Cons.IH Cons.prems p \<open>ps = p' # ps'\<close> by simp
  qed
qed simp

section \<open>Finding the path of a node\<close>

text \<open>Asking the operating system for stats and users changes nothing.\<close>

definition quiet :: "'w os \<Rightarrow> bool" where
  "quiet os \<longleftrightarrow> (\<forall>x w. snd (os_Stat os x w) = w \<and> snd (os_LookupId os x w) = w \<and> snd (os_LookupGroupId os x w) = w)"

text \<open>The path exists, and the operating system calls it by its last element.\<close>

definition exists_at :: "'w os \<Rightarrow> 'w \<Rightarrow> string list \<Rightarrow> bool" where
  "exists_at os w ps \<longleftrightarrow>
     (\<exists>info. fst (os_Stat os (abs_path ps) w) = Inr info \<and> in_Name info = (if ps = [] then ''/'' else last ps))"

lemma getUserGroup_quiet: "quiet os \<Longrightarrow> snd (getUserGroup os info w) = w"
  unfolding quiet_def getUserGroup_def
  by (auto split: option.splits prod.splits sum.splits) (metis snd_conv)+

lemma real_Stat_named:
  assumes "quiet os" "exists_at os w ps"
  shows "\<exists>st. real_Stat os (abs_path ps) w = (st, w) \<and> st_Name st = (if ps = [] then ''/'' else last ps)"
proof -
  from assms(2) obtain info where "fst (os_Stat os (abs_path ps) w) = Inr info"
    and n: "in_Name info = (if ps = [] then ''/'' else last ps)" by (auto simp: exists_at_def)
  then have s: "os_Stat os (abs_path ps) w = (Inr info, w)"
    using assms(1) unfolding quiet_def by (metis prod.collapse)
  obtain ug where "getUserGroup os info w = (ug, w)"
    using getUserGroup_quiet [OF assms(1)] by (metis prod.collapse)
  then show ?thesis using s n by (auto simp: real_Stat_def Let_def split: prod.splits)
qed

text \<open>The walk up through the parents makes new nodes and changes nothing else.\<close>

lemma real_FullPath:
  assumes "quiet os" "\<forall>p \<in> set ps. good_name p" "\<forall>k \<le> length ps. exists_at os (rs_w s) (take k ps)"
    "n < length (rs_nodes s)" "rn_Path (rs_nodes s ! n) = abs_path ps"
  shows "\<exists>s'. FullPath (real_ops os) (Some n) s = Some (abs_path ps, s') \<and> rs_w s' = rs_w s \<and>
    prefix (rs_nodes s) (rs_nodes s')"
  using assms(2-)
proof (induction ps arbitrary: n s rule: rev_induct)
  case Nil
  have "exists_at os (rs_w s) []" using Nil.prems(2) by simp
  from real_Stat_named [OF assms(1) this] Nil.prems(4) show ?case
    by (subst FullPath.simps) (auto simp: real_Parent_def real_node_Stat_def abs_path_def)
next
  case (snoc p ps)
  have good: "\<forall>p \<in> set ps. good_name p" "good_name p" using snoc.prems(1) by simp_all
  have path: "rn_Path (rs_nodes s ! n) = abs_path (ps @ [p])" by (rule snoc.prems(4))
  have root: "abs_path (ps @ [p]) \<noteq> ''/''"
    using good(2) by (cases "ps = []") (simp_all add: abs_path_def good_name_def join_snoc)
  define s1 where "s1 = s\<lparr>rs_nodes := rs_nodes s @ [RDir (abs_path ps)]\<rparr>"
  have parent: "real_Parent n s = Some (Some (length (rs_nodes s)), s1)"
    using path root Dir_abs [OF good] by (simp add: real_Parent_def new_rnode_def s1_def)
  have "exists_at os (rs_w s) (take k ps)" if "k \<le> length ps" for k
    using snoc.prems(2) [rule_format, of k] that by simp
  then have "\<forall>k \<le> length ps. exists_at os (rs_w s1) (take k ps)" by (simp add: s1_def)
  from snoc.IH [OF good(1) this, of "length (rs_nodes s)"] obtain s2
    where f: "FullPath (real_ops os) (Some (length (rs_nodes s))) s1 = Some (abs_path ps, s2)"
      "rs_w s2 = rs_w s" "prefix (rs_nodes s1) (rs_nodes s2)"
    by (auto simp: s1_def)
  have pre: "prefix (rs_nodes s) (rs_nodes s2)" using f(3) by (auto simp: s1_def prefix_def)
  then have n2: "rs_nodes s2 ! n = rs_nodes s ! n" using snoc.prems(3) by (auto simp: prefix_def nth_append)
  have "exists_at os (rs_w s) (ps @ [p])" using snoc.prems(2) by (auto dest: spec [of _ "Suc (length ps)"])
  from real_Stat_named [OF assms(1) this] obtain st
    where st: "real_Stat os (abs_path (ps @ [p])) (rs_w s) = (st, rs_w s)" "st_Name st = p" by auto
  have "collapse_slashes (abs_path ps @ slash # p) = abs_path (ps @ [p])"
  proof (cases "ps = []")
    case True
    then show ?thesis using collapse_plain [of p] good(2) by (simp add: abs_path_def good_name_def)
  next
    case False
    then show ?thesis using collapse_abs [of "ps @ [p]"] snoc.prems(1) by (simp add: abs_path_def join_snoc)
  qed
  then show ?case
    using parent f st n2 path pre by (subst FullPath.simps) (simp add: real_node_Stat_def)
qed

end
