(* ===== verification/Real_Claims.thy ===== *)
theory Real_Claims
  imports Real_Props
begin

text \<open>
  Properties of the files of the operating system as fs/real serves them: the hooks act on the file a node
  stands for, and walking up leads out of the exported directory.
\<close>

text \<open>
  C1: The create and remove hooks act in the right place. For a node of an existing absolute path, on an
  operating system on which asking for stats changes nothing and which calls a file by the last element
  of its path, \<open>Remove\<close> removes just that path, and \<open>CreateFile\<close> and \<open>CreateDir\<close> create just the
  path of the new name in it; each fails just when the operating system does.
\<close>

theorem export_hooks_in_place:
  assumes "quiet os" "\<forall>p \<in> set ps. good_name p" "good_name name"
    "\<forall>k \<le> length ps. exists_at os (rs_w s) (take k ps)"
    "n < length (rs_nodes s)" "rn_Path (rs_nodes s ! n) = abs_path ps"
  shows "(\<exists>s'. real_Remove os n s = Some (fst (os_Remove os (abs_path ps) (rs_w s)), s') \<and>
       rs_w s' = snd (os_Remove os (abs_path ps) (rs_w s))) \<and>
    (\<exists>r s'. real_CreateDir os n user name perm mode s = Some (r, s') \<and>
       (\<forall>e. r = Inl e \<longleftrightarrow> fst (os_Mkdir os (abs_path (ps @ [name])) perm (rs_w s)) = Some e) \<and>
       rs_w s' = snd (os_Mkdir os (abs_path (ps @ [name])) perm (rs_w s))) \<and>
    (\<exists>r s'. real_CreateFile os n user name perm mode s = Some (r, s') \<and>
       (case os_OpenFile os (abs_path (ps @ [name])) 64 perm (rs_w s) of
          (Inl e, w) \<Rightarrow> r = Inl e \<and> rs_w s' = w
        | (Inr h, w) \<Rightarrow> (\<exists>f. r = Inr (Some f) \<and> rs_nodes s' ! f = real_NewFile (abs_path (ps @ [name]))) \<and>
            rs_w s' = snd (os_Close os h w)))"
proof -
  from real_FullPath [OF assms(1,2,4-6)] obtain s1 where f: "FullPath (real_ops os) (Some n) s = Some (abs_path ps, s1)"
    "rs_w s1 = rs_w s" by blast
  note j = Join_abs [OF assms(2,3)]
  show ?thesis
    using f j
    by (auto simp: real_Remove_def real_CreateDir_def real_CreateFile_def new_rnode_def Let_def
        split: prod.splits sum.splits option.splits)
qed

text \<open>An operating system with one directory, in which nothing can be changed.\<close>

definition sample_os :: "unit os" where
  "sample_os =
     \<lparr>os_Stat = (\<lambda>path w. (Inr \<lparr>in_Name = path_Base path, in_Size = 0, in_Mode = DMDIR, in_ModTime = 0, in_Sys = None\<rparr>, w)),
      os_Chmod = (\<lambda>_ _ w. (Some ErrInvalid, w)), os_Truncate = (\<lambda>_ _ w. (Some ErrInvalid, w)),
      os_Rename = (\<lambda>_ _ w. (Some ErrInvalid, w)), os_Remove = (\<lambda>_ w. (Some ErrInvalid, w)),
      os_Mkdir = (\<lambda>_ _ w. (None, w)), os_Readdir = (\<lambda>_ w. (Inr [], w)),
      os_OpenFile = (\<lambda>_ _ _ w. (Inr 3, w)), os_ReadAt = (\<lambda>_ _ _ w. (([], Some EOF), w)),
      os_WriteAt = (\<lambda>_ _ _ w. ((0, Some ErrInvalid), w)), os_Close = (\<lambda>_ w. (None, w)),
      os_LookupId = (\<lambda>_ w. (Inl ErrInvalid, w)), os_LookupGroupId = (\<lambda>_ w. (Inl ErrInvalid, w))\<rparr>"

theorem export_hooks_in_place_witness:
  "\<exists>r s' f. real_CreateFile sample_os 0 ''rob'' ''new'' 0 0 (export_store ''/tmp'' ()) = Some (r, s') \<and>
     r = Inr (Some f) \<and> rs_nodes s' ! f = real_NewFile ''/tmp/new''"
proof -
  have "exists_at sample_os () []" "exists_at sample_os () [''tmp'']"
    by (simp_all add: exists_at_def sample_os_def abs_path_def path_Base_def)
  then have e: "\<forall>k \<le> length [''tmp'']. exists_at sample_os (rs_w (export_store ''/tmp'' ())) (take k [''tmp''])"
    by (auto simp: le_Suc_eq)
  have "quiet sample_os" by (simp add: quiet_def sample_os_def)
  moreover have "\<forall>p \<in> set [''tmp'']. good_name p" "good_name ''new''" by (simp_all add: good_name_def)
  ultimately show ?thesis
    using export_hooks_in_place [of sample_os "[''tmp'']" "''new''" "export_store ''/tmp'' ()" 0 "''rob''" 0 0, OF _ _ _ e]
    by (auto simp: export_store_def abs_path_def sample_os_def)
qed

text \<open>
  C1: A client of cmd/export9p is not confined to the exported directory: unless that is the root of the
  file system, a walk to \<^verbatim>\<open>..\<close> from the root of the export succeeds and gives the client a fid for
  the directory above it.
\<close>

theorem export_root_escapes:
  assumes "c_fids c (twk_Fid t) = Some info" "fi_n info = fs_Root (exportFS os noperm)" "twk_Nwname t > 0"
    "twk_Wname t = ''..'' # names" "dir \<noteq> ''/''"
  shows "\<exists>qid c' s' i.
    srv_Walk (real_ops os) (exportFS os noperm) t c (export_store dir w) =
      reply (mk_RWalk (h_Tag (twk_Header t)) [qid]) c' s' \<and>
    c_fids c' (twk_Newfid t) = Some i \<and> fi_uname i = fi_uname info \<and> rs_nodes s' ! fi_n i = RDir (path_Dir dir)"
proof -
  let ?c = "fids_Store (twk_Newfid t) (deriveInfo info 1) c"
  let ?s = "(export_store dir w)\<lparr>rs_nodes := [RDir dir, RDir (path_Dir dir)]\<rparr>"
  obtain st w' where st: "real_Stat os (path_Dir dir) w = (st, w')" by fastforce
  have p: "real_Parent 0 (export_store dir w) = Some (Some 1, ?s)"
    using assms(5) by (simp add: real_Parent_def export_store_def new_rnode_def)
  have "srv_Walk (real_ops os) (exportFS os noperm) t c (export_store dir w) =
      reply (mk_RWalk (h_Tag (twk_Header t)) [st_Qid st]) ?c (?s\<lparr>rs_w := w'\<rparr>)"
    using assms(1-4) p st by (simp add: srv_Walk_def Let_def exportFS_def real_node_Stat_def export_store_def)
  moreover have "c_fids ?c (twk_Newfid t) = Some (deriveInfo info 1)" "fi_uname (deriveInfo info 1) = fi_uname info"
    "rs_nodes (?s\<lparr>rs_w := w'\<rparr>) ! fi_n (deriveInfo info (1 :: nat)) = RDir (path_Dir dir)"
    by (simp_all add: fids_Store_def deriveInfo_def)
  ultimately show ?thesis by blast
qed

definition sample_conn :: "nat conn" where
  "sample_conn = fids_Store 1 (newFidInfo ''rob'' 0) (fst (NewConn \<lparr>sv_currConnId = 0\<rparr>))"

definition sample_walk :: TWalk where
  "sample_walk = \<lparr>twk_Header = \<lparr>h_Type = Twalk, h_Tag = 5\<rparr>, twk_Fid = 1, twk_Newfid = 2, twk_Nwname = 1, twk_Wname = [''..'']\<rparr>"

theorem export_root_escapes_witness:
  "\<exists>qid c' s' i.
    srv_Walk (real_ops sample_os) (exportFS sample_os False) sample_walk sample_conn (export_store ''/srv/files'' ()) =
      reply (mk_RWalk 5 [qid]) c' s' \<and>
    c_fids c' 2 = Some i \<and> fi_uname i = ''rob'' \<and> rs_nodes s' ! fi_n i = RDir ''/srv''"
proof -
  have "path_Dir ''/srv/files'' = ''/srv''" by code_simp
  then show ?thesis
    using export_root_escapes [of sample_conn sample_walk "newFidInfo ''rob'' 0" sample_os False "[]" "''/srv/files''" "()"]
    by (simp add: sample_conn_def sample_walk_def fids_Store_def newFidInfo_def exportFS_def)
qed

end
