(* ===== verification/Fs_Extras.thy ===== *)
theory Fs_Extras
  imports Static_Store
begin

text \<open>
  Helpers of package fs for programs that write their own nodes: \<^verbatim>\<open>BaseNode\<close> and the password
  check \<^verbatim>\<open>PlainAuth\<close> of fs/filesystem.go, and \<^verbatim>\<open>WrappedFile\<close> of fs/dynamic.go.
\<close>

section \<open>BaseNode\<close>

record 'n BaseNode =
  bn_FStat :: Stat
  bn_FParent :: "'n option"

definition BaseNode_Stat :: "'n BaseNode \<Rightarrow> Stat" where
  "BaseNode_Stat n = bn_FStat n"

definition BaseNode_WriteStat :: "Stat \<Rightarrow> 'n BaseNode \<Rightarrow> go_error option \<times> 'n BaseNode" where
  "BaseNode_WriteStat s n = (Some (ErrorString ''Attributes are read only''), n)"

definition BaseNode_SetParent :: "'n option \<Rightarrow> 'n BaseNode \<Rightarrow> 'n BaseNode" where
  "BaseNode_SetParent d n = n"

definition BaseNode_Parent :: "'n BaseNode \<Rightarrow> 'n option" where
  "BaseNode_Parent n = bn_FParent n"

definition NewBaseNode ::
    "'n option \<Rightarrow> string \<Rightarrow> string \<Rightarrow> string \<Rightarrow> u32 \<Rightarrow> store \<Rightarrow> 'n BaseNode \<times> store" where
  "NewBaseNode parent name uid gid mode s =
     (let (st, s) = NewStat name uid gid mode s in (\<lparr>bn_FStat = st, bn_FParent = parent\<rparr>, s))"

section \<open>WrappedFile\<close>

text \<open>The methods of the interface \<^verbatim>\<open>File\<close> that a wrapper can replace, over a state.\<close>

record 's file_methods =
  fm_Open :: "u64 \<Rightarrow> Mode \<Rightarrow> 's \<Rightarrow> (go_error option \<times> 's) option"
  fm_Read :: "u64 \<Rightarrow> u64 \<Rightarrow> u64 \<Rightarrow> 's \<Rightarrow> ((go_error + bytes) \<times> 's) option"
  fm_Write :: "u64 \<Rightarrow> u64 \<Rightarrow> bytes \<Rightarrow> 's \<Rightarrow> ((go_error + u32) \<times> 's) option"
  fm_Close :: "u64 \<Rightarrow> 's \<Rightarrow> (go_error option \<times> 's) option"

record 's WrappedFile =
  wf_File :: "'s file_methods"
  wf_OpenF :: "(u64 \<Rightarrow> Mode \<Rightarrow> 's \<Rightarrow> (go_error option \<times> 's) option) option"
  wf_ReadF :: "(u64 \<Rightarrow> u64 \<Rightarrow> u64 \<Rightarrow> 's \<Rightarrow> ((go_error + bytes) \<times> 's) option) option"
  wf_WriteF :: "(u64 \<Rightarrow> u64 \<Rightarrow> bytes \<Rightarrow> 's \<Rightarrow> ((go_error + u32) \<times> 's) option) option"
  wf_CloseF :: "(u64 \<Rightarrow> 's \<Rightarrow> (go_error option \<times> 's) option) option"

definition WrappedFile_Open :: "'s WrappedFile \<Rightarrow> u64 \<Rightarrow> Mode \<Rightarrow> 's \<Rightarrow> (go_error option \<times> 's) option" where
  "WrappedFile_Open f fid omode s =
     (case wf_OpenF f of Some openF \<Rightarrow> openF fid omode s | None \<Rightarrow> fm_Open (wf_File f) fid omode s)"

definition WrappedFile_Read :: "'s WrappedFile \<Rightarrow> u64 \<Rightarrow> u64 \<Rightarrow> u64 \<Rightarrow> 's \<Rightarrow> ((go_error + bytes) \<times> 's) option" where
  "WrappedFile_Read f fid offset cnt s =
     (case wf_ReadF f of Some readF \<Rightarrow> readF fid offset cnt s | None \<Rightarrow> fm_Read (wf_File f) fid offset cnt s)"

definition WrappedFile_Write :: "'s WrappedFile \<Rightarrow> u64 \<Rightarrow> u64 \<Rightarrow> bytes \<Rightarrow> 's \<Rightarrow> ((go_error + u32) \<times> 's) option" where
  "WrappedFile_Write f fid offset data s =
     (case wf_WriteF f of Some writeF \<Rightarrow> writeF fid offset data s | None \<Rightarrow> fm_Write (wf_File f) fid offset data s)"

definition WrappedFile_Close :: "'s WrappedFile \<Rightarrow> u64 \<Rightarrow> 's \<Rightarrow> (go_error option \<times> 's) option" where
  "WrappedFile_Close f fid s =
     (case wf_CloseF f of Some closeF \<Rightarrow> closeF fid s | None \<Rightarrow> fm_Close (wf_File f) fid s)"

text \<open>A wrapper that replaces nothing is the file itself, and wrapping it again replaces only what the outer wrapper sets.\<close>

definition wrapped_methods :: "'s WrappedFile \<Rightarrow> 's file_methods" where
  "wrapped_methods f =
     \<lparr>fm_Open = WrappedFile_Open f, fm_Read = WrappedFile_Read f, fm_Write = WrappedFile_Write f, fm_Close = WrappedFile_Close f\<rparr>"

lemma wrapped_nothing:
  "wrapped_methods \<lparr>wf_File = f, wf_OpenF = None, wf_ReadF = None, wf_WriteF = None, wf_CloseF = None\<rparr> = f"
  by (simp add: wrapped_methods_def WrappedFile_Open_def [abs_def] WrappedFile_Read_def [abs_def]
      WrappedFile_Write_def [abs_def] WrappedFile_Close_def [abs_def])

lemma wrapped_twice:
  "wrapped_methods (f\<lparr>wf_File := wrapped_methods g\<rparr>) =
     wrapped_methods \<lparr>wf_File = wf_File g,
       wf_OpenF = (case wf_OpenF f of None \<Rightarrow> wf_OpenF g | h \<Rightarrow> h),
       wf_ReadF = (case wf_ReadF f of None \<Rightarrow> wf_ReadF g | h \<Rightarrow> h),
       wf_WriteF = (case wf_WriteF f of None \<Rightarrow> wf_WriteF g | h \<Rightarrow> h),
       wf_CloseF = (case wf_CloseF f of None \<Rightarrow> wf_CloseF g | h \<Rightarrow> h)\<rparr>"
  by (auto simp: wrapped_methods_def WrappedFile_Open_def fun_eq_iff WrappedFile_Read_def
      WrappedFile_Write_def WrappedFile_Close_def split: option.split)

section \<open>PlainAuth\<close>

text \<open>The password check that \<^verbatim>\<open>PlainAuth\<close> hands to the SASL server.\<close>

definition plain_check :: "(string \<rightharpoonup> string) \<Rightarrow> string \<Rightarrow> string \<Rightarrow> string \<Rightarrow> go_error option" where
  "plain_check userpass identity username password =
     (if identity \<noteq> username then Some (ErrorString ''Identity and Username must match.'')
      else case userpass username of
        None \<Rightarrow> Some (ErrorString ''No such user (TODO: make sure this does not go to client)'')
      | Some pass \<Rightarrow>
          if pass \<noteq> password
          then Some (ErrorString ''FAILED PASSWORD  (TODO: make sure this does not go to client)'')
          else None)"

text \<open>
  The loop of \<^verbatim>\<open>PlainAuth\<close>. \<open>next\<close> is \<^verbatim>\<open>Next\<close> of the SASL server of the package
  github.com/emersion/go-sasl, made for the check; \<open>rd\<close> and \<open>wr\<close> are the authentication file. It may
  go on for as long as the client sends challenges that do not end the dialogue.
\<close>

partial_function (option) plain_loop ::
    "('q \<Rightarrow> bytes \<Rightarrow> (go_error + bytes \<times> bool) \<times> 'q) \<Rightarrow> (nat \<Rightarrow> 's \<Rightarrow> (go_error + bytes) \<times> 's) \<Rightarrow> (bytes \<Rightarrow> 's \<Rightarrow> 's) \<Rightarrow>
       'q \<Rightarrow> 's \<Rightarrow> ((go_error + string) \<times> 's) option" where
  "plain_loop nxt rd wr auth s =
     (case rd 4096 s of
        (Inl err, s) \<Rightarrow> Some (Inl err, s)
      | (Inr bs, s) \<Rightarrow>
          (case nxt auth bs of
             (Inl err, auth) \<Rightarrow> Some (Inl err, s)
           | (Inr (challenge, done), auth) \<Rightarrow>
               if done then Some (Inr ''TODO'', s) else plain_loop nxt rd wr auth (wr challenge s)))"

definition PlainAuth ::
    "((string \<Rightarrow> string \<Rightarrow> string \<Rightarrow> go_error option) \<Rightarrow> 'q) \<Rightarrow> ('q \<Rightarrow> bytes \<Rightarrow> (go_error + bytes \<times> bool) \<times> 'q) \<Rightarrow>
       (nat \<Rightarrow> 's \<Rightarrow> (go_error + bytes) \<times> 's) \<Rightarrow> (bytes \<Rightarrow> 's \<Rightarrow> 's) \<Rightarrow> (string \<rightharpoonup> string) \<Rightarrow> 's \<Rightarrow> ((go_error + string) \<times> 's) option" where
  "PlainAuth newPlainServer nxt rd wr userpass s = plain_loop nxt rd wr (newPlainServer (plain_check userpass)) s"

text \<open>
  Whoever passes gets the same name, and nobody passes unless the SASL server has declared the dialogue
  done.
\<close>

lemma plain_loop_name:
  fixes nxt :: "'q \<Rightarrow> bytes \<Rightarrow> (go_error + bytes \<times> bool) \<times> 'q" and s :: 's
  assumes "plain_loop nxt rd wr auth s = Some (Inr user, s')"
  shows "user = ''TODO'' \<and> (\<exists>auth bs challenge auth'. nxt auth bs = (Inr (challenge, True), auth'))"
proof -
  define P where "P = (\<lambda>nxt :: 'q \<Rightarrow> bytes \<Rightarrow> (go_error + bytes \<times> bool) \<times> 'q. \<lambda>r :: (go_error + string) \<times> 's.
    \<forall>user. fst r = Inr user \<longrightarrow>
      user = ''TODO'' \<and> (\<exists>auth bs challenge auth'. nxt auth bs = (Inr (challenge, True), auth')))"
  have "P nxt (Inr user, s')"
  proof (rule plain_loop.raw_induct [where P = "\<lambda>nxt rd wr auth s r. P nxt r", OF _ assms])
    fix loop nxt rd wr auth s r
    assume IH: "\<And>nxt rd wr auth s r. loop nxt rd wr auth s = Some r \<Longrightarrow> P nxt r"
      and eq: "(case rd 4096 s of
          (Inl err, s) \<Rightarrow> Some (Inl err, s)
        | (Inr bs, s) \<Rightarrow>
            (case nxt auth bs of
               (Inl err, auth) \<Rightarrow> Some (Inl err, s)
             | (Inr (challenge, done), auth) \<Rightarrow>
                 if done then Some (Inr ''TODO'', s) else loop nxt rd wr auth (wr challenge s))) = Some r"
    then show "P nxt r" by (auto simp: P_def split: prod.splits sum.splits if_splits)
  qed
  then show ?thesis by (simp add: P_def)
qed

lemma plain_check_None: "plain_check userpass identity username password = None \<longleftrightarrow>
    identity = username \<and> userpass username = Some password"
  by (auto simp: plain_check_def split: option.splits)

end
