(* ===== verification/Spec2Isabelle.thy ===== *)
theory Spec2Isabelle
  imports Codec_Claims Loop_Claims World_Claims Stream_Claims Client_Claims Union_Claims
    Mount9p_Claims Real_Claims Fs_Extras
begin

text \<open>
  A verification of go9p, a library for 9P2000 file servers.
\<close>

end
